theory Spec2Isabelle
  imports Complex_Main "HOL-Library.Sublist"
begin

section \<open>Strings\<close>

text \<open>
  JavaScript strings are modelled as \<^typ>\<open>string\<close>, a list of 8-bit characters.
  The case mappings and the character classes below are those of ASCII; every phrase
  table and every pattern of the sources is ASCII. Logging (\<open>console.log\<close>) is not
  modelled: it has no influence on any returned value.
\<close>

definition caseTable :: "(char \<times> char) list" where
  "caseTable = zip ''ABCDEFGHIJKLMNOPQRSTUVWXYZ'' ''abcdefghijklmnopqrstuvwxyz''"

definition lowerChar :: "char \<Rightarrow> char" where
  "lowerChar c = (case map_of caseTable c of Some d \<Rightarrow> d | None \<Rightarrow> c)"

definition upperChar :: "char \<Rightarrow> char" where
  "upperChar c = (case map_of (map (\<lambda>(u, l). (l, u)) caseTable) c of Some d \<Rightarrow> d | None \<Rightarrow> c)"

text \<open>\<open>String.prototype.toLowerCase\<close> and \<open>toUpperCase\<close>.\<close>

definition toLowerCase :: "string \<Rightarrow> string" where
  "toLowerCase s = map lowerChar s"

definition toUpperCase :: "string \<Rightarrow> string" where
  "toUpperCase s = map upperChar s"

text \<open>\<open>String.prototype.includes\<close>: substring search, scanning the start positions
  from the left.\<close>

fun js_includes :: "string \<Rightarrow> string \<Rightarrow> bool" where
  "js_includes [] p = (p = [])"
| "js_includes (c # cs) p = (prefix p (c # cs) \<or> js_includes cs p)"

text \<open>JavaScript truthiness of an optional string: \<open>undefined\<close>, \<open>null\<close> and the
  empty string are falsy.\<close>

fun truthy :: "string option \<Rightarrow> bool" where
  "truthy None = False"
| "truthy (Some s) = (s \<noteq> [])"

text \<open>\<open>x || ''\<close> for an optional string.\<close>

fun orEmpty :: "string option \<Rightarrow> string" where
  "orEmpty None = []"
| "orEmpty (Some s) = s"

text \<open>\<open>a || b\<close> for an optional string \<open>a\<close> and a string \<open>b\<close>.\<close>

fun orElse :: "string option \<Rightarrow> string \<Rightarrow> string" where
  "orElse None b = b"
| "orElse (Some a) b = (if a = [] then b else a)"

section \<open>Regular expressions\<close>

text \<open>
  The sources match and rewrite text with JavaScript regular expressions. They are
  embedded as syntax trees with the backtracking semantics of the language: a matcher
  returns the states it can end in, in the order backtracking tries them, so the first
  state of the first start position that has one is the match JavaScript reports.
  Every expression of the sources has at most one capturing group.
\<close>

definition isUpper :: "char \<Rightarrow> bool" where
  "isUpper c = (c \<in> set ''ABCDEFGHIJKLMNOPQRSTUVWXYZ'')"

definition isLower :: "char \<Rightarrow> bool" where
  "isLower c = (c \<in> set ''abcdefghijklmnopqrstuvwxyz'')"

definition isDigit :: "char \<Rightarrow> bool" where
  "isDigit c = (c \<in> set ''0123456789'')"

text \<open>\<open>\s\<close>: tab, line feed, vertical tab, form feed, carriage return, space.\<close>

definition isSpace :: "char \<Rightarrow> bool" where
  "isSpace c = (c \<in> set [CHR 0x09, CHR 0x0A, CHR 0x0B, CHR 0x0C, CHR 0x0D, CHR 0x20])"

text \<open>\<open>\w\<close>.\<close>

definition isWord :: "char \<Rightarrow> bool" where
  "isWord c = (isUpper c \<or> isLower c \<or> isDigit c \<or> c = CHR ''_'')"

text \<open>The members of a character class: a character, \<open>A-Z\<close>, \<open>a-z\<close>, \<open>0-9\<close>
  (\<open>\d\<close>), \<open>\s\<close>, \<open>\w\<close>. The class \<open>[1-6]\<close> is written with its six characters.\<close>

datatype citem = CChar char | CUpper | CLower | CDigit | CSpace | CWord

datatype regex =
    Chr char
  | Cls "citem list"
  | NCls "citem list"
  | Dot
  | Bol
  | Eol
  | Eps
  | Seq regex regex
  | Alt regex regex
  | Rep bool nat "nat option" regex
  | Grp regex

text \<open>
  \<open>Rep greedy min max r\<close> is a quantifier (\<open>*\<close>, \<open>+\<close>, \<open>?\<close>, \<open>{3,}\<close> and their lazy
  forms), \<open>Grp\<close> the capturing group, \<open>Bol\<close> and \<open>Eol\<close> the anchors \<open>^\<close> and \<open>$\<close>
  (no expression of the sources has the multiline flag).
  With the flag \<open>i\<close> two characters match when their upper-case forms agree.
\<close>

definition chrMatch :: "bool \<Rightarrow> char \<Rightarrow> char \<Rightarrow> bool" where
  "chrMatch ic c d = (if ic then upperChar c = upperChar d else c = d)"

fun itemMatch :: "bool \<Rightarrow> citem \<Rightarrow> char \<Rightarrow> bool" where
  "itemMatch ic (CChar c) d = chrMatch ic c d"
| "itemMatch ic CUpper d = (isUpper d \<or> (ic \<and> isLower d))"
| "itemMatch ic CLower d = (isLower d \<or> (ic \<and> isUpper d))"
| "itemMatch ic CDigit d = isDigit d"
| "itemMatch ic CSpace d = isSpace d"
| "itemMatch ic CWord d = isWord d"

definition clsMatch :: "bool \<Rightarrow> citem list \<Rightarrow> char \<Rightarrow> bool" where
  "clsMatch ic items d = list_ex (\<lambda>it. itemMatch ic it d) items"

text \<open>\<open>.\<close> matches every character but a line terminator.\<close>

definition dotMatch :: "char \<Rightarrow> bool" where
  "dotMatch d = (d \<noteq> CHR 0x0A \<and> d \<noteq> CHR 0x0D)"

text \<open>A matcher state: whether the position is the start of the input, the text
  still to read, and the capture of the group (\<open>None\<close> while it has not taken part).\<close>

type_synonym mstate = "bool \<times> string \<times> string option"

text \<open>One character, accepted by \<open>ok\<close>.\<close>

fun step :: "(char \<Rightarrow> bool) \<Rightarrow> mstate \<Rightarrow> mstate list" where
  "step ok (b, [], cap) = []"
| "step ok (b, d # ds, cap) = (if ok d then [(False, ds, cap)] else [])"

text \<open>
  The quantifier loop over a matcher \<open>f\<close> for the body. Once the minimum is reached,
  an iteration that consumes nothing is rejected, as the language specifies; so each
  further iteration shortens the text, and \<open>fuel\<close>, started at the length of the text
  plus the minimum, is never exhausted before the loop ends by itself.
\<close>

fun repeat ::
  "(mstate \<Rightarrow> mstate list) \<Rightarrow> bool \<Rightarrow> nat \<Rightarrow> nat option \<Rightarrow> nat \<Rightarrow> mstate \<Rightarrow> mstate list" where
  "repeat f greedy mn mx 0 st = (if mn = 0 then [st] else [])"
| "repeat f greedy mn mx (Suc fuel) st =
     (if mx = Some 0 then [st]
      else
        (let again = concat (map (repeat f greedy (mn - 1) (map_option (\<lambda>k. k - 1) mx) fuel)
                       (filter (\<lambda>st'. 0 < mn \<or> length (fst (snd st')) < length (fst (snd st)))
                          (f st)))
         in if 0 < mn then again
            else if greedy then again @ [st]
            else st # again))"

fun run :: "bool \<Rightarrow> regex \<Rightarrow> mstate \<Rightarrow> mstate list" where
  "run ic (Chr c) st = step (chrMatch ic c) st"
| "run ic (Cls items) st = step (clsMatch ic items) st"
| "run ic (NCls items) st = step (\<lambda>d. \<not> clsMatch ic items d) st"
| "run ic Dot st = step dotMatch st"
| "run ic Bol st = (if fst st then [st] else [])"
| "run ic Eol st = (if fst (snd st) = [] then [st] else [])"
| "run ic Eps st = [st]"
| "run ic (Seq r1 r2) st = concat (map (\<lambda>st'. run ic r2 st') (run ic r1 st))"
| "run ic (Alt r1 r2) st = run ic r1 st @ run ic r2 st"
| "run ic (Rep greedy mn mx r) st =
     repeat (\<lambda>st'. run ic r st') greedy mn mx (length (fst (snd st)) + mn) st"
| "run ic (Grp r) st =
     map (\<lambda>st'. (fst st', fst (snd st'),
                 Some (take (length (fst (snd st)) - length (fst (snd st'))) (fst (snd st)))))
       (run ic r st)"

text \<open>
  \<open>search\<close> tries the start positions from the left (\<open>RegExp.prototype.exec\<close>). It
  returns the text before the match, the text from the start of the match, and the
  state at its end.
\<close>

fun search :: "bool \<Rightarrow> regex \<Rightarrow> bool \<Rightarrow> string \<Rightarrow> string \<Rightarrow> (string \<times> string \<times> mstate) option" where
  "search ic r b pre [] =
     (case run ic r (b, [], None) of [] \<Rightarrow> None | m # ms \<Rightarrow> Some (pre, [], m))"
| "search ic r b pre (c # cs) =
     (case run ic r (b, c # cs, None) of
        [] \<Rightarrow> search ic r False (pre @ [c]) cs
      | m # ms \<Rightarrow> Some (pre, c # cs, m))"

text \<open>\<open>s.match(r)\<close> for an expression without the flag \<open>g\<close>: \<open>None\<close> is \<open>null\<close>;
  otherwise the capture \<open>match[1]\<close>, itself \<open>None\<close> when the group took no part.\<close>

definition js_match :: "bool \<Rightarrow> regex \<Rightarrow> string \<Rightarrow> string option option" where
  "js_match ic r s =
     (case search ic r True [] s of None \<Rightarrow> None | Some (pre, start, m) \<Rightarrow> Some (snd (snd m)))"

text \<open>\<open>r.test(s)\<close>.\<close>

definition js_test :: "bool \<Rightarrow> regex \<Rightarrow> string \<Rightarrow> bool" where
  "js_test ic r s = (search ic r True [] s \<noteq> None)"

text \<open>\<open>s.replace(r, rep)\<close> without the flag \<open>g\<close>: the first match is replaced.\<close>

definition replaceFirst :: "bool \<Rightarrow> regex \<Rightarrow> string \<Rightarrow> string \<Rightarrow> string" where
  "replaceFirst ic r rep s =
     (case search ic r True [] s of
        None \<Rightarrow> s
      | Some (pre, start, m) \<Rightarrow> pre @ rep @ fst (snd m))"

lemma search_split:
  "search ic r b pre s = Some (pre', start, m) \<Longrightarrow> pre @ s = pre' @ start"
proof (induction s arbitrary: pre b)
  case Nil
  then show ?case by (auto split: list.splits)
next
  case (Cons c cs)
  show ?case
  proof (cases "run ic r (b, c # cs, None)")
    case Nil
    with Cons.prems have "search ic r False (pre @ [c]) cs = Some (pre', start, m)" by simp
    from Cons.IH [OF this] show ?thesis by simp
  next
    case (Cons m' ms)
    with Cons.prems show ?thesis by simp
  qed
qed

text \<open>
  \<open>s.replace(r, rep)\<close> with the flag \<open>g\<close>, for a replacement text without \<open>$\<close>: every
  match is replaced, the search going on behind each match; after an empty match one
  character is copied.
\<close>

function replaceFrom :: "bool \<Rightarrow> regex \<Rightarrow> string \<Rightarrow> bool \<Rightarrow> string \<Rightarrow> string" where
  "replaceFrom ic r rep b s =
     (case search ic r b [] s of
        None \<Rightarrow> s
      | Some (pre, start, m) \<Rightarrow>
          if length (fst (snd m)) < length start
            then pre @ rep @ replaceFrom ic r rep False (fst (snd m))
          else (case start of
                  [] \<Rightarrow> pre @ rep
                | c # cs \<Rightarrow> pre @ rep @ c # replaceFrom ic r rep False cs))"
  by pat_completeness auto
termination
proof (relation "measure (\<lambda>(ic, r, rep, b, s). length s)")
  show "wf (measure (\<lambda>(ic, r, rep, b, s). length s))" by simp
next
  fix ic r rep b s x2 pre y start m
  assume "search ic r b [] s = Some x2" "(pre, y) = x2" "(start, m) = y"
    and "length (fst (snd m)) < length start"
  then have "s = pre @ start" using search_split [of ic r b "[]" s pre start m] by auto
  with \<open>length (fst (snd m)) < length start\<close>
  show "((ic, r, rep, False, fst (snd m)), (ic, r, rep, b, s))
          \<in> measure (\<lambda>(ic, r, rep, b, s). length s)" by simp
next
  fix ic r rep b s x2 pre y start m c cs
  assume "search ic r b [] s = Some x2" "(pre, y) = x2" "(start, m) = y" "start = c # cs"
  then have "s = pre @ c # cs" using search_split [of ic r b "[]" s pre start m] by auto
  then show "((ic, r, rep, False, cs), (ic, r, rep, b, s))
          \<in> measure (\<lambda>(ic, r, rep, b, s). length s)" by simp
qed

declare replaceFrom.simps [simp del]

definition replaceAll :: "bool \<Rightarrow> regex \<Rightarrow> string \<Rightarrow> string \<Rightarrow> string" where
  "replaceAll ic r rep s = replaceFrom ic r rep True s"

text \<open>Helpers for writing expressions: a literal text, a sequence, an alternation,
  and the usual quantifiers.\<close>

definition lit :: "string \<Rightarrow> regex" where
  "lit s = foldr (\<lambda>c r. Seq (Chr c) r) s Eps"

definition seqs :: "regex list \<Rightarrow> regex" where
  "seqs rs = foldr Seq rs Eps"

fun alts :: "regex list \<Rightarrow> regex" where
  "alts [] = Eps"
| "alts [r] = r"
| "alts (r # rs) = Alt r (alts rs)"

definition rstar :: "regex \<Rightarrow> regex" where "rstar r = Rep True 0 None r"
definition rplus :: "regex \<Rightarrow> regex" where "rplus r = Rep True 1 None r"
definition ropt :: "regex \<Rightarrow> regex" where "ropt r = Rep True 0 (Some 1) r"
definition rlazyStar :: "regex \<Rightarrow> regex" where "rlazyStar r = Rep False 0 None r"
definition rlazyPlus :: "regex \<Rightarrow> regex" where "rlazyPlus r = Rep False 1 None r"

text \<open>\<open>String.prototype.trim\<close>.\<close>

definition trim :: "string \<Rightarrow> string" where
  "trim s = rev (dropWhile isSpace (rev (dropWhile isSpace s)))"

text \<open>The expressions \<open>\s+\<close> and \<open>\s*\<close>, and \<open>[\s\S]*?\<close> (every character, lazily).\<close>

abbreviation ws1 :: regex where "ws1 \<equiv> rplus (Cls [CSpace])"
abbreviation ws0 :: regex where "ws0 \<equiv> rstar (Cls [CSpace])"
abbreviation anyLazy :: regex where "anyLazy \<equiv> rlazyStar (NCls [])"

text \<open>\<open>s.split(sep)\<close> for a separator that is one character out of a set: every
  separator ends a piece, so adjacent separators give empty pieces.\<close>

fun splitOn :: "(char \<Rightarrow> bool) \<Rightarrow> string \<Rightarrow> string \<Rightarrow> string list" where
  "splitOn sep acc [] = [acc]"
| "splitOn sep acc (c # cs) =
     (if sep c then acc # splitOn sep [] cs else splitOn sep (acc @ [c]) cs)"

text \<open>\<open>s.split(/\s+/)\<close>: a maximal run of white space is one separator.\<close>

function splitSpaces :: "string \<Rightarrow> string \<Rightarrow> string list" where
  "splitSpaces acc [] = [acc]"
| "splitSpaces acc (c # cs) =
     (if isSpace c then acc # splitSpaces [] (dropWhile isSpace cs)
      else splitSpaces (acc @ [c]) cs)"
  by pat_completeness auto
termination
  by (relation "measure (\<lambda>(acc, s). length s)")
     (auto simp: length_dropWhile_le less_Suc_eq_le)

text \<open>\<open>words.join(sep)\<close>.\<close>

fun joinWith :: "string \<Rightarrow> string list \<Rightarrow> string" where
  "joinWith sep [] = []"
| "joinWith sep [w] = w"
| "joinWith sep (w # ws) = w @ sep @ joinWith sep ws"

text \<open>\<open>word.charAt(0).toUpperCase() + word.slice(1)\<close> and
  \<open>word.charAt(0).toUpperCase() + word.slice(1).toLowerCase()\<close>.\<close>

fun capitalizeFirst :: "string \<Rightarrow> string" where
  "capitalizeFirst [] = []"
| "capitalizeFirst (c # cs) = upperChar c # cs"

fun titleCaseWord :: "string \<Rightarrow> string" where
  "titleCaseWord [] = []"
| "titleCaseWord (c # cs) = upperChar c # toLowerCase cs"

section \<open>Text normalizer (\<open>cleanHtmlContent\<close>, scan route)\<close>

text \<open>The marker the source writes for a list item, as the bytes of its text in the
  source file, with the space behind it; and the class \<open>[1-6]\<close>.\<close>

definition bulletMarker :: string where
  "bulletMarker =
     [CHR 0xE2, CHR 0x80, CHR 0x9A, CHR 0xC3, CHR 0x84, CHR 0xC2, CHR 0xA2, CHR 0x20]"

abbreviation digit16 :: regex where
  "digit16 \<equiv> Cls [CChar CHR ''1'', CChar CHR ''2'', CChar CHR ''3'', CChar CHR ''4'',
     CChar CHR ''5'', CChar CHR ''6'']"

text \<open>The chain of \<open>.replace(expression, text)\<close> calls, in order: whether the expression
  has the flag \<open>i\<close> (all have \<open>g\<close>), the expression, and the replacement.\<close>

definition cleanSteps :: "(bool \<times> regex \<times> string) list" where
  "cleanSteps = [
    (False, seqs [lit ''@import'', rplus (NCls [CChar CHR '';'']), Chr CHR '';''], ''''),
    (True, seqs [lit ''<style'', rstar (NCls [CChar CHR ''>'']), Chr CHR ''>'', anyLazy,
      lit ''</style>''], ''''),
    (True, seqs [lit ''style'', ws0, Chr CHR ''='', ws0, Cls [CChar CHR 0x22, CChar CHR 0x27],
      rstar (NCls [CChar CHR 0x22, CChar CHR 0x27]), Cls [CChar CHR 0x22, CChar CHR 0x27]],
      ''''),
    (True, seqs [lit ''<script'', rstar (NCls [CChar CHR ''>'']), Chr CHR ''>'', anyLazy,
      lit ''</script>''], ''''),
    (False, seqs [lit ''<!--'', anyLazy, lit ''-->''], ''''),
    (True, seqs [lit ''<head'', rstar (NCls [CChar CHR ''>'']), Chr CHR ''>'', anyLazy,
      lit ''</head>''], ''''),
    (True, seqs [lit ''<meta'', rstar (NCls [CChar CHR ''>'']), Chr CHR ''>''], ''''),
    (True, seqs [lit ''<link'', rstar (NCls [CChar CHR ''>'']), Chr CHR ''>''], ''''),
    (False, seqs [Chr CHR ''{'', rstar (NCls [CChar CHR ''}'']), Chr CHR ''}''], ''''),
    (True, seqs [lit ''font-family:'', rplus (NCls [CChar CHR '';'']), ropt (Chr CHR '';'')],
      ''''),
    (True, seqs [lit ''color:'', rplus (NCls [CChar CHR '';'']), ropt (Chr CHR '';'')], ''''),
    (True, seqs [lit ''margin:'', rplus (NCls [CChar CHR '';'']), ropt (Chr CHR '';'')], ''''),
    (True, seqs [lit ''padding:'', rplus (NCls [CChar CHR '';'']), ropt (Chr CHR '';'')], ''''),
    (True, seqs [lit ''width:'', rplus (NCls [CChar CHR '';'']), ropt (Chr CHR '';'')], ''''),
    (True, seqs [lit ''height:'', rplus (NCls [CChar CHR '';'']), ropt (Chr CHR '';'')], ''''),
    (True, seqs [lit ''-webkit-'', rplus (NCls [CChar CHR '';'']), ropt (Chr CHR '';'')], ''''),
    (True, seqs [lit ''-ms-'', rplus (NCls [CChar CHR '';'']), ropt (Chr CHR '';'')], ''''),
    (True, seqs [lit ''mso-'', rplus (NCls [CChar CHR '';'']), ropt (Chr CHR '';'')], ''''),
    (True, seqs [lit ''<br'', ws0, ropt (Chr CHR ''/''), Chr CHR ''>''], [CHR 0x0A]),
    (True, lit ''</p>'', [CHR 0x0A, CHR 0x0A]),
    (True, seqs [lit ''<p'', rstar (NCls [CChar CHR ''>'']), Chr CHR ''>''], ''''),
    (True, seqs [lit ''<div'', rstar (NCls [CChar CHR ''>'']), Chr CHR ''>''], ''''),
    (True, lit ''</div>'', [CHR 0x0A]),
    (True, seqs [lit ''<h'', digit16, rstar (NCls [CChar CHR ''>'']), Chr CHR ''>''],
      [CHR 0x0A]),
    (True, seqs [lit ''</h'', digit16, Chr CHR ''>''], [CHR 0x0A, CHR 0x0A]),
    (True, seqs [lit ''<li'', rstar (NCls [CChar CHR ''>'']), Chr CHR ''>''], bulletMarker),
    (True, lit ''</li>'', [CHR 0x0A]),
    (False, seqs [Chr CHR ''<'', rplus (NCls [CChar CHR ''>'']), Chr CHR ''>''], '' ''),
    (True, lit ''&nbsp;'', '' ''),
    (True, lit ''&amp;'', ''&''),
    (True, lit ''&lt;'', ''<''),
    (True, lit ''&gt;'', ''>''),
    (True, lit ''&quot;'', [CHR 0x22]),
    (True, lit ''&#39;'', [CHR 0x27]),
    (False, seqs [Chr CHR ''&'', rplus (Cls [CLower, CUpper, CDigit, CChar CHR ''#'']),
      Chr CHR '';''], ''''),
    (False, ws1, '' ''),
    (False, seqs [Chr CHR 0x0A, ws1], [CHR 0x0A]),
    (False, Rep True 3 None (Chr CHR 0x0A), [CHR 0x0A, CHR 0x0A])]"

fun applyStep :: "string \<Rightarrow> bool \<times> regex \<times> string \<Rightarrow> string" where
  "applyStep s (ic, r, rep) = replaceAll ic r rep s"

definition cleanHtmlContent :: "string \<Rightarrow> string" where
  "cleanHtmlContent htmlContent =
     (if htmlContent = [] then [] else trim (foldl applyStep htmlContent cleanSteps))"

section \<open>Status classifier (\<open>determineStatus\<close>, scan route)\<close>

datatype status = Applied | Interviewing | Offered | Rejected | Ghosted

datatype analysisMethod = Ai | Regex | InsufficientData

fun statusName :: "status \<Rightarrow> string" where
  "statusName Applied = ''applied''"
| "statusName Interviewing = ''interviewing''"
| "statusName Offered = ''offered''"
| "statusName Rejected = ''rejected''"
| "statusName Ghosted = ''ghosted''"

fun methodName :: "analysisMethod \<Rightarrow> string" where
  "methodName Ai = ''ai''"
| "methodName Regex = ''regex''"
| "methodName InsufficientData = ''insufficient_data''"

text \<open>What a collaborator throws: an \<open>Error\<close> with its message, or any other value.\<close>

datatype thrown = ErrorObject string | OtherValue

definition rejectionIndicators :: "string list" where
  "rejectionIndicators = [
    ''we regret to inform you'', ''we regret to inform'', ''sorry to inform you'',
    ''sorry to inform'', ''we are unable to'', ''we cannot'', ''we will not be'',
    ''we have decided not to'', ''we have chosen to'',
    ''we are moving forward with other candidates'', ''moving forward with other candidates'',
    ''we are proceeding with other candidates'', ''proceeding with other candidates'',
    ''we have selected other candidates'', ''selected other candidates'',
    ''we have chosen other candidates'', ''chosen other candidates'',
    ''decided to pursue other candidates'', ''pursue other candidates'',
    ''going with another candidate'', ''chosen another candidate'', ''selected another candidate'',
    ''not a match at this time'', ''not the right fit'', ''not a good fit'', ''not the best fit'',
    ''better suited candidates'', ''more qualified candidates'', ''stronger candidates'',
    ''different direction'', ''different path'', ''other direction'',
    ''will not be moving forward'', ''not moving forward'', ''will not be proceeding'',
    ''not proceeding'', ''will not be advancing'', ''not advancing'',
    ''will not be continuing'', ''not continuing'',
    ''unfortunately'', ''regrettably'', ''we must inform you'', ''we have to inform you'',
    ''we need to inform you'', ''we are writing to inform you'',
    ''thank you for your interest, however'', ''thank you for your interest but'',
    ''thank you for applying, however'', ''thank you for applying but'',
    ''we appreciate your interest, however'', ''we appreciate your interest but'',
    ''appreciate your time, however'', ''appreciate your time but'',
    ''position has been filled'', ''role has been filled'', ''job has been filled'',
    ''position is no longer available'', ''role is no longer available'',
    ''job is no longer available'', ''decided not to fill'', ''chose not to fill'',
    ''highly competitive'', ''many qualified applicants'', ''numerous qualified candidates'',
    ''large pool of candidates'', ''extensive candidate pool'', ''other applicants'',
    ''alternative candidates'',
    ''keep your resume on file'', ''keep you in mind for future'', ''future opportunities'',
    ''future openings'', ''will keep your information'', ''consider you for future'',
    ''future positions'',
    ''wish you the best'', ''best of luck'', ''success in your job search'',
    ''good luck with your search'', ''wish you success'', ''best wishes'', ''all the best'']"

definition offerIndicators :: "string list" where
  "offerIndicators = [
    ''pleased to offer'', ''happy to offer'', ''excited to offer'', ''delighted to offer'',
    ''thrilled to offer'', ''offer you the position'', ''offer you a position'',
    ''extend an offer'', ''job offer'', ''employment offer'', ''offer of employment'',
    ''congratulations'', ''you have been selected'', ''we would like to hire'',
    ''we want to hire'', ''welcome to the team'', ''welcome aboard'', ''offer letter'',
    ''compensation package'', ''salary offer'', ''starting salary'', ''benefits package'',
    ''start date'', ''first day of work'', ''orientation date'']"

definition interviewIndicators :: "string list" where
  "interviewIndicators = [
    ''interview'', ''phone screen'', ''phone call'', ''video call'', ''zoom call'',
    ''teams call'', ''schedule a call'', ''set up a call'', ''arrange a call'',
    ''technical screen'', ''coding challenge'', ''assessment'', ''next round'',
    ''second round'', ''final round'', ''meet with'', ''speak with'', ''chat with'',
    ''discussion'', ''conversation'', ''would like to talk'', ''like to speak'',
    ''schedule a meeting'', ''set up a meeting'', ''arrange a meeting'', ''next step'',
    ''next steps'', ''follow up'', ''follow-up'', ''move forward'', ''proceed to'',
    ''advance to'']"

definition appliedIndicators :: "string list" where
  "appliedIndicators = [
    ''application received'', ''thank you for applying'', ''thanks for applying'',
    ''received your application'', ''application has been received'',
    ''thank you for your application'', ''thanks for your application'',
    ''application confirmation'', ''thank you for your interest'', ''thanks for your interest'',
    ''we have received your'', ''successfully submitted'', ''application submitted'',
    ''under review'', ''being reviewed'', ''review your application'',
    ''reviewing your application'', ''will review'', ''team will review'',
    ''hiring team will'', ''will be in touch'', ''will contact you'', ''will reach out'',
    ''will get back to you'', ''hear from us'', ''application status'', ''keep you updated'',
    ''update you'']"

text \<open>The loop \<open>for (const indicator of indicators) if (contentLower.includes(indicator))
  return ...\<close>: it walks the table in order and stops at the first phrase found.\<close>

fun indicatorLoop :: "string \<Rightarrow> string list \<Rightarrow> bool" where
  "indicatorLoop contentLower [] = False"
| "indicatorLoop contentLower (indicator # rest) =
     (if js_includes contentLower indicator then True else indicatorLoop contentLower rest)"

definition determineStatus :: "string \<Rightarrow> status" where
  "determineStatus content =
     (let contentLower = toLowerCase content in
      if indicatorLoop contentLower rejectionIndicators then Rejected
      else if indicatorLoop contentLower offerIndicators then Offered
      else if indicatorLoop contentLower interviewIndicators then Interviewing
      else if indicatorLoop contentLower appliedIndicators then Applied
      else Applied)"

section \<open>Noise filter (\<open>isJobBoardNotification\<close>, scan route)\<close>

definition notificationPatterns :: "string list" where
  "notificationPatterns = [
    ''jobs you may be interested in'', ''recommended for you'', ''new jobs posted'',
    ''job alert'', ''daily job digest'', ''weekly job digest'',
    ''jobs matching your preferences'', ''similar jobs to ones you'', ''jobs like'',
    ''jobs near you'', ''trending jobs'', ''premium job insights'',
    ''jobs matching your search'', ''recommended jobs'', ''jobs from your search'',
    ''new jobs on indeed'', ''indeed job alert'', ''similar to jobs you'',
    ''jobs posted today'', ''more jobs like'',
    ''jobs for you'', ''personalized job recommendations'', ''glassdoor job alert'',
    ''companies hiring'', ''salary insights'',
    ''ziprecruiter job alert'', ''jobs posted near'', ''apply to these jobs'',
    ''one-click apply'',
    ''bebee job alert'', ''bebee job notification'', ''new jobs on bebee'',
    ''bebee professional network'', ''bebee opportunities'',
    ''newsletter'', ''weekly update'', ''digest'', ''subscription'', ''unsubscribe'',
    ''marketing'', ''promotional'', ''sponsored'', ''advertisement'', ''ad:'',
    ''jobs you might like'', ''might interest you'', ''explore opportunities'',
    ''browse jobs'', ''view all jobs'', ''see more jobs'', ''apply now to'',
    ''quick apply'', ''easy apply'']"

definition senderPatterns :: "string list" where
  "senderPatterns = [
    ''notifications@'', ''alerts@'', ''digest@'', ''newsletter@'', ''updates@'',
    ''marketing@'', ''jobs@indeed'', ''jobs@linkedin'', ''alerts@glassdoor'',
    ''notification@'', ''automated@'', ''bebee'', ''@bebee.com'', ''jobs@bebee'']"

text \<open>The local constant \<open>isApplicationConfirmation\<close>; \<open>&&\<close> binds tighter than \<open>||\<close>,
  so only the last phrase is guarded by the three co-occurring words.\<close>

definition isApplicationConfirmation :: "string \<Rightarrow> bool" where
  "isApplicationConfirmation contentLower =
     (js_includes contentLower ''thank you for applying'' \<or>
      js_includes contentLower ''thanks for applying'' \<or>
      js_includes contentLower ''application received'' \<or>
      js_includes contentLower ''we have received your application'' \<or>
      js_includes contentLower ''your application has been received'' \<or>
      (js_includes contentLower ''thank you for your interest'' \<and>
        (js_includes contentLower ''application'' \<or>
         js_includes contentLower ''position'' \<or>
         js_includes contentLower ''role'')))"

definition isJobBoardNotification :: "string \<Rightarrow> string \<Rightarrow> string \<Rightarrow> bool" where
  "isJobBoardNotification content from subject =
     (let contentLower = toLowerCase content;
          fromLower = toLowerCase from;
          subjectLower = toLowerCase subject
      in if isApplicationConfirmation contentLower then False
         else
           (let isNotificationSender =
                  list_ex (\<lambda>pattern. js_includes fromLower pattern) senderPatterns;
                hasNotificationPattern =
                  list_ex (\<lambda>pattern. js_includes contentLower pattern \<or>
                                       js_includes subjectLower pattern) notificationPatterns;
                hasAutomatedIndicators =
                  (js_includes contentLower ''this is an automated'' \<or>
                   js_includes contentLower ''do not reply to this'' \<or>
                   js_includes contentLower ''automatically generated'' \<or>
                   js_includes subjectLower ''[automated]'' \<or>
                   js_includes subjectLower ''auto:'')
            in isNotificationSender \<or> hasNotificationPattern \<or> hasAutomatedIndicators))"

section \<open>Job-related filter (\<open>isJobRelatedEmail\<close>, scan route)\<close>

definition jobKeywords :: "string list" where
  "jobKeywords = [
    ''job'', ''application'', ''position'', ''role'', ''interview'', ''hiring'', ''recruiter'',
    ''hr'', ''human resources'', ''talent'', ''career'', ''opportunity'', ''employment'',
    ''candidate'', ''resume'', ''cv'', ''screening'', ''phone screen'']"

definition applicationConfirmationPatterns :: "string list" where
  "applicationConfirmationPatterns = [
    ''thank you for applying'', ''thanks for applying'', ''thanks for your application'',
    ''application received'', ''we have received your application'',
    ''thanks for your interest'', ''thank you for your interest'',
    ''application confirmation'', ''successfully submitted'', ''application status'',
    ''received your resume'', ''thank you for your submission'',
    ''we received your application'', ''your application has been received'',
    ''application has been received'', ''we will review your application'',
    ''we will review it right away'', ''we will review as soon as possible'',
    ''thanks for applying to'', ''thank you for your interest in'', ''application received -'',
    ''thanks for your application -'', ''we have received your'', ''thank you for submitting'',
    ''your application for'', ''application for the'', ''received your application for'',
    ''thank you for your application to'', ''thanks for your application to'',
    ''application submitted successfully'', ''we appreciate your interest'',
    ''received your job application'', ''application confirmation number'',
    ''reference number'', ''application id'', ''next steps in our process'',
    ''our hiring team will review'', ''your candidacy for'', ''position you applied for'',
    ''role you applied for'']"

definition commonJobSites :: "string list" where
  "commonJobSites = [
    ''linkedin'', ''indeed'', ''glassdoor'', ''monster'', ''ziprecruiter'', ''dice'',
    ''stackoverflow'', ''github'', ''angel.co'', ''wellfound'', ''hired'', ''bebee'']"

definition recruiterIndicators :: "string list" where
  "recruiterIndicators = [
    ''recruiter'', ''recruiting'', ''talent acquisition'', ''hr specialist'',
    ''hiring manager'', ''people operations'', ''people team'']"

text \<open>The keyword tests read \<open>content\<close> as it is passed (the caller passes it
  lower-cased); only the sender is lower-cased here.\<close>

definition isJobRelatedEmail :: "string \<Rightarrow> string \<Rightarrow> string \<Rightarrow> bool" where
  "isJobRelatedEmail content from subject =
     (if isJobBoardNotification content from subject then False
      else
        (let hasJobKeywords = list_ex (\<lambda>keyword. js_includes content keyword) jobKeywords;
             hasApplicationConfirmation =
               list_ex (\<lambda>pattern. js_includes content pattern) applicationConfirmationPatterns;
             isFromJobSite =
               list_ex (\<lambda>site. js_includes (toLowerCase from) site) commonJobSites;
             isFromRecruiter =
               list_ex (\<lambda>indicator. js_includes content indicator \<or>
                                     js_includes (toLowerCase from) indicator)
                 recruiterIndicators
         in hasJobKeywords \<or> hasApplicationConfirmation \<or> isFromJobSite \<or> isFromRecruiter))"

section \<open>Company extractor (\<open>extractCompany\<close>, scan route)\<close>

subsection \<open>Stage 1: the sender's domain\<close>

text \<open>\<open>/@([^.]+)\./\<close>, and the prefix and suffix expressions of the clean-up.\<close>

definition domainPattern :: regex where
  "domainPattern = seqs [Chr CHR ''@'', Grp (rplus (NCls [CChar CHR ''.''])), Chr CHR ''.'']"

definition domainPrefixPattern :: regex where
  "domainPrefixPattern =
     seqs [Bol, Grp (alts [lit ''www.'', lit ''mail.'', lit ''hr.'', lit ''jobs.'',
       lit ''careers.'', lit ''recruiting.'', lit ''talent.''])]"

definition domainSuffixPattern :: regex where
  "domainSuffixPattern =
     seqs [Grp (alts [lit ''corp'', lit ''inc'', lit ''llc'', lit ''ltd'', lit ''co'']), Eol]"

definition excludedDomains :: "string list" where
  "excludedDomains = [
    ''gmail'', ''yahoo'', ''outlook'', ''hotmail'', ''aol'', ''icloud'',
    ''linkedin'', ''indeed'', ''glassdoor'', ''monster'', ''ziprecruiter'', ''dice'',
    ''stackoverflow'', ''github'', ''angel'', ''wellfound'', ''hired'', ''bebee'',
    ''workday'', ''greenhouse'', ''lever'', ''jobvite'', ''smartrecruiters'',
    ''brassring'', ''icims'', ''kronos'', ''successfactors'', ''taleo'',
    ''bamboohr'', ''namely'', ''zenefits'', ''gusto'', ''adp'',
    ''noreply'', ''no-reply'', ''donotreply'', ''automated'', ''notifications'']"

definition companyFromDomain :: "string \<Rightarrow> string option" where
  "companyFromDomain from =
     (case js_match False domainPattern from of
        Some (Some m1) \<Rightarrow>
          (let domain = toLowerCase m1 in
           if domain \<notin> set excludedDomains then
             (let companyName = replaceFirst False domainPrefixPattern [] domain;
                  companyName = replaceFirst False domainSuffixPattern [] companyName;
                  companyName = capitalizeFirst companyName
              in if 2 \<le> length companyName \<and> length companyName \<le> 50
                 then Some companyName else None)
           else None)
      | _ \<Rightarrow> None)"

subsection \<open>Stage 2: phrase patterns over subject and body\<close>

text \<open>The capture \<open>([A-Z][a-zA-Z\s&.\-']+?)\<close> the ten patterns share.\<close>

abbreviation companyGroup :: regex where
  "companyGroup \<equiv>
     Grp (seqs [Cls [CUpper], rlazyPlus (Cls [CLower, CUpper, CSpace, CChar CHR ''&'',
       CChar CHR ''.'', CChar CHR ''-'', CChar CHR 0x27])])"

definition companyPatterns :: "regex list" where
  "companyPatterns = [
    seqs [lit ''thank'', ropt (Chr CHR ''s''), ws1, lit ''for'', ws1, lit ''applying'', ws1,
      alts [lit ''to'', lit ''at'', lit ''with''], ws1, companyGroup, alts [seqs [ws1,
      lit ''for''], seqs [ws1, lit ''as''], seqs [ws1, Chr CHR ''(''], Cls [CChar CHR ''.'',
      CChar CHR '','', CChar CHR ''!''], seqs [ws1, lit ''team''], seqs [ws1, lit ''hr''],
      seqs [ws1, lit ''and''], seqs [ws1, lit ''we''], seqs [ws1, lit ''your''], seqs [ws1,
      lit ''today''], seqs [ws1, lit ''yesterday''], seqs [ws1, lit ''on''], seqs [ws0, Eol]]],
    seqs [lit ''thank'', ws1, lit ''you'', ws1, lit ''for'', ws1, lit ''your'', ws1,
      lit ''interest'', ws1, lit ''in'', ws1, ropt (seqs [lit ''joining'', ws1]), companyGroup,
      alts [seqs [ws1, lit ''as''], seqs [ws1, lit ''for''], seqs [ws1, Chr CHR ''(''],
      Cls [CChar CHR ''.'', CChar CHR '','', CChar CHR ''!''], seqs [ws1, lit ''team''],
      seqs [ws1, lit ''we''], seqs [ws1, lit ''and''], seqs [ws1, lit ''your''], seqs [ws0,
      Eol]]],
    seqs [alts [seqs [lit ''we'', ws1, lit ''at''], seqs [lit ''team'', ws1, lit ''at''],
      seqs [lit ''here'', ws1, lit ''at''], seqs [lit ''from'', ws1, lit ''the'', ws1,
      lit ''team'', ws1, lit ''at'']], ws1, companyGroup, alts [seqs [ws1, lit ''are''],
      seqs [ws1, lit ''have''], seqs [ws1, lit ''would''], seqs [ws1, lit ''want''],
      Cls [CChar CHR ''.'', CChar CHR '','', CChar CHR ''!''], seqs [ws0, Eol]]],
    seqs [lit ''application'', ws1, alts [lit ''to'', lit ''at'', lit ''with''], ws1,
      companyGroup, alts [seqs [ws1, lit ''for''], seqs [ws1, lit ''as''], seqs [ws1,
      lit ''has''], Cls [CChar CHR ''.'', CChar CHR '','', CChar CHR ''!''], seqs [ws1,
      lit ''team''], seqs [ws0, Eol]]],
    seqs [lit ''position'', ws1, alts [lit ''at'', lit ''with''], ws1, companyGroup,
      alts [seqs [ws1, lit ''as''], seqs [ws1, lit ''for''], Cls [CChar CHR ''.'',
      CChar CHR '','', CChar CHR ''!''], seqs [ws1, lit ''team''], seqs [ws0, Eol]]],
    seqs [lit ''role'', ws1, alts [lit ''at'', lit ''with''], ws1, companyGroup,
      alts [seqs [ws1, lit ''as''], seqs [ws1, lit ''for''], Cls [CChar CHR ''.'',
      CChar CHR '','', CChar CHR ''!''], seqs [ws1, lit ''team''], seqs [ws0, Eol]]],
    seqs [companyGroup, alts [seqs [ws1, lit ''Inc'', ropt (Chr CHR ''.'')], seqs [ws1,
      lit ''Corp'', ropt (Chr CHR ''.'')], seqs [ws1, lit ''LLC''], seqs [ws1, lit ''Ltd'',
      ropt (Chr CHR ''.'')], seqs [ws1, lit ''Company''], seqs [ws1, lit ''Co.'']]],
    seqs [lit ''from'', ws1, ropt (seqs [lit ''the'', ws1]), companyGroup, alts [seqs [ws1,
      lit ''team''], seqs [ws1, lit ''hiring''], seqs [ws1, lit ''hr''], seqs [ws1,
      lit ''recruiting''], seqs [ws1, lit ''talent''], Cls [CChar CHR ''.'', CChar CHR '',''],
      seqs [ws0, Eol]]],
    seqs [alts [seqs [lit ''we'', ws1, lit ''are''], seqs [Chr CHR ''i'', ws1, lit ''am'', ws1,
      lit ''with''], seqs [Chr CHR ''i'', ws1, lit ''work'', ws1, lit ''at''],
      seqs [Chr CHR ''i'', ws1, lit ''represent'']], ws1, companyGroup, alts [seqs [ws1,
      lit ''and''], seqs [ws1, lit ''team''], Cls [CChar CHR ''.'', CChar CHR '',''],
      seqs [ws0, Eol]]],
    seqs [lit ''your'', ws1, lit ''application'', ws1, alts [lit ''to'', lit ''at'',
      lit ''with''], ws1, companyGroup, alts [seqs [ws1, lit ''for''], seqs [ws1,
      Chr CHR ''-''], Cls [CChar CHR ''.'', CChar CHR '',''], seqs [ws0, Eol]]]]"

definition genericTerms :: "string list" where
  "genericTerms = [
    ''team'', ''hr'', ''human resources'', ''recruiting'', ''talent'', ''hiring'',
    ''notification'', ''noreply'', ''no reply'', ''automated'', ''system'',
    ''admin'', ''support'', ''customer service'', ''help desk'', ''info'',
    ''sales'', ''marketing'', ''newsletter'', ''updates'', ''alerts'',
    ''jobs'', ''careers'', ''opportunities'', ''positions'', ''roles'',
    ''application'', ''applications'', ''candidate'', ''candidates'',
    ''recruiter'', ''recruiters'', ''staffing'', ''employment'',
    ''department'', ''office'', ''division'', ''group'', ''unit'']"

text \<open>\<open>/[^\w\s&.\-']/g\<close>, \<open>/^[\d\s]+$/\<close> and \<open>/^[A-Za-z]\s*$/\<close>.\<close>

definition companyJunk :: regex where
  "companyJunk =
     NCls [CWord, CSpace, CChar CHR ''&'', CChar CHR ''.'', CChar CHR ''-'', CChar CHR 0x27]"

definition digitsAndSpaces :: regex where
  "digitsAndSpaces = seqs [Bol, rplus (Cls [CDigit, CSpace]), Eol]"

definition singleLetter :: regex where
  "singleLetter = seqs [Bol, Cls [CUpper, CLower], ws0, Eol]"

text \<open>The body of \<open>if (match && match[1])\<close> for the capture \<open>m1\<close>: \<open>None\<close> means that
  the loop goes on to the next pattern.\<close>

definition companyFromCapture :: "string \<Rightarrow> string option" where
  "companyFromCapture m1 =
     (let companyName = trim m1;
          isGeneric = list_ex (\<lambda>term. js_includes (toLowerCase companyName) term \<or>
                                      toLowerCase companyName = term) genericTerms
      in if \<not> isGeneric \<and> 2 \<le> length companyName \<and> length companyName \<le> 50 then
           (let companyName = trim (replaceAll False companyJunk [] companyName) in
            if 2 \<le> length companyName \<and> \<not> js_test False digitsAndSpaces companyName \<and>
               \<not> js_test False singleLetter companyName
            then Some (joinWith '' '' (map titleCaseWord
                         (splitOn (\<lambda>c. c = CHR '' '') [] companyName)))
            else None)
         else None)"

fun companyLoop :: "string \<Rightarrow> regex list \<Rightarrow> string option" where
  "companyLoop fullText [] = None"
| "companyLoop fullText (pattern # rest) =
     (case js_match True pattern fullText of
        Some (Some m1) \<Rightarrow>
          (if m1 = [] then companyLoop fullText rest
           else (case companyFromCapture m1 of
                   Some companyName \<Rightarrow> Some companyName
                 | None \<Rightarrow> companyLoop fullText rest))
      | _ \<Rightarrow> companyLoop fullText rest)"

definition companyFromPatterns :: "string \<Rightarrow> string \<Rightarrow> string option" where
  "companyFromPatterns body subject = companyLoop (subject @ '' '' @ body) companyPatterns"

subsection \<open>Stage 3: the display name of the From header\<close>

text \<open>\<open>/^(.+?)\s*<.*>$/\<close> and \<open>/['"]/g\<close>.\<close>

definition fromNamePattern :: regex where
  "fromNamePattern =
     seqs [Bol, Grp (rlazyPlus Dot), ws0, Chr CHR ''<'', rstar Dot, Chr CHR ''>'', Eol]"

definition quotePattern :: regex where
  "quotePattern = Cls [CChar CHR 0x27, CChar CHR 0x22]"

definition corporateSuffixes :: "string list" where
  "corporateSuffixes = [''Inc'', ''Corp'', ''LLC'', ''Ltd'', ''Company'', ''Co'']"

definition genericSenderTerms :: "string list" where
  "genericSenderTerms = [
    ''noreply'', ''no-reply'', ''donotreply'', ''automated'', ''system'',
    ''notification'', ''notifications'', ''alerts'', ''updates'', ''digest'',
    ''jobs'', ''careers'', ''recruiting'', ''hr'', ''hiring'', ''talent'']"

definition looksLikePersonName :: "string list \<Rightarrow> bool" where
  "looksLikePersonName nameWords =
     (length nameWords = 2 \<and>
      list_all (\<lambda>word. 2 \<le> length word \<and> take 1 word = toUpperCase (take 1 word)) nameWords \<and>
      \<not> list_ex (\<lambda>word. word \<in> set corporateSuffixes) nameWords)"

definition companyFromDisplayName :: "string \<Rightarrow> string option" where
  "companyFromDisplayName from =
     (case js_match False fromNamePattern from of
        Some (Some m1) \<Rightarrow>
          (let fromName = replaceAll False quotePattern [] (trim m1);
               nameWords = splitSpaces [] fromName
           in if \<not> looksLikePersonName nameWords \<and> 2 \<le> length fromName \<and>
                 length fromName \<le> 50 then
                (let isGeneric = list_ex (\<lambda>term. js_includes (toLowerCase fromName) term)
                                   genericSenderTerms
                 in if \<not> isGeneric then Some fromName else None)
              else None)
      | _ \<Rightarrow> None)"

subsection \<open>The extractor\<close>

text \<open>The three stages in order; the first that returns a value decides. The two
  generic-term tables of the source are both named \<open>genericTerms\<close> there; the table of
  stage 3 is \<open>genericSenderTerms\<close> here.\<close>

definition extractCompany :: "string \<Rightarrow> string \<Rightarrow> string \<Rightarrow> string option" where
  "extractCompany from body subject =
     (case companyFromDomain from of
        Some companyName \<Rightarrow> Some companyName
      | None \<Rightarrow>
          (case companyFromPatterns body subject of
             Some companyName \<Rightarrow> Some companyName
           | None \<Rightarrow> companyFromDisplayName from))"

section \<open>Job-title extractor (\<open>extractJobTitle\<close>, scan route)\<close>

text \<open>The capture \<open>([a-zA-Z0-9\s\-\/]+?)\<close> most of the thirteen patterns share.\<close>

abbreviation titleGroup :: regex where
  "titleGroup \<equiv>
     Grp (rlazyPlus (Cls [CLower, CUpper, CDigit, CSpace, CChar CHR ''-'', CChar CHR ''/'']))"

definition titlePatterns :: "regex list" where
  "titlePatterns = [
    seqs [alts [seqs [lit ''applied'', ws1, lit ''for''], seqs [lit ''applying'', ws1,
      lit ''for''], seqs [lit ''application'', ws1, lit ''for'']], ws1,
      ropt (alts [seqs [lit ''the'', ws1], seqs [Chr CHR ''a'', ws1], seqs [lit ''an'', ws1]]),
      titleGroup, alts [seqs [ws1, lit ''position''], seqs [ws1, lit ''role''], seqs [ws1,
      lit ''job''], seqs [ws1, lit ''opening''], seqs [ws1, lit ''at''], seqs [ws1,
      lit ''with''], Cls [CChar CHR ''.'', CChar CHR '',''], seqs [ws0, Eol]]],
    seqs [alts [seqs [lit ''for'', ws1, lit ''the''], seqs [lit ''for'', ws1, Chr CHR ''a''],
      seqs [lit ''for'', ws1, lit ''an''], seqs [lit ''as'', ws1, Chr CHR ''a''],
      seqs [lit ''as'', ws1, lit ''an'']], ws1, titleGroup, alts [seqs [ws1, lit ''position''],
      seqs [ws1, lit ''role''], seqs [ws1, lit ''job''], seqs [ws1, lit ''at''], seqs [ws1,
      lit ''with''], Cls [CChar CHR ''.'', CChar CHR '',''], seqs [ws0, Eol]]],
    seqs [alts [seqs [lit ''position'', ws1, lit ''of''], seqs [lit ''role'', ws1, lit ''of''],
      seqs [lit ''job'', ws1, lit ''of''], seqs [lit ''title'', ws1, lit ''of'']], ws1,
      titleGroup, alts [seqs [ws1, lit ''at''], seqs [ws1, lit ''with''], Cls [CChar CHR ''.'',
      CChar CHR '',''], seqs [ws0, Eol]]],
    seqs [alts [seqs [lit ''interested'', ws1, lit ''in''], lit ''regarding''], ws1,
      ropt (alts [seqs [lit ''the'', ws1], seqs [Chr CHR ''a'', ws1], seqs [lit ''an'', ws1]]),
      titleGroup, alts [seqs [ws1, lit ''position''], seqs [ws1, lit ''role''], seqs [ws1,
      lit ''job''], seqs [ws1, lit ''opening''], seqs [ws1, lit ''opportunity''], seqs [ws1,
      lit ''at''], seqs [ws1, lit ''with''], Cls [CChar CHR ''.'', CChar CHR '',''], seqs [ws0,
      Eol]]],
    seqs [alts [seqs [lit ''opening'', ws1, lit ''for''], seqs [lit ''opportunity'', ws1,
      lit ''for''], seqs [lit ''vacancy'', ws1, lit ''for'']], ws1,
      ropt (alts [seqs [Chr CHR ''a'', ws1], seqs [lit ''an'', ws1], seqs [lit ''the'', ws1]]),
      titleGroup, alts [seqs [ws1, lit ''position''], seqs [ws1, lit ''role''], seqs [ws1,
      lit ''at''], seqs [ws1, lit ''with''], Cls [CChar CHR ''.'', CChar CHR '',''], seqs [ws0,
      Eol]]],
    seqs [Bol, ropt (seqs [lit ''re:'', ws0]), alts [lit ''application'', lit ''apply'',
      lit ''applying'', lit ''interested''], rlazyStar (Dot), ropt (seqs [lit ''for'', ws1,
      ropt (alts [seqs [lit ''the'', ws1], seqs [Chr CHR ''a'', ws1], seqs [lit ''an'',
      ws1]])]), titleGroup, alts [seqs [ws1, lit ''position''], seqs [ws1, lit ''role''],
      seqs [ws1, lit ''job''], seqs [ws1, lit ''at''], seqs [ws1, lit ''with''], seqs [ws1,
      Chr CHR ''-''], Cls [CChar CHR ''.'', CChar CHR '',''], seqs [ws0, Eol]]],
    seqs [lit ''thank'', ropt (Chr CHR ''s''), ws1, lit ''for'', ws1, lit ''applying'', ws1,
      ropt (seqs [lit ''for'', ws1, ropt (alts [seqs [lit ''the'', ws1], seqs [Chr CHR ''a'',
      ws1], seqs [lit ''an'', ws1]])]), titleGroup, alts [seqs [ws1, lit ''position''],
      seqs [ws1, lit ''role''], seqs [ws1, lit ''job''], seqs [ws1, lit ''at''], seqs [ws1,
      lit ''with''], Cls [CChar CHR ''.'', CChar CHR '',''], seqs [ws0, Eol]]],
    seqs [lit ''thank'', ws1, lit ''you'', ws1, lit ''for'', ws1, lit ''your'', ws1,
      lit ''interest'', ws1, lit ''in'', ws1, ropt (alts [seqs [lit ''the'', ws1],
      seqs [Chr CHR ''a'', ws1], seqs [lit ''an'', ws1]]), titleGroup, alts [seqs [ws1,
      lit ''position''], seqs [ws1, lit ''role''], seqs [ws1, lit ''job''], seqs [ws1,
      lit ''at''], seqs [ws1, lit ''with''], Cls [CChar CHR ''.'', CChar CHR '',''], seqs [ws0,
      Eol]]],
    Grp (alts [seqs [lit ''software'', ws1, lit ''engineer''], seqs [lit ''full'',
      ropt (Cls [CSpace, CChar CHR ''-'']), lit ''stack'', ws1, lit ''developer''],
      seqs [lit ''frontend'', ws1, lit ''developer''], seqs [lit ''front'', ropt (Cls [CSpace,
      CChar CHR ''-'']), lit ''end'', ws1, lit ''developer''], seqs [lit ''backend'', ws1,
      lit ''developer''], seqs [lit ''back'', ropt (Cls [CSpace, CChar CHR ''-'']),
      lit ''end'', ws1, lit ''developer''], seqs [lit ''web'', ws1, lit ''developer''],
      seqs [lit ''mobile'', ws1, lit ''developer''], seqs [lit ''ios'', ws1,
      lit ''developer''], seqs [lit ''android'', ws1, lit ''developer''], seqs [lit ''react'',
      ws1, lit ''developer''], seqs [lit ''angular'', ws1, lit ''developer''],
      seqs [lit ''vue'', ws1, lit ''developer''], seqs [lit ''node'', ropt (Chr CHR ''.''),
      lit ''js'', ws1, lit ''developer''], seqs [lit ''python'', ws1, lit ''developer''],
      seqs [lit ''java'', ws1, lit ''developer''], seqs [lit ''.net'', ws1, lit ''developer''],
      seqs [lit ''php'', ws1, lit ''developer''], seqs [lit ''ruby'', ws1, lit ''developer''],
      seqs [lit ''go'', ws1, lit ''developer''], seqs [lit ''rust'', ws1, lit ''developer''],
      seqs [lit ''data'', ws1, lit ''scientist''], seqs [lit ''data'', ws1, lit ''analyst''],
      seqs [lit ''data'', ws1, lit ''engineer''], seqs [lit ''machine'', ws1, lit ''learning'',
      ws1, lit ''engineer''], seqs [lit ''ai'', ws1, lit ''engineer''], seqs [lit ''product'',
      ws1, lit ''manager''], seqs [lit ''project'', ws1, lit ''manager''],
      seqs [lit ''program'', ws1, lit ''manager''], seqs [lit ''scrum'', ws1, lit ''master''],
      seqs [lit ''agile'', ws1, lit ''coach''], seqs [lit ''ui/ux'', ws1, lit ''designer''],
      seqs [lit ''ux'', ws1, lit ''designer''], seqs [lit ''ui'', ws1, lit ''designer''],
      seqs [lit ''graphic'', ws1, lit ''designer''], seqs [lit ''visual'', ws1,
      lit ''designer''], seqs [lit ''interaction'', ws1, lit ''designer''],
      seqs [lit ''product'', ws1, lit ''designer''], seqs [lit ''devops'', ws1,
      lit ''engineer''], seqs [lit ''site'', ws1, lit ''reliability'', ws1, lit ''engineer''],
      seqs [lit ''system'', ws1, lit ''administrator''], seqs [lit ''database'', ws1,
      lit ''administrator''], seqs [lit ''network'', ws1, lit ''administrator''],
      seqs [lit ''cloud'', ws1, lit ''engineer''], seqs [lit ''aws'', ws1, lit ''engineer''],
      seqs [lit ''azure'', ws1, lit ''engineer''], seqs [lit ''gcp'', ws1, lit ''engineer''],
      seqs [lit ''security'', ws1, lit ''engineer''], seqs [lit ''cybersecurity'', ws1,
      lit ''analyst''], seqs [lit ''qa'', ws1, lit ''engineer''], seqs [lit ''test'', ws1,
      lit ''engineer''], seqs [lit ''automation'', ws1, lit ''engineer''],
      seqs [lit ''quality'', ws1, lit ''assurance'', ws1, lit ''engineer''],
      seqs [lit ''business'', ws1, lit ''analyst''], seqs [lit ''systems'', ws1,
      lit ''analyst''], seqs [lit ''financial'', ws1, lit ''analyst''],
      seqs [lit ''marketing'', ws1, lit ''analyst''], seqs [lit ''technical'', ws1,
      lit ''writer''], seqs [lit ''documentation'', ws1, lit ''specialist''],
      seqs [lit ''sales'', ws1, lit ''manager''], seqs [lit ''marketing'', ws1,
      lit ''manager''], seqs [lit ''hr'', ws1, lit ''manager''], seqs [lit ''operations'', ws1,
      lit ''manager''], seqs [lit ''customer'', ws1, lit ''success'', ws1, lit ''manager''],
      seqs [lit ''account'', ws1, lit ''manager''], seqs [lit ''sales'', ws1,
      lit ''representative''], seqs [lit ''business'', ws1, lit ''development''],
      seqs [lit ''software'', ws1, lit ''architect''], seqs [lit ''solutions'', ws1,
      lit ''architect''], seqs [lit ''enterprise'', ws1, lit ''architect''],
      seqs [lit ''technical'', ws1, lit ''architect''], seqs [lit ''cloud'', ws1,
      lit ''architect''], seqs [lit ''security'', ws1, lit ''architect''],
      seqs [lit ''network'', ws1, lit ''engineer''], seqs [lit ''infrastructure'', ws1,
      lit ''engineer''], seqs [lit ''platform'', ws1, lit ''engineer''], seqs [lit ''release'',
      ws1, lit ''engineer''], seqs [lit ''build'', ws1, lit ''engineer'']]),
    Grp (seqs [alts [lit ''senior'', seqs [lit ''sr'', ropt (Chr CHR ''.'')], lit ''junior'',
      seqs [lit ''jr'', ropt (Chr CHR ''.'')], lit ''lead'', lit ''principal'', lit ''staff'',
      seqs [lit ''principal'', ws1, lit ''staff''], lit ''associate'', seqs [lit ''entry'',
      ropt (Cls [CSpace, CChar CHR ''-'']), lit ''level''], seqs [lit ''mid'',
      ropt (Cls [CSpace, CChar CHR ''-'']), lit ''level''], lit ''experienced''], ws1,
      rlazyPlus (Cls [CLower, CUpper, CDigit, CSpace, CChar CHR ''-'', CChar CHR ''/'']),
      alts [lit ''engineer'', lit ''developer'', lit ''programmer'', lit ''analyst'',
      lit ''manager'', lit ''designer'', lit ''architect'', lit ''specialist'',
      lit ''coordinator'', lit ''director'', lit ''consultant'', lit ''advisor'']]),
    seqs [seqs [lit ''for'', ws1, ropt (alts [seqs [lit ''the'', ws1], seqs [Chr CHR ''a'',
      ws1], seqs [lit ''an'', ws1]])], Grp (alts [lit ''engineer'', lit ''developer'',
      lit ''programmer'', lit ''analyst'', lit ''manager'', lit ''designer'',
      lit ''architect'', lit ''specialist'', lit ''coordinator'', lit ''director'',
      lit ''consultant'', lit ''advisor'', lit ''lead'', lit ''supervisor'',
      lit ''executive'']), alts [seqs [ws1, lit ''position''], seqs [ws1, lit ''role''],
      seqs [ws1, lit ''job''], seqs [ws1, lit ''at''], seqs [ws1, lit ''with''],
      Cls [CChar CHR ''.'', CChar CHR '',''], seqs [ws0, Eol]]],
    Grp (seqs [alts [lit ''intern'', lit ''internship'', seqs [lit ''co'', ropt (Cls [CSpace,
      CChar CHR ''-'']), lit ''op''], seqs [lit ''cooperative'', ws1, lit ''education'']], ws1,
      rlazyStar (Dot), alts [lit ''engineer'', lit ''developer'', lit ''analyst'',
      lit ''designer'', lit ''marketing'', lit ''sales'', lit ''hr'', lit ''finance'',
      lit ''operations'', lit ''product'', lit ''data'']]),
    Grp (seqs [alts [lit ''summer'', lit ''winter'', lit ''spring'', lit ''fall''], ws1,
      alts [lit ''intern'', lit ''internship'']])]"

text \<open>\<open>/[^\w\s\-\/\.]/g\<close>, \<open>/^\d+$/\<close> and \<open>/[a-zA-Z]/\<close>.\<close>

definition titleJunk :: regex where
  "titleJunk = NCls [CWord, CSpace, CChar CHR ''-'', CChar CHR ''/'', CChar CHR ''.'']"

definition onlyDigits :: regex where
  "onlyDigits = seqs [Bol, rplus (Cls [CDigit]), Eol]"

definition aLetter :: regex where
  "aLetter = Cls [CLower, CUpper]"

definition excludeTerms :: "string list" where
  "excludeTerms = [
    ''application'', ''position'', ''role'', ''job'', ''opportunity'', ''opening'',
    ''notification'', ''alert'', ''update'', ''digest'', ''newsletter'',
    ''team'', ''company'', ''organization'', ''department'', ''division'',
    ''and'', ''or'', ''the'', ''a'', ''an'', ''of'', ''in'', ''at'', ''for'', ''with'',
    ''email'', ''message'', ''confirmation'', ''response'', ''reply'']"

definition techWords :: "(string \<times> string) list" where
  "techWords = [
    (''ui'', ''UI''), (''ux'', ''UX''), (''api'', ''API''), (''sdk'', ''SDK''), (''ai'', ''AI''),
    (''ml'', ''ML''), (''aws'', ''AWS''), (''gcp'', ''GCP''), (''ios'', ''iOS''),
    (''android'', ''Android''), (''javascript'', ''JavaScript''),
    (''typescript'', ''TypeScript''), (''nodejs'', ''Node.js''), (''reactjs'', ''React.js''),
    (''vuejs'', ''Vue.js''), (''angularjs'', ''Angular.js''), (''devops'', ''DevOps''),
    (''qa'', ''QA''), (''hr'', ''HR''), (''cto'', ''CTO''), (''ceo'', ''CEO''), (''php'', ''PHP''),
    (''sql'', ''SQL''), (''nosql'', ''NoSQL''), (''html'', ''HTML''), (''css'', ''CSS''),
    (''rest'', ''REST''), (''graphql'', ''GraphQL''), (''ci/cd'', ''CI/CD'')]"

text \<open>
  \<open>techWords[lowerWord]\<close> is a property read on a plain object, so the two lower-case
  names every object inherits are found as well; joined into the title, their values
  print as below.
\<close>

definition inheritedProperties :: "(string \<times> string) list" where
  "inheritedProperties = [
    (''constructor'', ''function Object() { [native code] }''),
    (''__proto__'', ''[object Object]'')]"

definition formatTitleWord :: "string \<Rightarrow> string" where
  "formatTitleWord word =
     (let lowerWord = toLowerCase word in
      case map_of (techWords @ inheritedProperties) lowerWord of
        Some t \<Rightarrow> t
      | None \<Rightarrow>
          if CHR ''-'' \<in> set word \<or> CHR ''/'' \<in> set word then
            joinWith (if CHR ''-'' \<in> set word then ''-'' else ''/'')
              (map titleCaseWord (splitOn (\<lambda>c. c = CHR ''-'' \<or> c = CHR ''/'') [] word))
          else titleCaseWord word)"

text \<open>The body of \<open>if (match && match[1])\<close>; \<open>None\<close> means that the loop goes on.\<close>

definition titleFromCapture :: "string \<Rightarrow> string option" where
  "titleFromCapture m1 =
     (let title = trim (replaceAll False titleJunk [] (trim m1));
          isValidTitle =
            (3 \<le> length title \<and> length title \<le> 80 \<and>
             toLowerCase title \<notin> set excludeTerms \<and>
             \<not> js_test False onlyDigits title \<and>
             js_test False aLetter title \<and>
             \<not> js_includes (toLowerCase title) ''thank'' \<and>
             \<not> js_includes (toLowerCase title) ''application received'')
      in if isValidTitle
         then Some (joinWith '' '' (map formatTitleWord (splitSpaces [] title)))
         else None)"

fun titleLoop :: "string \<Rightarrow> regex list \<Rightarrow> string option" where
  "titleLoop fullText [] = None"
| "titleLoop fullText (pattern # rest) =
     (case js_match True pattern fullText of
        Some (Some m1) \<Rightarrow>
          (if m1 = [] then titleLoop fullText rest
           else (case titleFromCapture m1 of
                   Some title \<Rightarrow> Some title
                 | None \<Rightarrow> titleLoop fullText rest))
      | _ \<Rightarrow> titleLoop fullText rest)"

definition extractJobTitle :: "string \<Rightarrow> string \<Rightarrow> string option" where
  "extractJobTitle content subject = titleLoop (subject @ '' '' @ content) titlePatterns"

section \<open>Hybrid classifier (\<open>determineStatusWithAI\<close> and the AI service)\<close>

text \<open>What a call of a collaborator does: it throws, or it returns a value.\<close>

datatype 'a outcome = Throws thrown | Returns 'a

record EmailData =
  ed_subject :: string
  ed_from :: string
  ed_content :: string

record EmailAnalysisResult =
  ai_status :: status
  ai_company :: "string option"
  ai_jobTitle :: "string option"
  ai_confidence :: real
  ai_reasoning :: "string option"

subsection \<open>\<open>AIEmailAnalysisService\<close>\<close>

text \<open>The value \<open>JSON.parse\<close> returns.\<close>

datatype json =
    JNull | JBool bool | JNum real | JStr string | JArr "json list" | JObj "(string \<times> json) list"

text \<open>
  The service's collaborators: \<open>generateContent\<close> is the request to the hosted model
  for the prompt built from the email (it returns the response text or throws), and
  \<open>jsonParse\<close> is \<open>JSON.parse\<close> (it returns the parsed value or throws a syntax error).
\<close>

record aiBackend =
  isInitialized :: bool
  generateContent :: "EmailData \<Rightarrow> string outcome"
  jsonParse :: "string \<Rightarrow> json outcome"

text \<open>\<open>/\{[\s\S]*\}/\<close>: from the first opening brace to the last closing one.\<close>

definition jsonBlock :: regex where
  "jsonBlock = seqs [Chr CHR ''{'', rstar (NCls []), Chr CHR ''}'']"

text \<open>The matched text \<open>match[0]\<close> of \<open>jsonBlock\<close>.\<close>

definition jsonMatch :: "string \<Rightarrow> string option" where
  "jsonMatch s =
     (case search False jsonBlock True [] s of
        None \<Rightarrow> None
      | Some (pre, start, m) \<Rightarrow> Some (take (length start - length (fst (snd m))) start))"

definition statusOfName :: "string \<Rightarrow> status option" where
  "statusOfName s = map_of (map (\<lambda>st. (statusName st, st))
                      [Applied, Interviewing, Offered, Rejected, Ghosted]) s"

text \<open>\<open>x === null || typeof x === 'string'\<close>.\<close>

fun nullOrString :: "json \<Rightarrow> bool" where
  "nullOrString JNull = True"
| "nullOrString (JStr x) = True"
| "nullOrString _ = False"

fun stringOf :: "json \<Rightarrow> string option" where
  "stringOf (JStr x) = Some x"
| "stringOf _ = None"

text \<open>\<open>isValidAnalysisResult\<close>, returning the typed result when the object is valid: the
  status is one of the five names, company and job title are \<open>null\<close> or strings, and
  the confidence is a number between 0 and 1.\<close>

definition validAnalysisResult :: "json \<Rightarrow> EmailAnalysisResult option" where
  "validAnalysisResult obj =
     (case obj of
        JObj props \<Rightarrow>
          (case (map_of props ''status'', map_of props ''company'',
                 map_of props ''jobTitle'', map_of props ''confidence'') of
             (Some (JStr s), Some company, Some jobTitle, Some (JNum c)) \<Rightarrow>
               (case statusOfName s of
                  Some st \<Rightarrow>
                    if nullOrString company \<and> nullOrString jobTitle \<and> 0 \<le> c \<and> c \<le> 1
                    then Some \<lparr>ai_status = st,
                               ai_company = stringOf company,
                               ai_jobTitle = stringOf jobTitle,
                               ai_confidence = c,
                               ai_reasoning = (case map_of props ''reasoning'' of
                                                 Some j \<Rightarrow> stringOf j | None \<Rightarrow> None)\<rparr>
                    else None
                | None \<Rightarrow> None)
           | _ \<Rightarrow> None)
      | _ \<Rightarrow> None)"

text \<open>\<open>parseAIResponse\<close>: its \<open>try/catch\<close> turns a syntax error into \<open>null\<close>.\<close>

definition parseAIResponse :: "aiBackend \<Rightarrow> string \<Rightarrow> EmailAnalysisResult option" where
  "parseAIResponse backend response =
     (let cleanResponse = trim response;
          cleanResponse = (case jsonMatch cleanResponse of Some j \<Rightarrow> j | None \<Rightarrow> cleanResponse)
      in case jsonParse backend cleanResponse of
           Throws err \<Rightarrow> None
         | Returns parsed \<Rightarrow> validAnalysisResult parsed)"

text \<open>\<open>analyzeEmail\<close>: \<open>null\<close> when the service is not initialised, and its \<open>try/catch\<close>
  turns every exception of the request into \<open>null\<close>.\<close>

definition analyzeEmail :: "aiBackend \<Rightarrow> EmailData \<Rightarrow> EmailAnalysisResult option outcome" where
  "analyzeEmail backend emailData =
     (if \<not> isInitialized backend then Returns None
      else (case generateContent backend emailData of
              Throws err \<Rightarrow> Returns None
            | Returns text \<Rightarrow> Returns (parseAIResponse backend text)))"

subsection \<open>\<open>determineStatusWithAI\<close>\<close>

text \<open>The service as the scan route sees it: \<open>isAvailable()\<close> and \<open>analyzeEmail\<close>, a
  call that throws or returns a result or \<open>null\<close>.\<close>

record aiService =
  isAvailable :: bool
  analyze :: "EmailData \<Rightarrow> EmailAnalysisResult option outcome"

definition aiEmailAnalysisService :: "aiBackend \<Rightarrow> aiService" where
  "aiEmailAnalysisService backend =
     \<lparr>isAvailable = isInitialized backend, analyze = analyzeEmail backend\<rparr>"

record StatusResult =
  r_status :: status
  r_company :: "string option"
  r_jobTitle :: "string option"
  r_confidence :: real
  r_method :: analysisMethod

text \<open>The fallback after the \<open>try/catch\<close>: the three heuristics and their confidence.\<close>

definition regexFallbackResult :: "string \<Rightarrow> string \<Rightarrow> string \<Rightarrow> StatusResult" where
  "regexFallbackResult content subject from =
     (let regexStatus = determineStatus content;
          regexCompany = extractCompany from content subject;
          regexJobTitle = extractJobTitle content subject;
          c0 = (0.3 :: real);
          c1 = (if truthy regexCompany \<and> regexCompany \<noteq> Some ''Unknown Company''
                then c0 + 0.2 else c0);
          c2 = (if truthy regexJobTitle \<and> regexJobTitle \<noteq> Some ''Unknown Position''
                then c1 + 0.2 else c1);
          c3 = (if regexStatus = Rejected \<or> regexStatus = Offered then c2 + 0.2 else c2)
      in \<lparr>r_status = regexStatus, r_company = regexCompany, r_jobTitle = regexJobTitle,
          r_confidence = min c3 0.9, r_method = Regex\<rparr>)"

text \<open>
  The \<open>try\<close> block: the result the function returns from inside it (\<open>Returns (Some r)\<close>),
  falling through to the fallback (\<open>Returns None\<close>), or the exception of the service.
\<close>

definition tryAi :: "aiService \<Rightarrow> string \<Rightarrow> string \<Rightarrow> string \<Rightarrow> StatusResult option outcome" where
  "tryAi svc content subject from =
     (case analyze svc \<lparr>ed_subject = subject, ed_from = from, ed_content = content\<rparr> of
        Throws err \<Rightarrow> Throws err
      | Returns None \<Rightarrow> Returns None
      | Returns (Some aiResult) \<Rightarrow>
          if ai_confidence aiResult \<ge> 0.2
          then Returns (Some \<lparr>r_status = ai_status aiResult, r_company = ai_company aiResult,
                              r_jobTitle = ai_jobTitle aiResult,
                              r_confidence = ai_confidence aiResult, r_method = Ai\<rparr>)
          else Returns None)"

text \<open>\<open>determineStatusWithAI\<close>: the \<open>catch\<close> clause swallows the exception and the
  function goes on to the fallback.\<close>

definition determineStatusWithAI ::
  "aiService \<Rightarrow> string \<Rightarrow> string \<Rightarrow> string \<Rightarrow> StatusResult outcome" where
  "determineStatusWithAI svc content subject from =
     (let attempt = (if isAvailable svc
                     then (case tryAi svc content subject from of
                             Throws err \<Rightarrow> None
                           | Returns r \<Rightarrow> r)
                     else None)
      in case attempt of
           Some aiResult \<Rightarrow> Returns aiResult
         | None \<Rightarrow> Returns (regexFallbackResult content subject from))"

section \<open>The scan of one message (\<open>POST\<close>, scan route)\<close>

subsection \<open>The body of a message\<close>

text \<open>
  A fetched message with its header values (\<open>''\<close> when a header is absent) and the
  decoded contents of its payload: the data of the payload's own body when it has
  any, and otherwise the data of its \<open>text/plain\<close> and \<open>text/html\<close> parts.
\<close>

record message =
  msg_id :: string
  msg_threadId :: string
  msg_subject :: string
  msg_from :: string
  msg_date :: string
  msg_bodyData :: "string option"
  msg_parts :: "(string option \<times> string option) option"

definition messageBody :: "message \<Rightarrow> string" where
  "messageBody m =
     (let body =
        (if truthy (msg_bodyData m) then cleanHtmlContent (orEmpty (msg_bodyData m))
         else (case msg_parts m of
                 None \<Rightarrow> []
               | Some (textPart, htmlPart) \<Rightarrow>
                   if truthy textPart then orEmpty textPart
                   else if truthy htmlPart then cleanHtmlContent (orEmpty htmlPart)
                   else []))
      in if js_includes body ''@import'' \<or> js_includes body ''font-family'' \<or>
            js_includes body ''-webkit-''
         then cleanHtmlContent body else body)"

subsection \<open>Confidence\<close>

text \<open>\<open>/[a-z]+[A-Z]/\<close>.\<close>

definition camelCase :: regex where
  "camelCase = seqs [rplus (Cls [CLower]), Cls [CUpper]]"

text \<open>The test "looks like a personal email".\<close>

definition looksPersonal :: "string \<Rightarrow> bool" where
  "looksPersonal from =
     (js_includes from ''@'' \<and> \<not> js_includes from ''noreply'' \<and> \<not> js_includes from ''no-reply'' \<and>
      (case splitOn (\<lambda>c. c = CHR ''@'') [] from of
         [] \<Rightarrow> False
       | part0 # parts \<Rightarrow>
           part0 \<noteq> [] \<and> (js_includes part0 ''.'' \<or> js_test False camelCase part0)))"

text \<open>The adjustments of the confidence, in the order of the source, and the cap.\<close>

definition adjustConfidence ::
  "real \<Rightarrow> string option \<Rightarrow> string option \<Rightarrow> string \<Rightarrow> string \<Rightarrow> string \<Rightarrow> real" where
  "adjustConfidence confidence company jobTitle subject content from =
     (let c1 = (if truthy company \<and> company \<noteq> Some ''Unknown Company'' \<and>
                   2 < length (orEmpty company) \<and>
                   \<not> js_includes (toLowerCase (orEmpty company)) ''team''
                then confidence + 0.1 else confidence);
          c2 = (if truthy jobTitle \<and> jobTitle \<noteq> Some ''Unknown Position''
                then c1 + 0.1 else c1);
          subjectLower = toLowerCase subject;
          c3 = (if js_includes subjectLower ''application'' \<and> js_includes subjectLower ''received''
                  then c2 + 0.1
                else if js_includes subjectLower ''interview'' \<or> js_includes subjectLower ''schedule''
                  then c2 + 0.15
                else if js_includes subjectLower ''offer'' \<or>
                        js_includes subjectLower ''congratulations''
                  then c2 + 0.2
                else c2);
          contentLower = toLowerCase content;
          c4 = (if js_includes contentLower ''newsletter'' \<or> js_includes contentLower ''digest'' \<or>
                   js_includes contentLower ''marketing'' \<or>
                   js_includes contentLower ''promotional'' \<or>
                   js_includes contentLower ''unsubscribe'' \<or>
                   js_includes contentLower ''you may be interested''
                then c3 - 0.3 else c3);
          c5 = (if looksPersonal from then c4 + 0.1 else c4)
      in min c5 0.95)"

subsection \<open>One message\<close>

record JobApplication =
  app_messageId :: string
  app_threadId :: string
  app_company :: string
  app_jobTitle :: string
  app_status :: status
  app_confidence :: real
  app_date :: string
  app_emailSubject :: string
  app_emailFrom :: string
  app_analysisMethod :: analysisMethod

text \<open>\<open>a || b\<close> for two optional strings.\<close>

definition orOption :: "string option \<Rightarrow> string option \<Rightarrow> string option" where
  "orOption a b = (if truthy a then a else b)"

text \<open>
  The classification of one message from its subject, sender and body: \<open>None\<close> when the
  message is not job related or its confidence is below 0.2, otherwise the record that
  is pushed onto \<open>jobApplications\<close>. An exception would leave the loop body through its
  \<open>catch\<close>, which skips the message.
\<close>

definition classifyMessage :: "aiService \<Rightarrow> message \<Rightarrow> string \<Rightarrow> JobApplication option" where
  "classifyMessage svc m body =
     (let subject = msg_subject m;
          from = msg_from m;
          content = toLowerCase (subject @ '' '' @ body)
      in if isJobRelatedEmail content from subject then
           (case determineStatusWithAI svc content subject from of
              Throws err \<Rightarrow> None
            | Returns analysisResult \<Rightarrow>
                (let company = orOption (r_company analysisResult)
                                 (extractCompany from body subject);
                     jobTitle = orOption (r_jobTitle analysisResult)
                                  (extractJobTitle content subject);
                     confidence = adjustConfidence (r_confidence analysisResult) company jobTitle
                                    subject content from
                 in if confidence \<ge> 0.2
                    then Some \<lparr>app_messageId = msg_id m, app_threadId = msg_threadId m,
                               app_company = orElse company ''Unknown Company'',
                               app_jobTitle = orElse jobTitle ''Unknown Position'',
                               app_status = r_status analysisResult,
                               app_confidence = confidence,
                               app_date = msg_date m,
                               app_emailSubject = subject,
                               app_emailFrom = from,
                               app_analysisMethod = r_method analysisResult\<rparr>
                    else None))
         else None)"

definition scanMessage :: "aiService \<Rightarrow> message \<Rightarrow> JobApplication option" where
  "scanMessage svc m = classifyMessage svc m (messageBody m)"

text \<open>The loop over the fetched messages: the list \<open>jobApplications\<close> of the response.\<close>

definition scanMessages :: "aiService \<Rightarrow> message list \<Rightarrow> JobApplication list" where
  "scanMessages svc ms = List.map_filter (scanMessage svc) ms"

section \<open>Batch recategorization (\<open>job-recategorization-service.ts\<close>)\<close>

text \<open>The stored job record, as the interface \<open>JobData\<close> declares it. An element of
  the snapshot is the object \<open>{ id: jobDoc.id, ...jobDoc.data() }\<close> the loop builds.\<close>

datatype storedMethod = StoredAi | StoredRegex | StoredManual

record JobData =
  jobId :: string
  companyName :: string
  jobTitle :: string
  status :: status
  emailSubject :: "string option"
  emailFrom :: "string option"
  confidence :: "real option"
  lastAnalyzed :: "string option"
  analysisMethod :: "storedMethod option"

definition rejectionIndicators_job :: "string list" where
  "rejectionIndicators_job = [
    ''we regret to inform'', ''sorry to inform'', ''we are unable to'',
    ''moving forward with other candidates'', ''decided to pursue other candidates'',
    ''not a match at this time'', ''not the right fit'', ''unfortunately'',
    ''position has been filled'', ''we have chosen other candidates'', ''decided not to fill'',
    ''thank you for your interest, however'', ''wish you the best'']"

definition offerIndicators_job :: "string list" where
  "offerIndicators_job = [
    ''pleased to offer'', ''happy to offer'', ''job offer'', ''offer you the position'',
    ''congratulations'', ''you have been selected'', ''welcome to the team'', ''offer letter'',
    ''compensation package'', ''start date'']"

definition interviewIndicators_job :: "string list" where
  "interviewIndicators_job = [
    ''interview'', ''phone screen'', ''video call'', ''schedule a call'', ''technical screen'',
    ''coding challenge'', ''next round'', ''meet with'', ''next step'']"

definition appliedIndicators_job :: "string list" where
  "appliedIndicators_job = [
    ''application received'', ''thank you for applying'', ''received your application'',
    ''under review'', ''will review'', ''will be in touch'']"

record PatternResult =
  p_status :: status
  p_company :: "string option"
  p_jobTitle :: "string option"
  p_confidence :: real
  p_reasoning :: string

definition analyzeJobWithPatterns :: "JobData \<Rightarrow> PatternResult" where
  "analyzeJobWithPatterns job =
     (let combinedText = toLowerCase (orEmpty (emailSubject job));
          found = (\<lambda>indicators. list_ex (\<lambda>indicator. js_includes combinedText indicator) indicators);
          (newStatus, confidence, reasoning) =
            (if found rejectionIndicators_job
               then (Rejected, 0.8, ''Strong rejection language detected in email content'')
             else if found offerIndicators_job
               then (Offered, 0.9, ''Offer language detected in email content'')
             else if found interviewIndicators_job
               then (Interviewing, 0.7, ''Interview-related language detected in email content'')
             else if found appliedIndicators_job
               then (Applied, 0.6, ''Application confirmation language detected'')
             else (status job, 0.3, ''Status maintained based on existing classification''))
      in \<lparr>p_status = newStatus, p_company = Some (companyName job),
          p_jobTitle = Some (jobTitle job), p_confidence = confidence,
          p_reasoning = reasoning\<rparr>)"

record JobAnalysis =
  newStatus :: status
  newCompany :: "string option"
  newJobTitle :: "string option"
  a_confidence :: real
  a_method :: analysisMethod
  a_reasoning :: "string option"

text \<open>The calls a run makes, in order: the observable effects of the service. A call of
  \<open>updateDoc\<close> carries the update object, a list of field names with their new values in
  the order the fields are assigned.\<close>

datatype fieldValue = VStr string | VNum real

type_synonym update = "(string \<times> fieldValue) list"

datatype call =
    CallAnalyzeJobWithAI string
  | CallAnalyzeJobWithPatterns string
  | CallUpdateDoc string update

text \<open>\<open>analyzeJobWithAI\<close> returns its result together with the calls it made.\<close>

definition analyzeJobWithAI :: "JobData \<Rightarrow> JobAnalysis \<times> call list" where
  "analyzeJobWithAI job =
     (if \<not> truthy (emailSubject job) \<and> \<not> truthy (emailFrom job) then
        (\<lparr>newStatus = status job, newCompany = Some (companyName job),
          newJobTitle = Some (jobTitle job), a_confidence = 0.1,
          a_method = InsufficientData,
          a_reasoning = Some ''No email data available for analysis''\<rparr>, [])
      else
        (let enhancedStatus = analyzeJobWithPatterns job in
         (\<lparr>newStatus = p_status enhancedStatus,
           newCompany = Some (orElse (p_company enhancedStatus) (companyName job)),
           newJobTitle = Some (orElse (p_jobTitle enhancedStatus) (jobTitle job)),
           a_confidence = p_confidence enhancedStatus,
           a_method = Regex,
           a_reasoning = Some (p_reasoning enhancedStatus)\<rparr>,
          [CallAnalyzeJobWithPatterns (jobId job)])))"

record StatusChange =
  change_from :: string
  change_to :: string
  change_company :: string
  change_jobTitle :: string

text \<open>\<open>RecategorizationResult\<close>; the counters of its \<open>analysisDetails\<close> object are
  fields of the same record here.\<close>

record RecategorizationResult =
  totalJobs :: nat
  analyzedJobs :: nat
  updatedJobs :: nat
  errors :: "string list"
  aiAnalyzed :: nat
  regexFallback :: nat
  skipped :: nat
  statusChanges :: "StatusChange list"

text \<open>
  The collaborators of a run: the persistence layer (\<open>getDocs\<close> on the owner's query,
  \<open>updateDoc\<close> by record id, each of which may throw) and the clock. \<open>dateNow k\<close> is the
  clock's k-th reading in milliseconds (\<open>Date.now()\<close> and \<open>new Date()\<close>), \<open>dateParse\<close>
  is \<open>new Date(s).getTime()\<close> with \<open>None\<close> for an invalid date (\<open>NaN\<close>), and
  \<open>toISOString\<close> formats a reading.
\<close>

record collaborators =
  getDocs :: "string \<Rightarrow> thrown + JobData list"
  updateDoc :: "string \<Rightarrow> update \<Rightarrow> thrown option"
  dateNow :: "nat \<Rightarrow> int"
  dateParse :: "string \<Rightarrow> int option"
  toISOString :: "int \<Rightarrow> string"

datatype mode = Analyze | Update

record runState =
  result :: RecategorizationResult
  clockReads :: nat
  calls :: "call list"

definition daysSinceAnalysis :: "int \<Rightarrow> int \<Rightarrow> real" where
  "daysSinceAnalysis now lastAnalyzedTime =
     real_of_int (now - lastAnalyzedTime) / (1000 * 60 * 60 * 24)"

definition pushStatusChange :: "JobData \<Rightarrow> JobAnalysis \<Rightarrow> runState \<Rightarrow> runState" where
  "pushStatusChange jobData analysis st =
     st\<lparr>result := (result st)\<lparr>statusChanges := statusChanges (result st) @
        [\<lparr>change_from = statusName (status jobData),
          change_to = statusName (newStatus analysis),
          change_company = companyName jobData,
          change_jobTitle = jobTitle jobData\<rparr>]\<rparr>\<rparr>"

text \<open>The update object of one record, in the order its fields are assigned.\<close>

definition buildUpdates ::
  "string \<Rightarrow> JobAnalysis \<Rightarrow> bool \<Rightarrow> bool \<Rightarrow> bool \<Rightarrow> update" where
  "buildUpdates isoNow analysis statusChanged companyChanged titleChanged =
     [(''lastAnalyzed'', VStr isoNow),
      (''analysisMethod'', VStr (methodName (a_method analysis))),
      (''confidence'', VNum (a_confidence analysis))]
     @ (if statusChanged then [(''status'', VStr (statusName (newStatus analysis)))] else [])
     @ (if companyChanged then [(''companyName'', VStr (orEmpty (newCompany analysis)))] else [])
     @ (if titleChanged then [(''jobTitle'', VStr (orEmpty (newJobTitle analysis)))] else [])
     @ (if truthy (a_reasoning analysis)
        then [(''analysisReasoning'', VStr (orEmpty (a_reasoning analysis)))] else [])"

text \<open>The block "Track analysis method" of the loop body.\<close>

definition trackMethod :: "analysisMethod \<Rightarrow> runState \<Rightarrow> runState" where
  "trackMethod m st =
     (if m = Ai
        then st\<lparr>result := (result st)\<lparr>aiAnalyzed := aiAnalyzed (result st) + 1\<rparr>\<rparr>
      else if m = Regex
        then st\<lparr>result := (result st)\<lparr>regexFallback := regexFallback (result st) + 1\<rparr>\<rparr>
      else st\<lparr>result := (result st)\<lparr>skipped := skipped (result st) + 1\<rparr>\<rparr>)"

text \<open>The branch \<open>mode === 'update'\<close>: the update object is built, the status change is
  recorded, and \<open>updateDoc\<close> is called. An exception of \<open>updateDoc\<close> is caught by the
  loop body's \<open>try/catch\<close> and recorded in \<open>errors\<close>; the loop goes on.\<close>

definition applyUpdate ::
  "collaborators \<Rightarrow> JobData \<Rightarrow> JobAnalysis \<Rightarrow> bool \<Rightarrow> bool \<Rightarrow> bool \<Rightarrow> runState \<Rightarrow> runState"
  where
  "applyUpdate e jobData analysis statusChanged companyChanged titleChanged st =
     (let updates = buildUpdates (toISOString e (dateNow e (clockReads st))) analysis
                      statusChanged companyChanged titleChanged;
          st3 = st\<lparr>clockReads := clockReads st + 1\<rparr>;
          st4 = (if statusChanged then pushStatusChange jobData analysis st3 else st3);
          st5 = st4\<lparr>calls := calls st4 @ [CallUpdateDoc (jobId jobData) updates]\<rparr>
      in case updateDoc e (jobId jobData) updates of
           None \<Rightarrow> st5\<lparr>result := (result st5)\<lparr>updatedJobs := updatedJobs (result st5) + 1\<rparr>\<rparr>
         | Some err \<Rightarrow>
             st5\<lparr>result := (result st5)\<lparr>errors := errors (result st5) @
               [''Failed to process job '' @ jobId jobData @ '': '' @
                (case err of ErrorObject m \<Rightarrow> m | OtherValue \<Rightarrow> ''Unknown error'')]\<rparr>\<rparr>)"

text \<open>The part of the loop body after the staleness check: the analysis, the counters,
  and the decision whether anything changed.\<close>

definition analyzeAndUpdate :: "collaborators \<Rightarrow> mode \<Rightarrow> JobData \<Rightarrow> runState \<Rightarrow> runState" where
  "analyzeAndUpdate e mode jobData st =
     (let (analysis, inner) = analyzeJobWithAI jobData;
          st1 = st\<lparr>result := (result st)\<lparr>analyzedJobs := analyzedJobs (result st) + 1\<rparr>,
                    calls := calls st @ [CallAnalyzeJobWithAI (jobId jobData)] @ inner\<rparr>;
          st2 = trackMethod (a_method analysis) st1;
          statusChanged = (newStatus analysis \<noteq> status jobData);
          companyChanged = (truthy (newCompany analysis) \<and>
                            newCompany analysis \<noteq> Some (companyName jobData));
          titleChanged = (truthy (newJobTitle analysis) \<and>
                          newJobTitle analysis \<noteq> Some (jobTitle jobData))
      in if statusChanged \<or> companyChanged \<or> titleChanged then
           (if mode = Update
              then applyUpdate e jobData analysis statusChanged companyChanged titleChanged st2
            else (if statusChanged then pushStatusChange jobData analysis st2 else st2))
         else st2)"

text \<open>The loop body: the staleness check \<open>!forceUpdate && jobData.lastAnalyzed\<close>, then
  \<open>daysSinceAnalysis < 7\<close> (false when the date is invalid), then the analysis.\<close>

definition processJob ::
  "collaborators \<Rightarrow> mode \<Rightarrow> bool \<Rightarrow> JobData \<Rightarrow> runState \<Rightarrow> runState" where
  "processJob e mode forceUpdate jobData st =
     (if \<not> forceUpdate \<and> truthy (lastAnalyzed jobData) then
        (let st1 = st\<lparr>clockReads := clockReads st + 1\<rparr> in
         if (case dateParse e (orEmpty (lastAnalyzed jobData)) of
               None \<Rightarrow> False
             | Some t \<Rightarrow> daysSinceAnalysis (dateNow e (clockReads st)) t < 7)
         then st1\<lparr>result := (result st1)\<lparr>skipped := skipped (result st1) + 1\<rparr>\<rparr>
         else analyzeAndUpdate e mode jobData st1)
      else analyzeAndUpdate e mode jobData st)"

fun processJobs ::
  "collaborators \<Rightarrow> mode \<Rightarrow> bool \<Rightarrow> JobData list \<Rightarrow> runState \<Rightarrow> runState" where
  "processJobs e mode forceUpdate [] st = st"
| "processJobs e mode forceUpdate (jobData # rest) st =
     processJobs e mode forceUpdate rest (processJob e mode forceUpdate jobData st)"

definition initialResult :: "nat \<Rightarrow> RecategorizationResult" where
  "initialResult n =
     \<lparr>totalJobs = n, analyzedJobs = 0, updatedJobs = 0, errors = [], aiAnalyzed = 0,
      regexFallback = 0, skipped = 0, statusChanges = []\<rparr>"

text \<open>\<open>runRecategorization\<close>: an exception of \<open>getDocs\<close> is rethrown (\<open>Inl\<close>); otherwise
  the run returns its result, here together with the calls made.\<close>

definition runRecategorization ::
  "collaborators \<Rightarrow> string \<Rightarrow> mode \<Rightarrow> bool \<Rightarrow> thrown + runState" where
  "runRecategorization e userId mode forceUpdate =
     (case getDocs e userId of
        Inl err \<Rightarrow> Inl err
      | Inr docs \<Rightarrow>
          if docs = [] then Inr \<lparr>result = initialResult 0, clockReads = 0, calls = []\<rparr>
          else Inr (processJobs e mode forceUpdate docs
                 \<lparr>result = initialResult (length docs), clockReads = 0, calls = []\<rparr>))"

text \<open>The update calls of a run, in order: record id and update object.\<close>

fun updateOf :: "call \<Rightarrow> (string \<times> update) list" where
  "updateOf (CallUpdateDoc rid u) = [(rid, u)]"
| "updateOf _ = []"

definition issuedUpdates :: "thrown + runState \<Rightarrow> (string \<times> update) list" where
  "issuedUpdates r = (case r of Inl _ \<Rightarrow> [] | Inr st \<Rightarrow> concat (map updateOf (calls st)))"

text \<open>The six fields the specification names for an update.\<close>

definition namedFields :: "string list" where
  "namedFields = [''status'', ''companyName'', ''jobTitle'', ''lastAnalyzed'',
                  ''analysisMethod'', ''confidence'']"

text \<open>A stored record and collaborators for the concrete runs below: the record was
  analysed on 2024-01-01, the clock reads 2024-01-03 (two days later), and every
  write succeeds.\<close>

definition demoJob :: JobData where
  "demoJob =
     \<lparr>jobId = ''job-1'', companyName = ''Acme'', jobTitle = ''Engineer'', status = Applied,
      emailSubject = Some ''Unfortunately, the position has been filled'',
      emailFrom = Some ''hr@acme.com'', confidence = None,
      lastAnalyzed = Some ''2024-01-01T00:00:00.000Z'', analysisMethod = None\<rparr>"

definition demoCollaborators :: collaborators where
  "demoCollaborators =
     \<lparr>getDocs = (\<lambda>userId. Inr [demoJob]),
      updateDoc = (\<lambda>rid u. None),
      dateNow = (\<lambda>k. 1704240000000),
      dateParse = (\<lambda>s. if s = ''2024-01-01T00:00:00.000Z'' then Some 1704067200000 else None),
      toISOString = (\<lambda>t. ''2024-01-03T00:00:00.000Z'')\<rparr>"

definition demoState :: runState where
  "demoState = \<lparr>result = initialResult 1, clockReads = 0, calls = []\<rparr>"

text \<open>An update is acceptable when its fields are among the six named ones and
  \<open>analysisReasoning\<close>, each assigned once.\<close>

fun updateOk :: "call \<Rightarrow> bool" where
  "updateOk (CallUpdateDoc rid u) =
     (set (map fst u) \<subseteq> set (namedFields @ [''analysisReasoning'']) \<and> distinct (map fst u))"
| "updateOk _ = True"

text \<open>The same record without a subject and with an empty sender.\<close>

definition demoBareJob :: JobData where
  "demoBareJob = demoJob\<lparr>emailSubject := None, emailFrom := Some ''''\<rparr>"

text \<open>The run as a loop over the snapshot, from the counters set to zero.\<close>

definition startState :: "JobData list \<Rightarrow> runState" where
  "startState docs = \<lparr>result = initialResult (length docs), clockReads = 0, calls = []\<rparr>"

text \<open>The record a call is made for.\<close>

fun callId :: "call \<Rightarrow> string" where
  "callId (CallAnalyzeJobWithAI rid) = rid"
| "callId (CallAnalyzeJobWithPatterns rid) = rid"
| "callId (CallUpdateDoc rid u) = rid"

text \<open>The calls the loop body makes for a record that it analyses: the analysis, the
  pattern path inside it, and in update mode the write when the analysis differs from
  the stored record.\<close>

definition analysisCalls :: "collaborators \<Rightarrow> mode \<Rightarrow> JobData \<Rightarrow> runState \<Rightarrow> call list" where
  "analysisCalls e mode j st =
     CallAnalyzeJobWithAI (jobId j) # snd (analyzeJobWithAI j) @
     (let a = fst (analyzeJobWithAI j);
          sc = (newStatus a \<noteq> status j);
          cc = (truthy (newCompany a) \<and> newCompany a \<noteq> Some (companyName j));
          tc = (truthy (newJobTitle a) \<and> newJobTitle a \<noteq> Some (jobTitle j))
      in if (sc \<or> cc \<or> tc) \<and> mode = Update
         then [CallUpdateDoc (jobId j)
                 (buildUpdates (toISOString e (dateNow e (clockReads st))) a sc cc tc)]
         else [])"

section \<open>Facts about strings\<close>

lemma js_includes_iff: "js_includes s p \<longleftrightarrow> (\<exists>a b. s = a @ p @ b)"
proof (induction s)
  case Nil
  then show ?case by auto
next
  case (Cons c cs)
  show ?case
  proof
    assume "js_includes (c # cs) p"
    then consider "prefix p (c # cs)" | "js_includes cs p" by auto
    then show "\<exists>a b. c # cs = a @ p @ b"
    proof cases
      case 1
      then obtain b where "c # cs = p @ b" by (auto simp: prefix_def)
      then have "c # cs = [] @ p @ b" by simp
      then show ?thesis by blast
    next
      case 2
      with Cons.IH obtain a b where "cs = a @ p @ b" by blast
      then have "c # cs = (c # a) @ p @ b" by simp
      then show ?thesis by blast
    qed
  next
    assume "\<exists>a b. c # cs = a @ p @ b"
    then obtain a b where ab: "c # cs = a @ p @ b" by blast
    show "js_includes (c # cs) p"
    proof (cases a)
      case Nil
      with ab have "prefix p (c # cs)" by (simp add: prefix_def)
      then show ?thesis by simp
    next
      case (Cons x a')
      with ab have "cs = a' @ p @ b" by simp
      with Cons.IH have "js_includes cs p" by blast
      then show ?thesis by simp
    qed
  qed
qed

lemma js_includes_map:
  assumes "js_includes s p"
  shows "js_includes (map f s) (map f p)"
proof -
  from assms obtain a b where "s = a @ p @ b" by (auto simp: js_includes_iff)
  then have "map f s = map f a @ map f p @ map f b" by simp
  then show ?thesis unfolding js_includes_iff by blast
qed

lemma js_includes_toLowerCase:
  assumes "js_includes s p" and "toLowerCase p = p"
  shows "js_includes (toLowerCase s) p"
  using js_includes_map [OF assms(1), of lowerChar] assms(2)
  by (simp add: toLowerCase_def)

lemma indicatorLoop_iff:
  "indicatorLoop c ps \<longleftrightarrow> (\<exists>p \<in> set ps. js_includes c p)"
  by (induction ps) auto

section \<open>Facts about the matcher\<close>

text \<open>
  The states a quantifier loop can end in are related to its start state by every
  reflexive and transitive relation that the body's matcher respects.
\<close>

lemma repeat_rel:
  assumes refl: "\<And>s. R s s"
    and trans: "\<And>s t u. R s t \<Longrightarrow> R t u \<Longrightarrow> R s u"
    and f: "\<And>s s'. s' \<in> set (f s) \<Longrightarrow> R s s'"
  shows "st' \<in> set (repeat f g mn mx fuel st) \<Longrightarrow> R st st'"
proof (induction fuel arbitrary: mn mx st)
  case 0
  then show ?case by (auto simp: refl split: if_splits)
next
  case (Suc fuel)
  show ?case
  proof (cases "mx = Some 0")
    case True
    with Suc.prems show ?thesis by (simp add: refl)
  next
    case False
    let ?again = "concat (map (repeat f g (mn - 1) (map_option (\<lambda>k. k - 1) mx) fuel)
                       (filter (\<lambda>st'. 0 < mn \<or> length (fst (snd st')) < length (fst (snd st)))
                          (f st)))"
    from Suc.prems False have "st' \<in> set ?again \<or> st' = st"
      by (auto simp: Let_def split: if_splits)
    then show ?thesis
    proof
      assume "st' \<in> set ?again"
      then obtain s where s: "s \<in> set (f st)"
        and st': "st' \<in> set (repeat f g (mn - 1) (map_option (\<lambda>k. k - 1) mx) fuel s)"
        by auto
      from f [OF s] Suc.IH [OF st'] show ?thesis by (rule trans)
    next
      assume "st' = st"
      then show ?thesis by (simp add: refl)
    qed
  qed
qed

lemma step_suffix: "st' \<in> set (step ok st) \<Longrightarrow> suffix (fst (snd st')) (fst (snd st))"
  by (cases "(ok, st)" rule: step.cases) (auto simp: suffix_def split: if_splits)

lemma run_suffix: "st' \<in> set (run ic r st) \<Longrightarrow> suffix (fst (snd st')) (fst (snd st))"
proof (induction r arbitrary: st st')
  case (Seq r1 r2)
  then obtain s where "s \<in> set (run ic r1 st)" "st' \<in> set (run ic r2 s)" by auto
  with Seq.IH show ?case by (blast intro: suffix_order.trans)
next
  case (Rep g mn mx r)
  from Rep.prems have "st' \<in> set (repeat (\<lambda>s. run ic r s) g mn mx (length (fst (snd st)) + mn) st)"
    by simp
  then show ?case
    by (rule repeat_rel [where R = "\<lambda>s t. suffix (fst (snd t)) (fst (snd s))", rotated 3])
       (auto intro: suffix_order.trans Rep.IH)
next
  case (Grp r)
  then obtain s where "s \<in> set (run ic r st)" "fst (snd st') = fst (snd s)" by auto
  with Grp.IH [of s st] show ?case by simp
qed (auto dest: step_suffix split: if_splits)


lemma upperChar_cases:
  "(isLower d \<and> isUpper (upperChar d)) \<or> (\<not> isLower d \<and> upperChar d = d)"
  by (simp add: upperChar_def caseTable_def isLower_def isUpper_def)

lemma lowerChar_cases:
  "(isUpper d \<and> isLower (lowerChar d)) \<or> (\<not> isUpper d \<and> lowerChar d = d)"
  by (simp add: lowerChar_def caseTable_def isLower_def isUpper_def)

lemma chrMatch_symbol:
  assumes "\<not> isUpper c" "\<not> isLower c"
  shows "chrMatch ic c d \<longleftrightarrow> d = c"
  using assms upperChar_cases [of c] upperChar_cases [of d]
  by (auto simp: chrMatch_def)

fun mustHit :: "char list \<Rightarrow> regex \<Rightarrow> bool" where
  "mustHit T (Chr c) = (c \<in> set T \<and> \<not> isUpper c \<and> \<not> isLower c)"
| "mustHit T (Seq r1 r2) = (mustHit T r1 \<or> mustHit T r2)"
| "mustHit T (Alt r1 r2) = (mustHit T r1 \<and> mustHit T r2)"
| "mustHit T (Rep g mn mx r) = (0 < mn \<and> mx \<noteq> Some 0 \<and> mustHit T r)"
| "mustHit T (Grp r) = mustHit T r"
| "mustHit T r = False"

lemma run_mustHit:
  "mustHit T r \<Longrightarrow> set T \<inter> set (fst (snd st)) = {} \<Longrightarrow> run ic r st = []"
proof (induction r arbitrary: st)
  case (Chr c)
  then show ?case
    by (cases "(chrMatch ic c, st)" rule: step.cases) (auto simp: chrMatch_symbol)
next
  case (Seq r1 r2)
  show ?case
  proof (cases "mustHit T r1")
    case True
    with Seq show ?thesis by simp
  next
    case False
    with Seq.prems have m2: "mustHit T r2" by simp
    have "run ic r2 s = []" if "s \<in> set (run ic r1 st)" for s
    proof -
      from run_suffix [OF that] have "set (fst (snd s)) \<subseteq> set (fst (snd st))"
        by (auto simp: suffix_def)
      with Seq.prems(2) have "set T \<inter> set (fst (snd s)) = {}" by blast
      with Seq.IH(2) m2 show ?thesis by blast
    qed
    then show ?thesis by simp
  qed
next
  case (Rep g mn mx r)
  then have "run ic r st = []" and mn: "0 < mn" and mx: "mx \<noteq> Some 0" by simp_all
  moreover obtain k where "length (fst (snd st)) + mn = Suc k" using mn by (cases mn) auto
  ultimately show ?case by (simp add: Let_def)
qed simp_all

lemma search_mustHit:
  "mustHit T r \<Longrightarrow> set T \<inter> set s = {} \<Longrightarrow> search ic r b pre s = None"
proof (induction s arbitrary: b pre)
  case Nil
  then show ?case by (simp add: run_mustHit)
next
  case (Cons c cs)
  from Cons.prems have "run ic r (b, c # cs, None) = []" by (intro run_mustHit) auto
  moreover from Cons have "search ic r False (pre @ [c]) cs = None" by auto
  ultimately show ?case by simp
qed

lemma replaceFrom_none: "search ic r b [] s = None \<Longrightarrow> replaceFrom ic r rep b s = s"
  by (simp add: replaceFrom.simps)

lemma replaceAll_mustHit:
  "mustHit T r \<Longrightarrow> set T \<inter> set s = {} \<Longrightarrow> replaceAll ic r rep s = s"
  by (simp add: replaceAll_def replaceFrom_none search_mustHit)


fun consumesOnly :: "bool \<Rightarrow> (char \<Rightarrow> bool) \<Rightarrow> regex \<Rightarrow> bool" where
  "consumesOnly ic P (Chr c) = (\<forall>d. chrMatch ic c d \<longrightarrow> P d)"
| "consumesOnly ic P (Cls items) = (\<forall>d. clsMatch ic items d \<longrightarrow> P d)"
| "consumesOnly ic P (NCls items) = (\<forall>d. \<not> clsMatch ic items d \<longrightarrow> P d)"
| "consumesOnly ic P Dot = (\<forall>d. dotMatch d \<longrightarrow> P d)"
| "consumesOnly ic P (Seq r1 r2) = (consumesOnly ic P r1 \<and> consumesOnly ic P r2)"
| "consumesOnly ic P (Alt r1 r2) = (consumesOnly ic P r1 \<and> consumesOnly ic P r2)"
| "consumesOnly ic P (Rep g mn mx r) = consumesOnly ic P r"
| "consumesOnly ic P (Grp r) = consumesOnly ic P r"
| "consumesOnly ic P r = True"

definition eats :: "(char \<Rightarrow> bool) \<Rightarrow> mstate \<Rightarrow> mstate \<Rightarrow> bool" where
  "eats P st st' = (\<exists>w. fst (snd st) = w @ fst (snd st') \<and> list_all P w)"

lemma eats_refl: "eats P st st"
  by (simp add: eats_def)

lemma eats_trans: "eats P s t \<Longrightarrow> eats P t u \<Longrightarrow> eats P s u"
  unfolding eats_def by (metis append.assoc list_all_append)

lemma step_eats: "(\<forall>d. ok d \<longrightarrow> P d) \<Longrightarrow> st' \<in> set (step ok st) \<Longrightarrow> eats P st st'"
  by (cases "(ok, st)" rule: step.cases) (auto simp: eats_def split: if_splits)

lemma run_eats:
  "consumesOnly ic P r \<Longrightarrow> st' \<in> set (run ic r st) \<Longrightarrow> eats P st st'"
proof (induction r arbitrary: st st')
  case (Seq r1 r2)
  then obtain s where s1: "s \<in> set (run ic r1 st)" and s2: "st' \<in> set (run ic r2 s)"
    by auto
  from Seq.prems(1) have c1: "consumesOnly ic P r1" and c2: "consumesOnly ic P r2"
    by simp_all
  from Seq.IH(1) [OF c1 s1] Seq.IH(2) [OF c2 s2] show ?case by (rule eats_trans)
next
  case (Rep g mn mx r)
  from Rep.prems have "st' \<in> set (repeat (\<lambda>s. run ic r s) g mn mx (length (fst (snd st)) + mn) st)"
    by simp
  note mem = this
  from Rep.prems(1) have c: "consumesOnly ic P r" by simp
  have f: "eats P s s'" if "s' \<in> set (run ic r s)" for s s'
    using Rep.IH [OF c that] .
  show ?case
    by (rule repeat_rel [where R = "eats P", OF eats_refl eats_trans f mem])
next
  case (Grp r)
  then obtain s where "s \<in> set (run ic r st)" "fst (snd st') = fst (snd s)" by auto
  with Grp.IH [of s st] Grp.prems(1) show ?case by (simp add: eats_def)
next
  case (Chr c)
  then have "\<forall>d. chrMatch ic c d \<longrightarrow> P d" "st' \<in> set (step (chrMatch ic c) st)"
    by simp_all
  then show ?case by (rule step_eats)
next
  case (Cls items)
  then have "\<forall>d. clsMatch ic items d \<longrightarrow> P d" "st' \<in> set (step (clsMatch ic items) st)"
    by simp_all
  then show ?case by (rule step_eats)
next
  case (NCls items)
  then have "\<forall>d. \<not> clsMatch ic items d \<longrightarrow> P d"
    "st' \<in> set (step (\<lambda>d. \<not> clsMatch ic items d) st)"
    by simp_all
  then show ?case by (rule step_eats)
next
  case Dot
  then have "\<forall>d. dotMatch d \<longrightarrow> P d" "st' \<in> set (step dotMatch st)"
    by simp_all
  then show ?case by (rule step_eats)
next
  case Bol
  then show ?case by (simp add: eats_refl split: if_splits)
next
  case Eol
  then show ?case by (simp add: eats_refl split: if_splits)
next
  case Eps
  then show ?case by (simp add: eats_refl)
next
  case (Alt r1 r2)
  from Alt.prems have "st' \<in> set (run ic r1 st) \<or> st' \<in> set (run ic r2 st)" by simp
  with Alt.IH(1) [of st' st] Alt.IH(2) [of st' st] Alt.prems(1) show ?case by auto
qed

fun captureOnly :: "bool \<Rightarrow> (char \<Rightarrow> bool) \<Rightarrow> regex \<Rightarrow> bool" where
  "captureOnly ic P (Grp r) = consumesOnly ic P r"
| "captureOnly ic P (Seq r1 r2) = (captureOnly ic P r1 \<and> captureOnly ic P r2)"
| "captureOnly ic P (Alt r1 r2) = (captureOnly ic P r1 \<and> captureOnly ic P r2)"
| "captureOnly ic P (Rep g mn mx r) = captureOnly ic P r"
| "captureOnly ic P r = True"

definition capOk :: "(char \<Rightarrow> bool) \<Rightarrow> mstate \<Rightarrow> bool" where
  "capOk P st = (case snd (snd st) of None \<Rightarrow> True | Some w \<Rightarrow> list_all P w)"

lemma step_cap: "st' \<in> set (step ok st) \<Longrightarrow> snd (snd st') = snd (snd st)"
  by (cases "(ok, st)" rule: step.cases) (auto split: if_splits)

lemma run_capture:
  "captureOnly ic P r \<Longrightarrow> st' \<in> set (run ic r st) \<Longrightarrow> capOk P st \<Longrightarrow> capOk P st'"
proof (induction r arbitrary: st st')
  case (Seq r1 r2)
  then obtain s where s1: "s \<in> set (run ic r1 st)" and s2: "st' \<in> set (run ic r2 s)"
    by auto
  from Seq.prems(1) have c1: "captureOnly ic P r1" and c2: "captureOnly ic P r2"
    by simp_all
  from Seq.IH(1) [OF c1 s1 Seq.prems(3)] have "capOk P s" .
  from Seq.IH(2) [OF c2 s2 this] show ?case .
next
  case (Rep g mn mx r)
  from Rep.prems have "st' \<in> set (repeat (\<lambda>s. run ic r s) g mn mx (length (fst (snd st)) + mn) st)"
    by simp
  note mem = this
  from Rep.prems(1) have c: "captureOnly ic P r" by simp
  have f: "capOk P s \<longrightarrow> capOk P s'" if "s' \<in> set (run ic r s)" for s s'
    using Rep.IH [OF c that] by blast
  have "capOk P st \<longrightarrow> capOk P st'"
    by (rule repeat_rel [where R = "\<lambda>s t. capOk P s \<longrightarrow> capOk P t", OF _ _ f mem]) blast+
  with Rep.prems show ?case by simp
next
  case (Grp r)
  then obtain s where s: "s \<in> set (run ic r st)"
    and st': "st' = (fst s, fst (snd s),
        Some (take (length (fst (snd st)) - length (fst (snd s))) (fst (snd st))))"
    by auto
  from Grp.prems(1) have "consumesOnly ic P r" by simp
  from run_eats [OF this s] obtain w where "fst (snd st) = w @ fst (snd s)" "list_all P w"
    by (auto simp: eats_def)
  with st' show ?case by (simp add: capOk_def)
next
  case (Alt r1 r2)
  from Alt.prems have "st' \<in> set (run ic r1 st) \<or> st' \<in> set (run ic r2 st)" by simp
  with Alt.IH(1) [of st' st] Alt.IH(2) [of st' st] Alt.prems(1,3) show ?case by auto
qed (auto simp: capOk_def dest: step_cap split: if_splits)

lemma search_run:
  "search ic r b pre s = Some (pre', start, m) \<Longrightarrow> \<exists>b'. m \<in> set (run ic r (b', start, None))"
proof (induction s arbitrary: pre b)
  case Nil
  then obtain ms where "run ic r (b, [], None) = m # ms" "start = []"
    by (auto split: list.splits)
  then have "m \<in> set (run ic r (b, start, None))" by simp
  then show ?case ..
next
  case (Cons c cs)
  show ?case
  proof (cases "run ic r (b, c # cs, None)")
    case Nil
    with Cons.prems have "search ic r False (pre @ [c]) cs = Some (pre', start, m)" by simp
    from Cons.IH [OF this] show ?thesis .
  next
    case (Cons m' ms)
    with Cons.prems have "m = m'" "start = c # cs" by simp_all
    with Cons have "m \<in> set (run ic r (b, start, None))" by simp
    then show ?thesis ..
  qed
qed

lemma js_match_capture:
  assumes "captureOnly ic P r" and "js_match ic r s = Some (Some w)"
  shows "list_all P w"
proof -
  from assms(2) obtain pre start m where sr: "search ic r True [] s = Some (pre, start, m)"
    and w: "snd (snd m) = Some w"
    by (auto simp: js_match_def split: option.splits)
  from search_run [OF sr] obtain b' where "m \<in> set (run ic r (b', start, None))" ..
  from run_capture [OF assms(1) this] have "capOk P m" by (simp add: capOk_def)
  with w show ?thesis by (simp add: capOk_def)
qed

lemma repeat_step_greedy:
  "length rs \<le> fuel \<Longrightarrow>
   repeat (step ok) True 0 None fuel (b, rs, cap) \<noteq> [] \<and>
   hd (repeat (step ok) True 0 None fuel (b, rs, cap)) =
     (if rs \<noteq> [] \<and> ok (hd rs) then (False, dropWhile ok rs, cap) else (b, rs, cap))"
proof (induction fuel arbitrary: b rs)
  case 0
  then show ?case by simp
next
  case (Suc fuel)
  show ?case
  proof (cases rs)
    case Nil
    then show ?thesis by simp
  next
    case (Cons d ds)
    show ?thesis
    proof (cases "ok d")
      case False
      with Cons show ?thesis by simp
    next
      case True
      from Suc.prems Cons have "length ds \<le> fuel" by simp
      from Suc.IH [OF this, where b = False]
      have ne: "repeat (step ok) True 0 None fuel (False, ds, cap) \<noteq> []"
        and h: "hd (repeat (step ok) True 0 None fuel (False, ds, cap)) =
          (if ds \<noteq> [] \<and> ok (hd ds) then (False, dropWhile ok ds, cap) else (False, ds, cap))"
        by simp_all
      have dw: "(if ds \<noteq> [] \<and> ok (hd ds) then (False, dropWhile ok ds, cap) else (False, ds, cap))
          = (False, dropWhile ok ds, cap)"
        by (cases ds) auto
      from Cons True ne h dw show ?thesis by (simp add: Let_def)
    qed
  qed
qed

lemma run_plus_class:
  "run ic (rplus (Cls items)) (b, rs, cap) \<noteq> [] \<longleftrightarrow> rs \<noteq> [] \<and> clsMatch ic items (hd rs)"
  "rs \<noteq> [] \<Longrightarrow> clsMatch ic items (hd rs) \<Longrightarrow>
     hd (run ic (rplus (Cls items)) (b, rs, cap)) = (False, dropWhile (clsMatch ic items) rs, cap)"
proof -
  have eta: "(\<lambda>st'. run ic (Cls items) st') = step (clsMatch ic items)" by (rule ext) simp
  show "run ic (rplus (Cls items)) (b, rs, cap) \<noteq> [] \<longleftrightarrow> rs \<noteq> [] \<and> clsMatch ic items (hd rs)"
  proof (cases rs)
    case Nil
    then show ?thesis by (simp add: rplus_def eta Let_def)
  next
    case (Cons d ds)
    with repeat_step_greedy [where rs = ds and fuel = "length ds + 1" and ok = "clsMatch ic items" and b = False and cap = cap]
    show ?thesis by (simp add: rplus_def eta Let_def)
  qed
  show "hd (run ic (rplus (Cls items)) (b, rs, cap)) = (False, dropWhile (clsMatch ic items) rs, cap)"
    if "rs \<noteq> []" "clsMatch ic items (hd rs)"
  proof -
    from that obtain d ds where rs: "rs = d # ds" and d: "clsMatch ic items d" by (cases rs) auto
    have dw: "(if ds \<noteq> [] \<and> clsMatch ic items (hd ds) then (False, dropWhile (clsMatch ic items) ds, cap)
        else (False, ds, cap)) = (False, dropWhile (clsMatch ic items) ds, cap)"
      by (cases ds) auto
    from repeat_step_greedy [where rs = ds and fuel = "length ds + 1" and ok = "clsMatch ic items" and b = False and cap = cap] rs d dw
    show ?thesis by (simp add: rplus_def eta Let_def)
  qed
qed

lemma search_plus_class:
  "search ic (rplus (Cls items)) b pre s =
     (case dropWhile (\<lambda>c. \<not> clsMatch ic items c) s of
        [] \<Rightarrow> None
      | d # ds \<Rightarrow> Some (pre @ takeWhile (\<lambda>c. \<not> clsMatch ic items c) s, d # ds,
                     (False, dropWhile (clsMatch ic items) (d # ds), None)))"
proof (induction s arbitrary: b pre)
  case Nil
  with run_plus_class(1) [where ic = ic and items = items and b = b and rs = "[]" and cap = None] show ?case by simp
next
  case (Cons c cs)
  show ?case
  proof (cases "clsMatch ic items c")
    case True
    with run_plus_class [where ic = ic and items = items and b = b and rs = "c # cs" and cap = None]
    obtain m ms where "run ic (rplus (Cls items)) (b, c # cs, None) = m # ms"
      "m = (False, dropWhile (clsMatch ic items) (c # cs), None)"
      by (cases "run ic (rplus (Cls items)) (b, c # cs, None)") auto
    with True show ?thesis by simp
  next
    case False
    with run_plus_class(1) [where ic = ic and items = items and b = b and rs = "c # cs" and cap = None]
    have "run ic (rplus (Cls items)) (b, c # cs, None) = []" by simp
    then have st: "search ic (rplus (Cls items)) b pre (c # cs) =
        search ic (rplus (Cls items)) False (pre @ [c]) cs" by simp
    from False have dw: "dropWhile (\<lambda>c. \<not> clsMatch ic items c) (c # cs) =
        dropWhile (\<lambda>c. \<not> clsMatch ic items c) cs" by simp
    from False have tw: "takeWhile (\<lambda>c. \<not> clsMatch ic items c) (c # cs) =
        c # takeWhile (\<lambda>c. \<not> clsMatch ic items c) cs" by simp
    show ?thesis unfolding st dw tw Cons.IH
      by (cases "dropWhile (\<lambda>c. \<not> clsMatch ic items c) cs")
         (simp_all del: dropWhile_eq_Nil_conv)
  qed
qed

lemma replaceFrom_plus_class:
  "replaceFrom ic (rplus (Cls items)) rep b s =
     (case dropWhile (\<lambda>c. \<not> clsMatch ic items c) s of
        [] \<Rightarrow> s
      | d # ds \<Rightarrow> takeWhile (\<lambda>c. \<not> clsMatch ic items c) s @ rep @
                 replaceFrom ic (rplus (Cls items)) rep False (dropWhile (clsMatch ic items) ds))"
proof (cases "dropWhile (\<lambda>c. \<not> clsMatch ic items c) s")
  case Nil
  have "search ic (rplus (Cls items)) b [] s = None"
    unfolding search_plus_class Nil by simp
  then show ?thesis unfolding Nil by (simp add: replaceFrom_none)
next
  case (Cons d ds)
  then have d: "clsMatch ic items d"
    using hd_dropWhile [of "\<lambda>c. \<not> clsMatch ic items c" s] by auto
  have le: "length (dropWhile (clsMatch ic items) ds) \<le> length ds"
    by (rule length_dropWhile_le)
  have sr: "search ic (rplus (Cls items)) b [] s =
      Some (takeWhile (\<lambda>c. \<not> clsMatch ic items c) s, d # ds,
            (False, dropWhile (clsMatch ic items) ds, None))"
    unfolding search_plus_class Cons using d by simp
  show ?thesis unfolding Cons
    by (subst replaceFrom.simps) (simp add: sr le less_Suc_eq_le)
qed

section \<open>Facts about white space\<close>

text \<open>
  A text is in white-space normal form when its only white-space character is the
  space and no two spaces are adjacent. Replacing every match of \<open>\s+\<close> by one space
  produces such a text and leaves such a text unchanged.
\<close>

fun wsNormal :: "string \<Rightarrow> bool" where
  "wsNormal [] = True"
| "wsNormal [c] = (isSpace c \<longrightarrow> c = CHR '' '')"
| "wsNormal (c # d # s) = ((isSpace c \<longrightarrow> c = CHR '' '' \<and> \<not> isSpace d) \<and> wsNormal (d # s))"

definition noLead :: "string \<Rightarrow> bool" where
  "noLead s = (case s of [] \<Rightarrow> True | c # cs \<Rightarrow> \<not> isSpace c)"

lemma clsMatch_space: "clsMatch ic [CSpace] = isSpace"
  by (rule ext) (simp add: clsMatch_def)

lemma isSpace_space: "isSpace CHR '' ''"
  by (simp add: isSpace_def)

lemma wsNormal_tl: "wsNormal (x # xs) \<Longrightarrow> wsNormal xs"
  by (cases xs) simp_all

lemma wsNormal_suffix: "wsNormal (a @ b) \<Longrightarrow> wsNormal b"
  by (induction a) (auto dest: wsNormal_tl)

lemma wsNormal_prefix: "wsNormal (a @ b) \<Longrightarrow> wsNormal a"
proof (induction a rule: wsNormal.induct)
  case 1
  then show ?case by simp
next
  case (2 c)
  then show ?case by (cases b) simp_all
next
  case (3 c d s)
  then show ?case by simp
qed

lemma wsNormal_space: "wsNormal s \<Longrightarrow> c \<in> set s \<Longrightarrow> isSpace c \<Longrightarrow> c = CHR '' ''"
  by (induction s rule: wsNormal.induct) auto

lemma wsNormal_no_space: "\<forall>c \<in> set s. \<not> isSpace c \<Longrightarrow> wsNormal s"
  by (induction s rule: wsNormal.induct) auto

lemma wsNormal_join:
  "\<forall>c \<in> set t. \<not> isSpace c \<Longrightarrow> wsNormal r \<Longrightarrow> noLead r \<Longrightarrow> wsNormal (t @ CHR '' '' # r)"
proof (induction t)
  case Nil
  then show ?case by (cases r) (simp_all add: noLead_def)
next
  case (Cons x t)
  then have "wsNormal (t @ CHR '' '' # r)" by simp
  moreover obtain y ys where "t @ CHR '' '' # r = y # ys" by (cases t) auto
  ultimately show ?case using Cons.prems(1) by simp
qed

lemma noLead_dropWhile: "noLead (dropWhile isSpace s)"
  by (induction s) (simp_all add: noLead_def)

abbreviation collapseFrom :: "bool \<Rightarrow> string \<Rightarrow> string" where
  "collapseFrom b s \<equiv> replaceFrom False ws1 '' '' b s"

lemma collapse_unfold:
  "collapseFrom b s =
     (case dropWhile (\<lambda>c. \<not> isSpace c) s of
        [] \<Rightarrow> s
      | d # ds \<Rightarrow> takeWhile (\<lambda>c. \<not> isSpace c) s @ '' '' @ collapseFrom False (dropWhile isSpace ds))"
  using replaceFrom_plus_class [where ic = False and items = "[CSpace]" and rep = "'' ''"
      and b = b and s = s]
  unfolding clsMatch_space .

lemma collapse_normal:
  "wsNormal (collapseFrom b s) \<and> (noLead s \<longrightarrow> noLead (collapseFrom b s))"
proof (induction s arbitrary: b rule: length_induct)
  case (1 s)
  show ?case
  proof (cases "dropWhile (\<lambda>c. \<not> isSpace c) s")
    case Nil
    then have "\<forall>c \<in> set s. \<not> isSpace c" by (simp add: dropWhile_eq_Nil_conv)
    then have "wsNormal s" by (rule wsNormal_no_space)
    moreover have "collapseFrom b s = s" by (subst collapse_unfold) (simp only: Nil list.case)
    ultimately show ?thesis by simp
  next
    case (Cons d ds)
    let ?t = "takeWhile (\<lambda>c. \<not> isSpace c) s"
    let ?r = "collapseFrom False (dropWhile isSpace ds)"
    have eq: "collapseFrom b s = ?t @ CHR '' '' # ?r"
      by (subst collapse_unfold) (simp only: Cons list.case append_Cons append_Nil)
    have split: "s = ?t @ d # ds" using Cons takeWhile_dropWhile_id [of "\<lambda>c. \<not> isSpace c" s]
      by simp
    then have "length (dropWhile isSpace ds) < length s"
      using length_dropWhile_le [of isSpace ds]
      by (metis length_append length_Cons less_Suc_eq_le trans_le_add2 le_imp_less_Suc
          add_Suc_right)
    with 1 have ih: "wsNormal ?r" "noLead (dropWhile isSpace ds) \<longrightarrow> noLead ?r" by blast+
    with noLead_dropWhile have "noLead ?r" by blast
    moreover have "\<forall>c \<in> set ?t. \<not> isSpace c" by (auto dest: set_takeWhileD)
    ultimately have n: "wsNormal (?t @ CHR '' '' # ?r)" using ih(1) by (intro wsNormal_join)
    have "noLead (?t @ CHR '' '' # ?r)" if "noLead s"
    proof (cases s)
      case Nil
      with split show ?thesis by simp
    next
      case (Cons x xs)
      with that have "\<not> isSpace x" by (simp add: noLead_def)
      with Cons have "?t = x # takeWhile (\<lambda>c. \<not> isSpace c) xs" by simp
      with \<open>\<not> isSpace x\<close> show ?thesis by (simp add: noLead_def)
    qed
    with n eq show ?thesis by simp
  qed
qed

lemma collapse_id: "wsNormal s \<Longrightarrow> collapseFrom b s = s"
proof (induction s arbitrary: b rule: length_induct)
  case (1 s)
  show ?case
  proof (cases "dropWhile (\<lambda>c. \<not> isSpace c) s")
    case Nil
    show ?thesis by (subst collapse_unfold) (simp only: Nil list.case)
  next
    case (Cons d ds)
    let ?t = "takeWhile (\<lambda>c. \<not> isSpace c) s"
    have eq: "collapseFrom b s = ?t @ CHR '' '' # collapseFrom False (dropWhile isSpace ds)"
      by (subst collapse_unfold) (simp only: Cons list.case append_Cons append_Nil)
    have split: "s = ?t @ d # ds" using Cons takeWhile_dropWhile_id [of "\<lambda>c. \<not> isSpace c" s]
      by simp
    from Cons have d: "isSpace d" using hd_dropWhile [of "\<lambda>c. \<not> isSpace c" s] by auto
    from 1(2) split have w: "wsNormal (d # ds)" by (metis wsNormal_suffix)
    with d have d': "d = CHR '' ''" and nl: "noLead ds" and wds: "wsNormal ds"
      by (cases ds; simp add: noLead_def)+
    from nl have dw: "dropWhile isSpace ds = ds" by (cases ds) (simp_all add: noLead_def)
    from split have "length ds < length s"
      by (metis length_append length_Cons less_Suc_eq_le trans_le_add2 le_imp_less_Suc
          add_Suc_right order_refl)
    with 1(1) wds have "collapseFrom False ds = ds" by blast
    with eq dw d' split show ?thesis by simp
  qed
qed

lemma rev_dropWhile_rev:
  "rev (dropWhile P (rev u)) = take (length u - length (takeWhile P (rev u))) u"
  by (simp add: dropWhile_eq_drop rev_drop)

lemma trim_take_drop: "\<exists>i j. trim s = take i (drop j s)"
proof -
  have "dropWhile isSpace s = drop (length (takeWhile isSpace s)) s"
    by (rule dropWhile_eq_drop)
  then show ?thesis unfolding trim_def rev_dropWhile_rev by metis
qed

lemma wsNormal_take_drop: "wsNormal s \<Longrightarrow> wsNormal (take i (drop j s))"
  by (metis append_take_drop_id wsNormal_prefix wsNormal_suffix)

lemma wsNormal_trim: "wsNormal s \<Longrightarrow> wsNormal (trim s)"
  using trim_take_drop [of s] wsNormal_take_drop by metis

lemma set_trim: "set (trim s) \<subseteq> set s"
  using trim_take_drop [of s] by (metis set_drop_subset set_take_subset subset_trans)

lemma dropWhile_noLead: "noLead s \<Longrightarrow> dropWhile isSpace s = s"
  by (cases s) (simp_all add: noLead_def)

lemma noLead_rev_trim: "noLead (dropWhile isSpace (rev u))"
  by (rule noLead_dropWhile)

lemma trim_idem: "trim (trim s) = trim s"
proof -
  let ?u = "dropWhile isSpace s"
  let ?v = "dropWhile isSpace (rev ?u)"
  have t: "trim s = rev ?v" by (simp add: trim_def)
  have nv: "noLead ?v" by (rule noLead_dropWhile)
  have "noLead (rev ?v)"
  proof (cases "rev ?v")
    case Nil
    show ?thesis unfolding noLead_def Nil by simp
  next
    case (Cons x xs)
    define n where "n = length ?u - length (takeWhile isSpace (rev ?u))"
    have "rev ?v = take n ?u"
      unfolding n_def by (rule rev_dropWhile_rev)
    with Cons have tk: "take n ?u = x # xs" by simp
    then obtain us where u: "?u = x # us" by (cases ?u; cases n) auto
    then have "\<not> isSpace x" using hd_dropWhile [of isSpace s] by auto
    then show ?thesis unfolding noLead_def Cons by simp
  qed
  then have "dropWhile isSpace (rev ?v) = rev ?v" by (rule dropWhile_noLead)
  moreover from nv have "dropWhile isSpace ?v = ?v" by (rule dropWhile_noLead)
  ultimately show ?thesis by (simp add: trim_def)
qed

section \<open>Properties of the status classifier and the noise filter\<close>

lemma lowercase_phrases:
  "toLowerCase ''unfortunately'' = ''unfortunately''"
  "toLowerCase ''thank you for applying'' = ''thank you for applying''"
  "toLowerCase ''thanks for applying'' = ''thanks for applying''"
  "toLowerCase ''application received'' = ''application received''"
  "toLowerCase ''we have received your application'' = ''we have received your application''"
  "toLowerCase ''your application has been received'' = ''your application has been received''"
  "toLowerCase ''thank you for your interest'' = ''thank you for your interest''"
  "toLowerCase ''application'' = ''application''"
  "toLowerCase ''position'' = ''position''"
  "toLowerCase ''role'' = ''role''"
  by (simp_all add: toLowerCase_def lowerChar_def caseTable_def)

lemma unfortunately_listed: "''unfortunately'' \<in> set rejectionIndicators"
  by (simp add: rejectionIndicators_def)

text \<open>
  C2. \<open>determineStatus\<close> checks the four indicator tables in the order rejected, offered,
  interviewing, applied on the lower-cased content: the first table with a phrase that
  occurs as a substring decides, the result is \<open>applied\<close> when no table matches, and
  \<open>ghosted\<close> is never returned. A content holding both "unfortunately" and
  "schedule a call" is classified \<open>rejected\<close>.
\<close>

theorem determineStatus_priority:
  "determineStatus content =
     (if (\<exists>p \<in> set rejectionIndicators. js_includes (toLowerCase content) p) then Rejected
      else if (\<exists>p \<in> set offerIndicators. js_includes (toLowerCase content) p) then Offered
      else if (\<exists>p \<in> set interviewIndicators. js_includes (toLowerCase content) p)
        then Interviewing
      else Applied)
   \<and> determineStatus content \<noteq> Ghosted
   \<and> (js_includes content ''unfortunately'' \<and> js_includes content ''schedule a call''
        \<longrightarrow> determineStatus content = Rejected)"
proof (intro conjI impI)
  show order: "determineStatus content =
     (if (\<exists>p \<in> set rejectionIndicators. js_includes (toLowerCase content) p) then Rejected
      else if (\<exists>p \<in> set offerIndicators. js_includes (toLowerCase content) p) then Offered
      else if (\<exists>p \<in> set interviewIndicators. js_includes (toLowerCase content) p)
        then Interviewing
      else Applied)"
    unfolding determineStatus_def Let_def indicatorLoop_iff by simp
  show "determineStatus content \<noteq> Ghosted"
    unfolding determineStatus_def Let_def by simp
  assume "js_includes content ''unfortunately'' \<and> js_includes content ''schedule a call''"
  then have "js_includes (toLowerCase content) ''unfortunately''"
    by (simp add: js_includes_toLowerCase lowercase_phrases)
  with unfortunately_listed
  have "\<exists>p \<in> set rejectionIndicators. js_includes (toLowerCase content) p" by blast
  with order show "determineStatus content = Rejected" by simp
qed

theorem determineStatus_priority_witness:
  "js_includes ''unfortunately we cannot schedule a call'' ''unfortunately''
   \<and> js_includes ''unfortunately we cannot schedule a call'' ''schedule a call''
   \<and> determineStatus ''unfortunately we cannot schedule a call'' = Rejected"
proof -
  have a: "js_includes ''unfortunately we cannot schedule a call'' ''unfortunately''"
    by simp
  have b: "js_includes ''unfortunately we cannot schedule a call'' ''schedule a call''"
    by simp
  from determineStatus_priority [of "''unfortunately we cannot schedule a call''"] a b
  have "determineStatus ''unfortunately we cannot schedule a call'' = Rejected" by blast
  with a b show ?thesis by blast
qed

text \<open>
  C3. When the content (as given, or lower-cased as the function does) contains one of
  the application-confirmation phrases, or "thank you for your interest" together
  with "application", "position" or "role", \<open>isJobBoardNotification\<close> returns false
  for every sender and every subject: the sender and phrase tables are not consulted.
\<close>

theorem isJobBoardNotification_confirmation_override:
  assumes "c = content \<or> c = toLowerCase content"
    and "js_includes c ''thank you for applying'' \<or>
         js_includes c ''thanks for applying'' \<or>
         js_includes c ''application received'' \<or>
         js_includes c ''we have received your application'' \<or>
         js_includes c ''your application has been received'' \<or>
         (js_includes c ''thank you for your interest'' \<and>
           (js_includes c ''application'' \<or> js_includes c ''position'' \<or>
            js_includes c ''role''))"
  shows "isJobBoardNotification content from subject = False"
proof -
  have low: "js_includes (toLowerCase content) p" if "js_includes c p" "toLowerCase p = p" for p
    using assms(1) that by (auto simp: js_includes_toLowerCase)
  from assms(2) have "isApplicationConfirmation (toLowerCase content)"
    unfolding isApplicationConfirmation_def
    by (elim disjE conjE) (simp_all add: low lowercase_phrases)
  then show ?thesis
    by (simp add: isJobBoardNotification_def Let_def)
qed

theorem isJobBoardNotification_confirmation_override_witness:
  "js_includes ''thank you for your interest in the position'' ''thank you for your interest''
   \<and> js_includes ''thank you for your interest in the position'' ''position''
   \<and> isJobBoardNotification ''thank you for your interest in the position''
        ''notifications@indeed.com'' ''job alert'' = False"
proof -
  have a: "js_includes ''thank you for your interest in the position''
             ''thank you for your interest''" by simp
  have b: "js_includes ''thank you for your interest in the position'' ''position''" by simp
  from a b isJobBoardNotification_confirmation_override
    [of "''thank you for your interest in the position''"
        "''thank you for your interest in the position''"
        "''notifications@indeed.com''" "''job alert''"]
  have "isJobBoardNotification ''thank you for your interest in the position''
          ''notifications@indeed.com'' ''job alert'' = False" by blast
  with a b show ?thesis by blast
qed

text \<open>Without a confirmation phrase the same sender is classified as noise, so the
  override above is what decides the witness.\<close>

lemma notification_sender_is_noise:
  "isJobBoardNotification ''hello'' ''notifications@indeed.com'' ''hi'' = True"
  by (simp add: isJobBoardNotification_def isApplicationConfirmation_def Let_def
      toLowerCase_def lowerChar_def caseTable_def senderPatterns_def)

section \<open>Properties of the batch recategorization\<close>

lemma pushStatusChange_sel:
  "calls (pushStatusChange j a st) = calls st"
  "clockReads (pushStatusChange j a st) = clockReads st"
  "analyzedJobs (result (pushStatusChange j a st)) = analyzedJobs (result st)"
  "aiAnalyzed (result (pushStatusChange j a st)) = aiAnalyzed (result st)"
  "regexFallback (result (pushStatusChange j a st)) = regexFallback (result st)"
  "skipped (result (pushStatusChange j a st)) = skipped (result st)"
  "updatedJobs (result (pushStatusChange j a st)) = updatedJobs (result st)"
  "errors (result (pushStatusChange j a st)) = errors (result st)"
  "totalJobs (result (pushStatusChange j a st)) = totalJobs (result st)"
  by (simp_all add: pushStatusChange_def)

lemma trackMethod_sel:
  "calls (trackMethod m st) = calls st"
  "clockReads (trackMethod m st) = clockReads st"
  "analyzedJobs (result (trackMethod m st)) = analyzedJobs (result st)"
  "aiAnalyzed (result (trackMethod m st)) = aiAnalyzed (result st) + (if m = Ai then 1 else 0)"
  "regexFallback (result (trackMethod m st)) =
     regexFallback (result st) + (if m = Regex then 1 else 0)"
  by (simp_all add: trackMethod_def)

lemma applyUpdate_sel:
  "calls (applyUpdate e j a sc cc tc st) =
     calls st @ [CallUpdateDoc (jobId j)
        (buildUpdates (toISOString e (dateNow e (clockReads st))) a sc cc tc)]"
  "analyzedJobs (result (applyUpdate e j a sc cc tc st)) = analyzedJobs (result st)"
  "aiAnalyzed (result (applyUpdate e j a sc cc tc st)) = aiAnalyzed (result st)"
  "regexFallback (result (applyUpdate e j a sc cc tc st)) = regexFallback (result st)"
  by (simp_all add: applyUpdate_def Let_def pushStatusChange_sel split: option.split)

text \<open>The calls of the loop body after the staleness check: the analysis, the pattern
  path when it is taken, and in update mode the write when something changed.\<close>

lemma analyzeAndUpdate_calls:
  "calls (analyzeAndUpdate e mode j st) =
     calls st @ CallAnalyzeJobWithAI (jobId j) # snd (analyzeJobWithAI j) @
     (let a = fst (analyzeJobWithAI j);
          sc = (newStatus a \<noteq> status j);
          cc = (truthy (newCompany a) \<and> newCompany a \<noteq> Some (companyName j));
          tc = (truthy (newJobTitle a) \<and> newJobTitle a \<noteq> Some (jobTitle j))
      in if (sc \<or> cc \<or> tc) \<and> mode = Update
         then [CallUpdateDoc (jobId j)
                 (buildUpdates (toISOString e (dateNow e (clockReads st))) a sc cc tc)]
         else [])"
  unfolding analyzeAndUpdate_def
  by (simp add: Let_def split_def pushStatusChange_sel trackMethod_sel applyUpdate_sel)

lemma analyzeAndUpdate_analyzed:
  "analyzedJobs (result (analyzeAndUpdate e mode j st)) = analyzedJobs (result st) + 1"
  unfolding analyzeAndUpdate_def
  by (simp add: Let_def split_def pushStatusChange_sel trackMethod_sel applyUpdate_sel)

lemma analyzeAndUpdate_regex:
  "regexFallback (result (analyzeAndUpdate e mode j st)) =
     regexFallback (result st) + (if a_method (fst (analyzeJobWithAI j)) = Regex then 1 else 0)"
  unfolding analyzeAndUpdate_def
  by (simp add: Let_def split_def pushStatusChange_sel trackMethod_sel applyUpdate_sel)

lemma analyzeAndUpdate_ai:
  "aiAnalyzed (result (analyzeAndUpdate e mode j st)) =
     aiAnalyzed (result st) + (if a_method (fst (analyzeJobWithAI j)) = Ai then 1 else 0)"
  unfolding analyzeAndUpdate_def
  by (simp add: Let_def split_def pushStatusChange_sel trackMethod_sel applyUpdate_sel)

text \<open>\<open>daysSinceAnalysis < 7\<close> says that fewer than seven days' milliseconds lie between
  the stored time and the clock reading.\<close>

lemma daysSince_lt_7_iff:
  "daysSinceAnalysis now t < 7 \<longleftrightarrow> now - t < 7 * 24 * 60 * 60 * 1000"
  unfolding daysSinceAnalysis_def by (simp add: divide_less_eq) linarith

lemma analyzeJobWithAI_method:
  "a_method (fst (analyzeJobWithAI job)) =
     (if \<not> truthy (emailSubject job) \<and> \<not> truthy (emailFrom job) then InsufficientData else Regex)"
  by (simp add: analyzeJobWithAI_def Let_def)

lemma analyzeJobWithAI_calls:
  "snd (analyzeJobWithAI job) =
     (if \<not> truthy (emailSubject job) \<and> \<not> truthy (emailFrom job) then []
      else [CallAnalyzeJobWithPatterns (jobId job)])"
  by (simp add: analyzeJobWithAI_def Let_def)

lemma buildUpdates_keys:
  "set (map fst (buildUpdates isoNow a sc cc tc)) \<subseteq> set (namedFields @ [''analysisReasoning''])"
  by (auto simp: buildUpdates_def namedFields_def)

lemma buildUpdates_distinct: "distinct (map fst (buildUpdates isoNow a sc cc tc))"
  by (simp add: buildUpdates_def)

lemma analyzeAndUpdate_ok:
  "list_all updateOk (calls st) \<Longrightarrow> list_all updateOk (calls (analyzeAndUpdate e mode j st))"
  using buildUpdates_keys buildUpdates_distinct
  by (simp add: analyzeAndUpdate_calls analyzeJobWithAI_calls Let_def)

lemma processJob_cases:
  "processJob e mode f j st = (st\<lparr>clockReads := clockReads st + 1\<rparr>)\<lparr>result :=
      (result st)\<lparr>skipped := skipped (result st) + 1\<rparr>\<rparr>
   \<or> processJob e mode f j st = analyzeAndUpdate e mode j (st\<lparr>clockReads := clockReads st + 1\<rparr>)
   \<or> processJob e mode f j st = analyzeAndUpdate e mode j st"
  by (simp add: processJob_def Let_def)

lemma processJob_ok:
  "list_all updateOk (calls st) \<Longrightarrow> list_all updateOk (calls (processJob e mode f j st))"
  using processJob_cases [of e mode f j st] analyzeAndUpdate_ok [of st e mode j]
    analyzeAndUpdate_ok [of "st\<lparr>clockReads := clockReads st + 1\<rparr>" e mode j]
  by auto

lemma processJobs_ok:
  "list_all updateOk (calls st) \<Longrightarrow> list_all updateOk (calls (processJobs e mode f js st))"
  by (induction js arbitrary: st) (simp_all add: processJob_ok)

lemma processJob_ai:
  "aiAnalyzed (result (processJob e mode f j st)) = aiAnalyzed (result st)"
  using processJob_cases [of e mode f j st]
  by (auto simp: analyzeAndUpdate_ai analyzeJobWithAI_method)

lemma processJobs_ai:
  "aiAnalyzed (result (processJobs e mode f js st)) = aiAnalyzed (result st)"
  by (induction js arbitrary: st) (simp_all add: processJob_ai)

text \<open>Every record of the snapshot is handled by the loop body, from the state the
  records before it left.\<close>

lemma processJobs_append:
  "processJobs e mode f (xs @ ys) st = processJobs e mode f ys (processJobs e mode f xs st)"
  by (induction xs arbitrary: st) simp_all

lemma demo_analysis:
  "analyzeJobWithAI demoJob =
     (\<lparr>newStatus = Rejected, newCompany = Some ''Acme'', newJobTitle = Some ''Engineer'',
       a_confidence = 0.8, a_method = Regex,
       a_reasoning = Some ''Strong rejection language detected in email content''\<rparr>,
      [CallAnalyzeJobWithPatterns ''job-1''])"
  by (simp add: analyzeJobWithAI_def analyzeJobWithPatterns_def demoJob_def Let_def
      toLowerCase_def lowerChar_def caseTable_def rejectionIndicators_job_def)

lemma demo_issuedUpdates:
  "issuedUpdates (runRecategorization demoCollaborators ''user-1'' Update True) =
     [(''job-1'',
       [(''lastAnalyzed'', VStr ''2024-01-03T00:00:00.000Z''),
        (''analysisMethod'', VStr ''regex''),
        (''confidence'', VNum 0.8),
        (''status'', VStr ''rejected''),
        (''analysisReasoning'', VStr ''Strong rejection language detected in email content'')])]"
proof -
  have docs: "getDocs demoCollaborators ''user-1'' = Inr [demoJob]"
    by (simp add: demoCollaborators_def)
  have "calls (processJob demoCollaborators Update True demoJob demoState) =
     [CallAnalyzeJobWithAI ''job-1'', CallAnalyzeJobWithPatterns ''job-1'',
      CallUpdateDoc ''job-1''
       [(''lastAnalyzed'', VStr ''2024-01-03T00:00:00.000Z''),
        (''analysisMethod'', VStr ''regex''),
        (''confidence'', VNum 0.8),
        (''status'', VStr ''rejected''),
        (''analysisReasoning'', VStr ''Strong rejection language detected in email content'')]]"
    by (simp add: processJob_def analyzeAndUpdate_calls demo_analysis Let_def buildUpdates_def)
       (simp add: demoJob_def demoCollaborators_def demoState_def)
  then show ?thesis
    by (simp add: issuedUpdates_def runRecategorization_def docs demoState_def)
qed

text \<open>
  C7 as stated fails: in update mode a record whose subject carries rejection language
  is written with the field \<open>analysisReasoning\<close>, which is not one of the six named
  fields.
\<close>

theorem update_writes_analysisReasoning:
  "issuedUpdates (runRecategorization demoCollaborators ''user-1'' Update True) =
     [(''job-1'',
       [(''lastAnalyzed'', VStr ''2024-01-03T00:00:00.000Z''),
        (''analysisMethod'', VStr ''regex''),
        (''confidence'', VNum 0.8),
        (''status'', VStr ''rejected''),
        (''analysisReasoning'', VStr ''Strong rejection language detected in email content'')])]
   \<and> ''analysisReasoning'' \<notin> set namedFields"
  using demo_issuedUpdates by (simp add: namedFields_def)

text \<open>
  C7, amended. Every update a run issues assigns each of its fields once, and the
  fields are among \<open>status\<close>, \<open>companyName\<close>, \<open>jobTitle\<close>, \<open>lastAnalyzed\<close>,
  \<open>analysisMethod\<close>, \<open>confidence\<close> and \<open>analysisReasoning\<close>; no other field is written.
\<close>

theorem update_fields:
  assumes "(rid, u) \<in> set (issuedUpdates (runRecategorization e userId mode forceUpdate))"
  shows "set (map fst u) \<subseteq> set (namedFields @ [''analysisReasoning'']) \<and> distinct (map fst u)"
proof (cases "runRecategorization e userId mode forceUpdate")
  case (Inl err)
  with assms show ?thesis by (simp add: issuedUpdates_def)
next
  case (Inr st)
  with assms obtain c where c: "c \<in> set (calls st)" "(rid, u) \<in> set (updateOf c)"
    by (auto simp: issuedUpdates_def)
  from Inr have "list_all updateOk (calls st)"
    by (auto simp: runRecategorization_def processJobs_ok split: sum.splits if_splits)
  with c(1) have "updateOk c" by (simp add: list_all_iff)
  moreover from c(2) have "c = CallUpdateDoc rid u" by (cases c) simp_all
  ultimately show ?thesis by simp
qed

theorem update_fields_witness:
  "(''job-1'',
       [(''lastAnalyzed'', VStr ''2024-01-03T00:00:00.000Z''),
        (''analysisMethod'', VStr ''regex''),
        (''confidence'', VNum 0.8),
        (''status'', VStr ''rejected''),
        (''analysisReasoning'', VStr ''Strong rejection language detected in email content'')])
     \<in> set (issuedUpdates (runRecategorization demoCollaborators ''user-1'' Update True))
   \<and> set (map fst
       [(''lastAnalyzed'', VStr ''2024-01-03T00:00:00.000Z''),
        (''analysisMethod'', VStr ''regex''),
        (''confidence'', VNum 0.8),
        (''status'', VStr ''rejected''),
        (''analysisReasoning'', VStr ''Strong rejection language detected in email content'')])
       \<subseteq> set (namedFields @ [''analysisReasoning''])"
proof -
  let ?u = "[(''lastAnalyzed'', VStr ''2024-01-03T00:00:00.000Z''),
        (''analysisMethod'', VStr ''regex''),
        (''confidence'', VNum 0.8),
        (''status'', VStr ''rejected''),
        (''analysisReasoning'', VStr ''Strong rejection language detected in email content'')]"
  have m: "(''job-1'', ?u)
     \<in> set (issuedUpdates (runRecategorization demoCollaborators ''user-1'' Update True))"
    unfolding demo_issuedUpdates by simp
  from update_fields [OF m] m show ?thesis by blast
qed

lemma pushStatusChange_skipped:
  "skipped (result (pushStatusChange j a st)) = skipped (result st)"
  by (simp add: pushStatusChange_def)

lemma trackMethod_skipped:
  "skipped (result (trackMethod m st)) =
     skipped (result st) + (if m = InsufficientData then 1 else 0)"
  by (cases m) (simp_all add: trackMethod_def)

lemma applyUpdate_skipped:
  "skipped (result (applyUpdate e j a sc cc tc st)) = skipped (result st)"
  by (simp add: applyUpdate_def Let_def pushStatusChange_sel split: option.split)

lemma analyzeAndUpdate_skipped:
  "skipped (result (analyzeAndUpdate e mode j st)) =
     skipped (result st) +
       (if a_method (fst (analyzeJobWithAI j)) = InsufficientData then 1 else 0)"
  unfolding analyzeAndUpdate_def
  by (simp add: Let_def split_def pushStatusChange_sel trackMethod_skipped applyUpdate_skipped)

lemma run_loop:
  "getDocs e userId = Inr docs \<Longrightarrow>
     runRecategorization e userId mode f = Inr (processJobs e mode f docs (startState docs))"
  by (simp add: runRecategorization_def startState_def)

lemma analyzeAndUpdate_analysisCalls:
  "calls (analyzeAndUpdate e mode j st) = calls st @ analysisCalls e mode j st"
  by (simp add: analyzeAndUpdate_calls analysisCalls_def)

lemma analysisCalls_ids: "c \<in> set (analysisCalls e mode j st) \<Longrightarrow> callId c = jobId j"
  by (auto simp: analysisCalls_def analyzeJobWithAI_calls Let_def split: if_splits)

lemma processJob_calls:
  "calls (processJob e mode f j st) = calls st \<or>
   calls (processJob e mode f j st) = calls st @ analysisCalls e mode j st \<or>
   calls (processJob e mode f j st) =
     calls st @ analysisCalls e mode j (st\<lparr>clockReads := clockReads st + 1\<rparr>)"
  using processJob_cases [of e mode f j st]
  by (auto simp: analyzeAndUpdate_analysisCalls)

lemma processJob_call_ids:
  assumes "c \<in> set (calls (processJob e mode f j st))"
  shows "c \<in> set (calls st) \<or> callId c = jobId j"
  using processJob_calls [of e mode f j st] assms analysisCalls_ids by auto

lemma processJobs_call_ids:
  "c \<in> set (calls (processJobs e mode f js st)) \<Longrightarrow>
     c \<in> set (calls st) \<or> callId c \<in> jobId ` set js"
proof (induction js arbitrary: st)
  case Nil
  then show ?case by simp
next
  case (Cons j js)
  from Cons.IH [of "processJob e mode f j st"] Cons.prems
  have "c \<in> set (calls (processJob e mode f j st)) \<or> callId c \<in> jobId ` set js" by simp
  then show ?case using processJob_call_ids [of c e mode f j st] by auto
qed

lemma processJob_calls_prefix: "prefix (calls st) (calls (processJob e mode f j st))"
  using processJob_calls [of e mode f j st] by auto

lemma processJobs_calls_prefix: "prefix (calls st) (calls (processJobs e mode f js st))"
proof (induction js arbitrary: st)
  case Nil
  then show ?case by simp
next
  case (Cons j js)
  have "prefix (calls st) (calls (processJob e mode f j st))" by (rule processJob_calls_prefix)
  also have "prefix \<dots> (calls (processJobs e mode f js (processJob e mode f j st)))"
    by (rule Cons.IH)
  finally show ?case by simp
qed

lemma processJob_skipped_mono:
  "skipped (result st) \<le> skipped (result (processJob e mode f j st))"
  using processJob_cases [of e mode f j st]
  by (auto simp: analyzeAndUpdate_skipped)

lemma processJobs_skipped_mono:
  "skipped (result st) \<le> skipped (result (processJobs e mode f js st))"
proof (induction js arbitrary: st)
  case Nil
  then show ?case by simp
next
  case (Cons j js)
  have "skipped (result st) \<le> skipped (result (processJob e mode f j st))"
    by (rule processJob_skipped_mono)
  also have "\<dots> \<le> skipped (result (processJobs e mode f js (processJob e mode f j st)))"
    by (rule Cons.IH)
  finally show ?case by simp
qed

text \<open>The loop body on a record analysed less than seven days before the clock
  reading, and under \<open>forceUpdate\<close>.\<close>

lemma processJob_recent:
  assumes "\<not> forceUpdate" "lastAnalyzed jobData = Some s" "s \<noteq> []" "dateParse e s = Some t"
    and "dateNow e (clockReads st) - t < 7 * 24 * 60 * 60 * 1000"
  shows "processJob e mode forceUpdate jobData st =
           st\<lparr>clockReads := clockReads st + 1,
              result := (result st)\<lparr>skipped := skipped (result st) + 1\<rparr>\<rparr>"
proof -
  from assms(5) have "daysSinceAnalysis (dateNow e (clockReads st)) t < 7"
    by (simp add: daysSince_lt_7_iff)
  with assms(1-4) show ?thesis by (simp add: processJob_def Let_def)
qed

lemma processJob_forced: "processJob e mode True jobData st = analyzeAndUpdate e mode jobData st"
  by (simp add: processJob_def)

lemma processJobs_forced_analyzed:
  "analyzedJobs (result (processJobs e mode True js st)) = analyzedJobs (result st) + length js"
  by (induction js arbitrary: st) (simp_all add: processJob_forced analyzeAndUpdate_analyzed)

lemma processJobs_forced_regex:
  "regexFallback (result (processJobs e mode True js st)) =
     regexFallback (result st) +
       length (filter (\<lambda>j. a_method (fst (analyzeJobWithAI j)) = Regex) js)"
  by (induction js arbitrary: st) (simp_all add: processJob_forced analyzeAndUpdate_regex)

lemma startState_sel:
  "calls (startState docs) = []"
  "analyzedJobs (result (startState docs)) = 0"
  "regexFallback (result (startState docs)) = 0"
  "skipped (result (startState docs)) = 0"
  by (simp_all add: startState_def initialResult_def)

text \<open>
  C8. In a run over the snapshot \<open>pre @ jobData # post\<close>, let \<open>st\<close> be the state in which
  the loop reaches the record \<open>jobData\<close>. Without \<open>forceUpdate\<close>, when \<open>lastAnalyzed\<close> of
  the record parses to a time less than seven days before the clock reading, the run
  returns the result of the remaining records from \<open>st\<close> with one more under \<open>skipped\<close>
  and one more clock reading and nothing else changed: the record is counted under
  \<open>skipped\<close> of the run, and (for a record id no other record of the snapshot has) the
  run makes no call for it, neither an analysis nor an update. With \<open>forceUpdate\<close> the
  run analyses the record whatever \<open>lastAnalyzed\<close> holds: its calls go on with the
  analysis of the record, the pattern path inside it and the update built from the
  analysis; every record of the snapshot is counted under \<open>analyzedJobs\<close>, and
  \<open>regexFallback\<close> counts the records the analysis classified by patterns.
\<close>

theorem run_skips_recent:
  assumes docs: "getDocs e userId = Inr (pre @ jobData # post)"
    and st: "st = processJobs e mode forceUpdate pre (startState (pre @ jobData # post))"
  shows
    "(\<not> forceUpdate \<and> lastAnalyzed jobData = Some s \<and> s \<noteq> [] \<and> dateParse e s = Some t \<and>
      dateNow e (clockReads st) - t < 7 * 24 * 60 * 60 * 1000 \<longrightarrow>
        (let final = processJobs e mode forceUpdate post
                       (st\<lparr>clockReads := clockReads st + 1,
                           result := (result st)\<lparr>skipped := skipped (result st) + 1\<rparr>\<rparr>)
         in runRecategorization e userId mode forceUpdate = Inr final \<and>
            skipped (result st) + 1 \<le> skipped (result final) \<and>
            (jobId jobData \<notin> jobId ` set (pre @ post) \<longrightarrow>
               (\<forall>c \<in> set (calls final). callId c \<noteq> jobId jobData))))
     \<and> (forceUpdate \<longrightarrow>
        (let final = processJobs e mode forceUpdate post (analyzeAndUpdate e mode jobData st)
         in runRecategorization e userId mode forceUpdate = Inr final \<and>
            prefix (calls st @ analysisCalls e mode jobData st) (calls final) \<and>
            analyzedJobs (result final) = length (pre @ jobData # post) \<and>
            regexFallback (result final) =
              length (filter (\<lambda>j. a_method (fst (analyzeJobWithAI j)) = Regex)
                        (pre @ jobData # post))))"
proof (intro conjI impI)
  let ?docs = "pre @ jobData # post"
  have run: "runRecategorization e userId mode forceUpdate =
               Inr (processJobs e mode forceUpdate post (processJob e mode forceUpdate jobData st))"
    using run_loop [OF docs, of mode forceUpdate] by (simp add: processJobs_append st)
  {
    assume h: "\<not> forceUpdate \<and> lastAnalyzed jobData = Some s \<and> s \<noteq> [] \<and>
      dateParse e s = Some t \<and> dateNow e (clockReads st) - t < 7 * 24 * 60 * 60 * 1000"
    let ?st' = "st\<lparr>clockReads := clockReads st + 1,
                    result := (result st)\<lparr>skipped := skipped (result st) + 1\<rparr>\<rparr>"
    let ?final = "processJobs e mode forceUpdate post ?st'"
    from h have body: "processJob e mode forceUpdate jobData st = ?st'"
      using processJob_recent [of forceUpdate jobData s e t st mode] by blast
    have a: "runRecategorization e userId mode forceUpdate = Inr ?final"
      using run body by simp
    have b: "skipped (result st) + 1 \<le> skipped (result ?final)"
      using processJobs_skipped_mono [of ?st' e mode forceUpdate post] by simp
    have c: "\<forall>c \<in> set (calls ?final). callId c \<noteq> jobId jobData"
      if u: "jobId jobData \<notin> jobId ` set (pre @ post)"
    proof
      fix c assume "c \<in> set (calls ?final)"
      then have "c \<in> set (calls ?st') \<or> callId c \<in> jobId ` set post"
        by (rule processJobs_call_ids)
      then have "callId c \<in> jobId ` set (pre @ post)"
      proof
        assume "c \<in> set (calls ?st')"
        then have "c \<in> set (calls (processJobs e mode forceUpdate pre (startState ?docs)))"
          by (simp add: st)
        from processJobs_call_ids [OF this] show ?thesis by (auto simp: startState_sel)
      next
        assume "callId c \<in> jobId ` set post"
        then show ?thesis by auto
      qed
      with u show "callId c \<noteq> jobId jobData" by metis
    qed
    from a b c show "let final = ?final
         in runRecategorization e userId mode forceUpdate = Inr final \<and>
            skipped (result st) + 1 \<le> skipped (result final) \<and>
            (jobId jobData \<notin> jobId ` set (pre @ post) \<longrightarrow>
               (\<forall>c \<in> set (calls final). callId c \<noteq> jobId jobData))"
      by (simp add: Let_def)
  }
  {
    assume f: forceUpdate
    let ?final = "processJobs e mode forceUpdate post (analyzeAndUpdate e mode jobData st)"
    have a: "runRecategorization e userId mode forceUpdate = Inr ?final"
      using run f by (simp add: processJob_forced)
    have b: "prefix (calls st @ analysisCalls e mode jobData st) (calls ?final)"
      using processJobs_calls_prefix [of "analyzeAndUpdate e mode jobData st" e mode forceUpdate post]
      by (simp add: analyzeAndUpdate_analysisCalls)
    have whole: "?final = processJobs e mode True ?docs (startState ?docs)"
      using f by (simp add: processJobs_append st processJob_forced)
    have c: "analyzedJobs (result ?final) = length ?docs"
      unfolding whole by (simp add: processJobs_forced_analyzed startState_sel)
    have d: "regexFallback (result ?final) =
              length (filter (\<lambda>j. a_method (fst (analyzeJobWithAI j)) = Regex) ?docs)"
      unfolding whole by (simp add: processJobs_forced_regex startState_sel)
    from a b c d show "let final = ?final
         in runRecategorization e userId mode forceUpdate = Inr final \<and>
            prefix (calls st @ analysisCalls e mode jobData st) (calls final) \<and>
            analyzedJobs (result final) = length (pre @ jobData # post) \<and>
            regexFallback (result final) =
              length (filter (\<lambda>j. a_method (fst (analyzeJobWithAI j)) = Regex)
                        (pre @ jobData # post))"
      by (simp add: Let_def)
  }
qed


lemma demo_docs: "getDocs demoCollaborators ''user-1'' = Inr ([] @ demoJob # [])"
  by (simp add: demoCollaborators_def)

lemma demo_analysisCalls:
  "analysisCalls demoCollaborators Update demoJob (startState [demoJob]) =
     [CallAnalyzeJobWithAI ''job-1'', CallAnalyzeJobWithPatterns ''job-1'',
      CallUpdateDoc ''job-1''
       [(''lastAnalyzed'', VStr ''2024-01-03T00:00:00.000Z''),
        (''analysisMethod'', VStr ''regex''),
        (''confidence'', VNum 0.8),
        (''status'', VStr ''rejected''),
        (''analysisReasoning'', VStr ''Strong rejection language detected in email content'')]]"
  by (simp add: analysisCalls_def demo_analysis Let_def buildUpdates_def)
     (simp add: demoJob_def demoCollaborators_def)

theorem run_skips_recent_witness:
  "getDocs demoCollaborators ''user-1'' = Inr [demoJob]
   \<and> lastAnalyzed demoJob = Some ''2024-01-01T00:00:00.000Z''
   \<and> dateNow demoCollaborators 0 - 1704067200000 < 7 * 24 * 60 * 60 * 1000
   \<and> runRecategorization demoCollaborators ''user-1'' Update False =
       Inr \<lparr>result = (initialResult 1)\<lparr>skipped := 1\<rparr>, clockReads = 1, calls = []\<rparr>
   \<and> (case runRecategorization demoCollaborators ''user-1'' Update True of
        Inl err \<Rightarrow> False
      | Inr final \<Rightarrow>
          analyzedJobs (result final) = 1 \<and> regexFallback (result final) = 1 \<and>
          prefix [CallAnalyzeJobWithAI ''job-1'', CallAnalyzeJobWithPatterns ''job-1'',
                  CallUpdateDoc ''job-1''
                    [(''lastAnalyzed'', VStr ''2024-01-03T00:00:00.000Z''),
                     (''analysisMethod'', VStr ''regex''),
                     (''confidence'', VNum 0.8),
                     (''status'', VStr ''rejected''),
                     (''analysisReasoning'',
                      VStr ''Strong rejection language detected in email content'')]]
            (calls final))"
proof -
  have st: "startState [demoJob] =
      processJobs demoCollaborators Update f [] (startState ([] @ demoJob # []))" for f
    by simp
  have h: "\<not> False \<and> lastAnalyzed demoJob = Some ''2024-01-01T00:00:00.000Z'' \<and>
      ''2024-01-01T00:00:00.000Z'' \<noteq> [] \<and>
      dateParse demoCollaborators ''2024-01-01T00:00:00.000Z'' = Some 1704067200000 \<and>
      dateNow demoCollaborators (clockReads (startState [demoJob])) - 1704067200000
        < 7 * 24 * 60 * 60 * 1000"
    by (simp add: demoJob_def demoCollaborators_def)
  have m: "a_method (fst (analyzeJobWithAI demoJob)) = Regex"
    by (simp add: demo_analysis)
  from run_skips_recent [OF demo_docs st, of False "''2024-01-01T00:00:00.000Z''" 1704067200000] h
  have skip: "runRecategorization demoCollaborators ''user-1'' Update False =
       Inr \<lparr>result = (initialResult 1)\<lparr>skipped := 1\<rparr>, clockReads = 1, calls = []\<rparr>"
    by (simp add: Let_def startState_def initialResult_def)
  from run_skips_recent [OF demo_docs st, of True]
  have forced: "case runRecategorization demoCollaborators ''user-1'' Update True of
        Inl err \<Rightarrow> False
      | Inr final \<Rightarrow>
          analyzedJobs (result final) = 1 \<and> regexFallback (result final) = 1 \<and>
          prefix (analysisCalls demoCollaborators Update demoJob (startState [demoJob]))
            (calls final)"
    by (simp add: Let_def m startState_sel)
  have g: "getDocs demoCollaborators ''user-1'' = Inr [demoJob]"
    and d: "dateNow demoCollaborators 0 - 1704067200000 < 7 * 24 * 60 * 60 * 1000"
    by (simp_all add: demoCollaborators_def)
  from g d h skip forced [unfolded demo_analysisCalls] show ?thesis by (intro conjI) simp_all
qed

text \<open>
  C9. For a record with neither a subject nor a sender (absent or empty), the analysis
  returns method \<open>insufficient_data\<close> with the record's own status, company name and
  job title, and makes no call to the pattern path (there is no AI call in this service);
  the loop body then issues no update for it.
\<close>

theorem analyzeJobWithAI_insufficient_data:
  assumes "\<not> truthy (emailSubject job)" and "\<not> truthy (emailFrom job)"
  shows "a_method (fst (analyzeJobWithAI job)) = InsufficientData
    \<and> snd (analyzeJobWithAI job) = []
    \<and> newStatus (fst (analyzeJobWithAI job)) = status job
    \<and> newCompany (fst (analyzeJobWithAI job)) = Some (companyName job)
    \<and> newJobTitle (fst (analyzeJobWithAI job)) = Some (jobTitle job)
    \<and> calls (analyzeAndUpdate e mode job st) = calls st @ [CallAnalyzeJobWithAI (jobId job)]"
proof -
  from assms have r: "analyzeJobWithAI job =
      (\<lparr>newStatus = status job, newCompany = Some (companyName job),
        newJobTitle = Some (jobTitle job), a_confidence = 0.1, a_method = InsufficientData,
        a_reasoning = Some ''No email data available for analysis''\<rparr>, [])"
    by (simp add: analyzeJobWithAI_def)
  then show ?thesis by (simp add: analyzeAndUpdate_calls Let_def)
qed

theorem analyzeJobWithAI_insufficient_data_witness:
  "\<not> truthy (emailSubject demoBareJob) \<and> \<not> truthy (emailFrom demoBareJob)
   \<and> a_method (fst (analyzeJobWithAI demoBareJob)) = InsufficientData
   \<and> snd (analyzeJobWithAI demoBareJob) = []
   \<and> newStatus (fst (analyzeJobWithAI demoBareJob)) = Applied
   \<and> calls (analyzeAndUpdate demoCollaborators Update demoBareJob demoState) =
       [CallAnalyzeJobWithAI ''job-1'']"
proof -
  have a: "\<not> truthy (emailSubject demoBareJob)" and b: "\<not> truthy (emailFrom demoBareJob)"
    by (simp_all add: demoBareJob_def)
  from analyzeJobWithAI_insufficient_data [OF a b, of demoCollaborators Update demoState] a b
  show ?thesis by (simp add: demoBareJob_def demoJob_def demoState_def)
qed

text \<open>
  C10. The analysis of the recategorization service never reports method \<open>ai\<close>: it is
  \<open>insufficient_data\<close> for a record without subject and sender and \<open>regex\<close> otherwise.
  Hence every result a run returns has \<open>aiAnalyzed = 0\<close>.
\<close>

theorem recategorization_never_ai:
  "a_method (fst (analyzeJobWithAI job)) \<noteq> Ai
   \<and> (a_method (fst (analyzeJobWithAI job)) = Regex \<or>
      a_method (fst (analyzeJobWithAI job)) = InsufficientData)
   \<and> (case runRecategorization e userId mode forceUpdate of
        Inl err \<Rightarrow> True
      | Inr st \<Rightarrow> aiAnalyzed (result st) = 0)"
  by (simp add: analyzeJobWithAI_method runRecategorization_def processJobs_ai
      initialResult_def split: sum.split)

theorem recategorization_never_ai_witness:
  "a_method (fst (analyzeJobWithAI demoJob)) = Regex
   \<and> (case runRecategorization demoCollaborators ''user-1'' Update True of
        Inl err \<Rightarrow> False
      | Inr st \<Rightarrow> aiAnalyzed (result st) = 0 \<and> regexFallback (result st) = 1)"
proof -
  have docs: "getDocs demoCollaborators ''user-1'' = Inr [demoJob]"
    by (simp add: demoCollaborators_def)
  have m: "a_method (fst (analyzeJobWithAI demoJob)) = Regex"
    by (simp add: demo_analysis)
  have "regexFallback (result (processJob demoCollaborators Update True demoJob demoState)) = 1"
    by (simp add: processJob_def analyzeAndUpdate_regex m demoState_def initialResult_def)
  with recategorization_never_ai [of demoJob demoCollaborators "''user-1''" Update True] m
  show ?thesis
    by (simp add: runRecategorization_def docs demoState_def split: sum.splits)
qed

section \<open>Properties of the text normalizer\<close>

text \<open>
  The steps of the normalizer before the three white-space steps: the expressions for
  style sheets, scripts, comments, tags and entities. A text is free of markup when
  none of these expressions matches it.
\<close>

definition markupSteps :: "(bool \<times> regex \<times> string) list" where
  "markupSteps = take 35 cleanSteps"

definition markupFree :: "string \<Rightarrow> bool" where
  "markupFree s = list_all (\<lambda>(ic, r, rep). \<not> js_test ic r s) markupSteps"

text \<open>
  The characters one of which every expression of the markup steps needs in order to
  match: the tag, entity and rule openers and the characters of the style declarations.
  A text without them is plain, and a plain text is free of markup.
\<close>

definition markupChars :: string where
  "markupChars = ''<&{@:-=''"

definition plainText :: "string \<Rightarrow> bool" where
  "plainText s = list_all (\<lambda>c. c \<notin> set markupChars) s"

lemma plainText_disjoint: "plainText s \<longleftrightarrow> set markupChars \<inter> set s = {}"
  by (auto simp: plainText_def list_all_iff)

lemma cleanSteps_tail:
  "drop 35 cleanSteps =
     [(False, ws1, '' ''),
      (False, seqs [Chr CHR 0x0A, ws1], [CHR 0x0A]),
      (False, Rep True 3 None (Chr CHR 0x0A), [CHR 0x0A, CHR 0x0A])]"
  by (simp add: cleanSteps_def)

lemma markup_steps:
  "list_all (\<lambda>(ic, r, rep). mustHit markupChars r) markupSteps"
  by (simp add: markupSteps_def cleanSteps_def markupChars_def seqs_def lit_def rstar_def
      rplus_def ropt_def rlazyStar_def isUpper_def isLower_def)

lemma plainText_markupFree:
  assumes "plainText s"
  shows "markupFree s"
proof -
  from assms have d: "set markupChars \<inter> set s = {}" by (simp add: plainText_disjoint)
  have "\<not> js_test ic r s" if "(ic, r, rep) \<in> set markupSteps" for ic r rep
  proof -
    from that markup_steps have "mustHit markupChars r" by (auto simp: list_all_iff)
    from search_mustHit [OF this d] show ?thesis by (simp add: js_test_def)
  qed
  then show ?thesis by (auto simp: markupFree_def list_all_iff)
qed

lemma foldl_fixed:
  "(\<And>st. st \<in> set steps \<Longrightarrow> applyStep s st = s) \<Longrightarrow> foldl applyStep s steps = s"
  by (induction steps) simp_all

lemma markup_steps_id:
  assumes "markupFree s"
  shows "foldl applyStep s markupSteps = s"
proof (rule foldl_fixed)
  fix st assume m: "st \<in> set markupSteps"
  obtain ic r rep where st: "st = (ic, r, rep)" by (cases st) auto
  from assms have "\<forall>x \<in> set markupSteps. case x of (ic, r, rep) \<Rightarrow> \<not> js_test ic r s"
    by (simp add: markupFree_def list_all_iff)
  with m st have "\<not> js_test ic r s" by fastforce
  then have "search ic r True [] s = None" unfolding js_test_def by blast
  then show "applyStep s st = s" by (simp add: st replaceAll_def replaceFrom_none)
qed

lemma newline_not_normal: "wsNormal s \<Longrightarrow> CHR 0x0A \<notin> set s"
  using wsNormal_space [of s "CHR 0x0A"] by (auto simp: isSpace_def)

lemma newline_steps_id:
  assumes "wsNormal v"
  shows "replaceAll False (seqs [Chr CHR 0x0A, ws1]) rep v = v"
    and "replaceAll False (Rep True 3 None (Chr CHR 0x0A)) rep v = v"
proof -
  from assms have d: "set [CHR 0x0A] \<inter> set v = {}" using newline_not_normal by auto
  show "replaceAll False (seqs [Chr CHR 0x0A, ws1]) rep v = v"
    by (rule replaceAll_mustHit [OF _ d]) (simp add: seqs_def isUpper_def isLower_def)
  show "replaceAll False (Rep True 3 None (Chr CHR 0x0A)) rep v = v"
    by (rule replaceAll_mustHit [OF _ d]) (simp add: isUpper_def isLower_def)
qed

text \<open>The normalizer is the markup steps, then the collapse of white space (after
  which the two line-feed steps find nothing), then \<open>trim\<close>.\<close>

lemma clean_shape:
  assumes "x \<noteq> []"
  shows "cleanHtmlContent x = trim (collapseFrom True (foldl applyStep x markupSteps))"
proof -
  let ?w = "foldl applyStep x markupSteps"
  let ?v = "collapseFrom True ?w"
  have n: "wsNormal ?v" using collapse_normal by blast
  have "cleanSteps = markupSteps @ drop 35 cleanSteps" by (simp add: markupSteps_def)
  then have "foldl applyStep x cleanSteps = foldl applyStep ?w (drop 35 cleanSteps)"
    by (metis foldl_append)
  also have "\<dots> = ?v"
  proof -
    have c: "replaceAll False ws1 '' '' ?w = ?v" by (simp add: replaceAll_def)
    show ?thesis unfolding cleanSteps_tail
      by (simp only: foldl.simps applyStep.simps c newline_steps_id [OF n])
  qed
  finally show ?thesis using assms by (simp add: cleanHtmlContent_def)
qed

lemma clean_normal: "wsNormal (cleanHtmlContent x)"
proof (cases "x = []")
  case True
  then show ?thesis by (simp add: cleanHtmlContent_def)
next
  case False
  then show ?thesis using collapse_normal by (simp add: clean_shape wsNormal_trim)
qed

lemma clean_trimmed: "trim (cleanHtmlContent x) = cleanHtmlContent x"
  by (cases "x = []") (simp_all add: clean_shape trim_idem, simp add: cleanHtmlContent_def trim_def)

text \<open>A text free of markup, with single spaces as its only white space and none at
  its ends, is a fixed point of the normalizer.\<close>

lemma clean_fixed:
  assumes "markupFree y" and "wsNormal y" and "trim y = y"
  shows "cleanHtmlContent y = y"
proof (cases "y = []")
  case True
  then show ?thesis by (simp add: cleanHtmlContent_def)
next
  case False
  then have "cleanHtmlContent y = trim (collapseFrom True (foldl applyStep y markupSteps))"
    by (rule clean_shape)
  also have "\<dots> = trim (collapseFrom True y)" using assms(1) by (simp add: markup_steps_id)
  also have "\<dots> = trim y" using assms(2) by (simp add: collapse_id)
  finally show ?thesis using assms(3) by simp
qed

text \<open>A plain normal form is a fixed point; so are normal forms with a hyphen, a
  colon, an at sign or an equals sign that belong to no tag or declaration.\<close>

lemma clean_fixed_plain:
  "plainText (cleanHtmlContent x) \<Longrightarrow>
     cleanHtmlContent (cleanHtmlContent x) = cleanHtmlContent x"
  by (intro clean_fixed plainText_markupFree clean_normal clean_trimmed)

lemma clean_fixed_examples:
  "cleanHtmlContent ''a-b'' = ''a-b''"
  "cleanHtmlContent ''Re: x'' = ''Re: x''"
  "cleanHtmlContent ''a@b.c'' = ''a@b.c''"
  "cleanHtmlContent ''1=1'' = ''1=1''"
  by code_simp+

lemma clean_entities: "cleanHtmlContent ''&lt;b&gt;'' = ''<b>''"
  by code_simp

lemma clean_tag: "cleanHtmlContent ''<b>'' = []"
  by code_simp

lemma clean_paragraph: "cleanHtmlContent ''<p>Re: a  b</p>'' = ''Re: a b''"
  by code_simp

lemma markupFree_demo: "markupFree ''Re: a b''"
  by code_simp

text \<open>
  C5 as stated fails: the entities are decoded after the tags are removed, so the
  normal form of \<open>&lt;b&gt;\<close> is the tag \<open><b>\<close>, which a second pass removes.
\<close>

theorem cleanHtmlContent_not_idempotent:
  "cleanHtmlContent ''&lt;b&gt;'' = ''<b>''
   \<and> cleanHtmlContent (cleanHtmlContent ''&lt;b&gt;'') = []
   \<and> cleanHtmlContent (cleanHtmlContent ''&lt;b&gt;'') \<noteq> cleanHtmlContent ''&lt;b&gt;''"
  by (simp add: clean_entities clean_tag)

text \<open>
  C5, amended. The normalizer is idempotent on every input whose normal form is free of
  markup, that is, matched by none of the expressions of the markup steps: normalizing
  that normal form again returns it unchanged. (The white-space steps and \<open>trim\<close> never
  change a normal form.)
\<close>

theorem cleanHtmlContent_idempotent_markupFree:
  assumes "markupFree (cleanHtmlContent x)"
  shows "cleanHtmlContent (cleanHtmlContent x) = cleanHtmlContent x"
  using assms clean_normal clean_trimmed by (rule clean_fixed)

theorem cleanHtmlContent_idempotent_markupFree_witness:
  "markupFree (cleanHtmlContent ''<p>Re: a  b</p>'')
   \<and> cleanHtmlContent (cleanHtmlContent ''<p>Re: a  b</p>'') = cleanHtmlContent ''<p>Re: a  b</p>''
   \<and> cleanHtmlContent ''<p>Re: a  b</p>'' = ''Re: a b''
   \<and> \<not> plainText ''Re: a b''"
proof -
  have p: "markupFree (cleanHtmlContent ''<p>Re: a  b</p>'')"
    by (simp add: clean_paragraph markupFree_demo)
  have n: "\<not> plainText ''Re: a b''" by (simp add: plainText_def markupChars_def)
  from cleanHtmlContent_idempotent_markupFree [OF p] p n clean_paragraph show ?thesis by simp
qed

section \<open>Properties of the hybrid classifier\<close>

text \<open>The service never throws: it is not initialised, or the \<open>try/catch\<close> around the
  request and the one in \<open>parseAIResponse\<close> turn every exception into \<open>null\<close>.\<close>

lemma analyzeEmail_returns: "\<exists>r. analyzeEmail backend e = Returns r"
  by (simp add: analyzeEmail_def split: outcome.split)

lemma analyzeEmail_request_fails:
  "generateContent backend e = Throws err \<Longrightarrow> analyzeEmail backend e = Returns None"
  by (simp add: analyzeEmail_def)

text \<open>\<open>determineStatusWithAI\<close> returns for every service, whatever the service does.\<close>

lemma determineStatusWithAI_returns:
  "\<exists>res. determineStatusWithAI svc content subject from = Returns res"
  by (simp add: determineStatusWithAI_def Let_def split: option.split)

lemma regexFallbackResult_sel:
  "r_method (regexFallbackResult content subject from) = Regex"
  "r_status (regexFallbackResult content subject from) = determineStatus content"
  "r_company (regexFallbackResult content subject from) = extractCompany from content subject"
  "r_jobTitle (regexFallbackResult content subject from) = extractJobTitle content subject"
  by (simp_all add: regexFallbackResult_def Let_def)

lemma regexFallbackResult_confidence:
  "0.3 \<le> r_confidence (regexFallbackResult content subject from)"
  "r_confidence (regexFallbackResult content subject from) \<le> 0.9"
  by (simp_all add: regexFallbackResult_def Let_def)

text \<open>The three failures of the service, as the \<open>try\<close> block sees them.\<close>

fun aiFails :: "EmailAnalysisResult option outcome \<Rightarrow> bool" where
  "aiFails (Throws err) = True"
| "aiFails (Returns None) = True"
| "aiFails (Returns (Some aiResult)) = (ai_confidence aiResult < 0.2)"

lemma tryAi_fails:
  assumes "aiFails (analyze svc \<lparr>ed_subject = subject, ed_from = from, ed_content = content\<rparr>)"
  shows "tryAi svc content subject from \<noteq> Returns (Some res)"
proof (cases "analyze svc \<lparr>ed_subject = subject, ed_from = from, ed_content = content\<rparr>")
  case (Throws err)
  then show ?thesis by (simp add: tryAi_def)
next
  case (Returns r)
  with assms show ?thesis by (cases r) (auto simp: tryAi_def)
qed

lemma determineStatusWithAI_falls_back:
  assumes "aiFails (analyze svc \<lparr>ed_subject = subject, ed_from = from, ed_content = content\<rparr>)"
  shows "determineStatusWithAI svc content subject from =
           Returns (regexFallbackResult content subject from)"
proof (cases "tryAi svc content subject from")
  case (Throws err)
  then show ?thesis by (simp add: determineStatusWithAI_def)
next
  case (Returns r)
  with tryAi_fails [OF assms] have "r = None" by (cases r) auto
  with Returns show ?thesis by (simp add: determineStatusWithAI_def)
qed

lemma unavailable_falls_back:
  "\<not> isAvailable svc \<Longrightarrow>
     determineStatusWithAI svc content subject from =
       Returns (regexFallbackResult content subject from)"
  by (simp add: determineStatusWithAI_def)

text \<open>With the service of the repository: a request that throws ends in the fallback.\<close>

lemma request_failure_falls_back:
  assumes "generateContent backend
             \<lparr>ed_subject = subject, ed_from = from, ed_content = content\<rparr> = Throws err"
  shows "determineStatusWithAI (aiEmailAnalysisService backend) content subject from =
           Returns (regexFallbackResult content subject from)"
proof -
  have "analyze (aiEmailAnalysisService backend)
          \<lparr>ed_subject = subject, ed_from = from, ed_content = content\<rparr> = Returns None"
    using analyzeEmail_request_fails [OF assms] by (simp add: aiEmailAnalysisService_def)
  then show ?thesis by (intro determineStatusWithAI_falls_back) simp
qed

text \<open>A service whose every call throws, and a short rejection.\<close>

definition failingService :: aiService where
  "failingService =
     \<lparr>isAvailable = True, analyze = (\<lambda>e. Throws (ErrorObject ''API key not valid''))\<rparr>"

lemma fallback_demo:
  "determineStatus ''we cannot'' = Rejected"
  "extractCompany ''hr@x'' ''we cannot'' [] = None"
  "extractJobTitle ''we cannot'' [] = None"
  by code_simp+

text \<open>
  C4. When the call of the AI classifier throws, returns \<open>null\<close>, or returns a result
  whose confidence is below 0.2, \<open>determineStatusWithAI\<close> returns (it does not throw) the
  result of the heuristic pipeline: its method is \<open>regex\<close> (hence one of \<open>regex\<close> and
  \<open>insufficient_data\<close>), and status, company and job title are those of \<open>determineStatus\<close>,
  \<open>extractCompany\<close> and \<open>extractJobTitle\<close>.
\<close>

theorem determineStatusWithAI_fallback:
  assumes "aiFails (analyze svc \<lparr>ed_subject = subject, ed_from = from, ed_content = content\<rparr>)"
  shows "\<exists>res. determineStatusWithAI svc content subject from = Returns res \<and>
           (r_method res = Regex \<or> r_method res = InsufficientData) \<and>
           res = regexFallbackResult content subject from \<and>
           r_method res = Regex \<and>
           r_status res = determineStatus content \<and>
           r_company res = extractCompany from content subject \<and>
           r_jobTitle res = extractJobTitle content subject"
  using determineStatusWithAI_falls_back [OF assms] by (simp add: regexFallbackResult_sel)

theorem determineStatusWithAI_fallback_witness:
  "aiFails (analyze failingService
      \<lparr>ed_subject = [], ed_from = ''hr@x'', ed_content = ''we cannot''\<rparr>) \<and>
   determineStatusWithAI failingService ''we cannot'' [] ''hr@x'' =
     Returns \<lparr>r_status = Rejected, r_company = None, r_jobTitle = None,
       r_confidence = 0.5, r_method = Regex\<rparr>"
proof -
  have f: "aiFails (analyze failingService
      \<lparr>ed_subject = [], ed_from = ''hr@x'', ed_content = ''we cannot''\<rparr>)"
    by (simp add: failingService_def)
  from determineStatusWithAI_fallback [OF f]
  have "determineStatusWithAI failingService ''we cannot'' [] ''hr@x'' =
          Returns (regexFallbackResult ''we cannot'' [] ''hr@x'')" by auto
  also have "regexFallbackResult ''we cannot'' [] ''hr@x'' =
      \<lparr>r_status = Rejected, r_company = None, r_jobTitle = None,
        r_confidence = 0.5, r_method = Regex\<rparr>"
    by (simp add: regexFallbackResult_def fallback_demo)
  finally show ?thesis using f by simp
qed

section \<open>Properties of the scan\<close>

lemma adjustConfidence_le:
  "adjustConfidence c company title subject content from \<le> 0.95"
  unfolding adjustConfidence_def Let_def by (rule min.cobounded2)

text \<open>The adjustment has no lower bound of its own: an accepted AI confidence of 0.2
  on a digest ends below zero. Such a message is not retained.\<close>

lemma adjustConfidence_negative:
  "adjustConfidence 0.2 None None ''hi'' ''hi digest'' ''a@b'' = - 0.1"
  by code_simp

text \<open>The confidence of a retained message: the adjusted confidence of the analysis
  result, which passed the threshold 0.2.\<close>

lemma classifyMessage_value:
  assumes "classifyMessage svc m body = Some app"
  shows "\<exists>res. determineStatusWithAI svc (toLowerCase (msg_subject m @ '' '' @ body))
                 (msg_subject m) (msg_from m) = Returns res \<and>
           app_confidence app =
             adjustConfidence (r_confidence res)
               (orOption (r_company res) (extractCompany (msg_from m) body (msg_subject m)))
               (orOption (r_jobTitle res)
                  (extractJobTitle (toLowerCase (msg_subject m @ '' '' @ body)) (msg_subject m)))
               (msg_subject m) (toLowerCase (msg_subject m @ '' '' @ body)) (msg_from m) \<and>
           0.2 \<le> app_confidence app"
proof -
  let ?subject = "msg_subject m" and ?from = "msg_from m"
  let ?content = "toLowerCase (msg_subject m @ '' '' @ body)"
  obtain res where res: "determineStatusWithAI svc ?content ?subject ?from = Returns res"
    using determineStatusWithAI_returns by blast
  let ?c = "adjustConfidence (r_confidence res)
              (orOption (r_company res) (extractCompany ?from body ?subject))
              (orOption (r_jobTitle res) (extractJobTitle ?content ?subject))
              ?subject ?content ?from"
  from assms res have "app_confidence app = ?c" and "0.2 \<le> ?c"
    by (auto simp: classifyMessage_def Let_def split: if_splits)
  with res show ?thesis by simp
qed

lemma classifyMessage_confidence:
  assumes "classifyMessage svc m body = Some app"
  shows "0.2 \<le> app_confidence app" and "app_confidence app \<le> 0.95"
proof -
  from classifyMessage_value [OF assms] obtain c co t s ct f
    where v: "app_confidence app = adjustConfidence c co t s ct f"
      and k: "0.2 \<le> app_confidence app"
    by blast
  from k show "0.2 \<le> app_confidence app" .
  show "app_confidence app \<le> 0.95" unfolding v by (rule adjustConfidence_le)
qed

lemma scanMessages_member:
  "app \<in> set (scanMessages svc ms) \<longleftrightarrow> (\<exists>m \<in> set ms. scanMessage svc m = Some app)"
  unfolding scanMessages_def
  by (induction ms) (auto split: option.splits)

text \<open>A retained classification has a confidence of at least 0.2, the threshold of
  the scan.\<close>

lemma scan_confidence_retained:
  assumes "app \<in> set (scanMessages svc ms)"
  shows "0.2 \<le> app_confidence app"
  using assms classifyMessage_confidence(1)
  by (auto simp: scanMessages_member scanMessage_def)













section \<open>Properties of the company extractor\<close>

text \<open>The test \<open>isGeneric\<close> of the source against a table of terms: the lower-cased
  name contains a term or equals one.\<close>

definition isGeneric :: "string list \<Rightarrow> string \<Rightarrow> bool" where
  "isGeneric terms name =
     list_ex (\<lambda>term. js_includes (toLowerCase name) term \<or> toLowerCase name = term) terms"

text \<open>The characters of the capture \<open>[A-Z][a-zA-Z\s&.\-']+?\<close> under the flag \<open>i\<close>.\<close>

definition companyChar :: "char \<Rightarrow> bool" where
  "companyChar d = (isUpper d \<or> isLower d \<or> isSpace d \<or> d \<in> set [CHR ''&'', CHR ''.'', CHR ''-'', CHR 0x27])"

lemma js_includes_self: "js_includes s s"
  by (cases s) simp_all

lemma symbol_not_letter:
  "\<not> isUpper CHR ''&''" "\<not> isLower CHR ''&''" "\<not> isUpper CHR ''.''" "\<not> isLower CHR ''.''"
  "\<not> isUpper CHR ''-''" "\<not> isLower CHR ''-''" "\<not> isUpper CHR 0x27" "\<not> isLower CHR 0x27"
  by (simp_all add: isUpper_def isLower_def)

lemma companyGroup_chars:
  "clsMatch True [CUpper] d \<Longrightarrow> companyChar d"
  "clsMatch True [CLower, CUpper, CSpace, CChar CHR ''&'', CChar CHR ''.'', CChar CHR ''-'',
     CChar CHR 0x27] d \<Longrightarrow> companyChar d"
  by (auto simp: clsMatch_def companyChar_def chrMatch_symbol symbol_not_letter)

lemma companyGroup_consumes:
  "consumesOnly True companyChar
     (seqs [Cls [CUpper], rlazyPlus (Cls [CLower, CUpper, CSpace, CChar CHR ''&'',
       CChar CHR ''.'', CChar CHR ''-'', CChar CHR 0x27])])"
  using companyGroup_chars by (simp add: seqs_def rlazyPlus_def)

lemma captureOnly_lit: "captureOnly ic P (lit s)"
  by (induction s) (simp_all add: lit_def)

lemma captureOnly_seqs: "list_all (captureOnly ic P) rs \<Longrightarrow> captureOnly ic P (seqs rs)"
  by (induction rs) (simp_all add: seqs_def)

lemma captureOnly_quant:
  "captureOnly ic P r \<Longrightarrow> captureOnly ic P (ropt r)"
  "captureOnly ic P r \<Longrightarrow> captureOnly ic P (rplus r)"
  "captureOnly ic P r \<Longrightarrow> captureOnly ic P (rstar r)"
  by (simp_all add: ropt_def rplus_def rstar_def)

lemma companyPatterns_capture: "list_all (captureOnly True companyChar) companyPatterns"
  unfolding companyPatterns_def
  by (simp add: captureOnly_seqs captureOnly_lit captureOnly_quant companyGroup_consumes)


lemma companyLoop_some:
  "companyLoop fullText ps = Some c \<Longrightarrow>
     \<exists>p \<in> set ps. \<exists>m1. js_match True p fullText = Some (Some m1) \<and>
        companyFromCapture m1 = Some c"
  by (induction ps) (auto split: option.splits if_splits)

lemma companyChar_kept:
  "companyChar d \<Longrightarrow>
     clsMatch False [CWord, CSpace, CChar CHR ''&'', CChar CHR ''.'', CChar CHR ''-'',
       CChar CHR 0x27] d"
  by (auto simp: companyChar_def clsMatch_def isWord_def chrMatch_def)

lemma search_class_none:
  "list_all (\<lambda>d. \<not> ok d) s \<Longrightarrow> run ic r = step ok \<Longrightarrow> search ic r b pre s = None"
  by (induction s arbitrary: b pre) simp_all

lemma companyJunk_none:
  assumes "list_all companyChar s"
  shows "replaceAll False companyJunk rep s = s"
proof -
  let ?items = "[CWord, CSpace, CChar CHR ''&'', CChar CHR ''.'', CChar CHR ''-'', CChar CHR 0x27]"
  from assms have "list_all (\<lambda>d. \<not> \<not> clsMatch False ?items d) s"
    by (simp add: list_all_iff companyChar_kept)
  moreover have "run False companyJunk = step (\<lambda>d. \<not> clsMatch False ?items d)"
    by (rule ext) (simp add: companyJunk_def)
  ultimately have "search False companyJunk True [] s = None" by (rule search_class_none)
  then show ?thesis by (simp add: replaceAll_def replaceFrom_none)
qed

lemma lowerChar_upperChar: "lowerChar (upperChar c) = lowerChar c"
  by (simp add: lowerChar_def upperChar_def caseTable_def)

lemma lowerChar_idem: "lowerChar (lowerChar c) = lowerChar c"
  by (simp add: lowerChar_def caseTable_def)

lemma toLowerCase_append: "toLowerCase (a @ b) = toLowerCase a @ toLowerCase b"
  by (simp add: toLowerCase_def)

lemma toLowerCase_titleCaseWord: "toLowerCase (titleCaseWord w) = toLowerCase w"
  by (cases w) (simp_all add: toLowerCase_def lowerChar_upperChar lowerChar_idem)

lemma splitOn_nonempty: "splitOn sep acc s \<noteq> []"
  by (induction s arbitrary: acc) simp_all

lemma joinWith_cons: "ws \<noteq> [] \<Longrightarrow> joinWith sep (w # ws) = w @ sep @ joinWith sep ws"
  by (cases ws) simp_all

lemma toLowerCase_titleCase:
  "toLowerCase (joinWith '' '' (map titleCaseWord (splitOn (\<lambda>c. c = CHR '' '') acc s))) =
     toLowerCase (acc @ s)"
proof (induction s arbitrary: acc)
  case Nil
  then show ?case by (simp add: toLowerCase_titleCaseWord)
next
  case (Cons c cs)
  show ?case
  proof (cases "c = CHR '' ''")
    case True
    have "toLowerCase (CHR '' '' # u) = CHR '' '' # toLowerCase u" for u
      by (simp add: toLowerCase_def lowerChar_def caseTable_def)
    with True Cons.IH [of "[]"] show ?thesis
      by (simp add: joinWith_cons splitOn_nonempty toLowerCase_append toLowerCase_titleCaseWord)
  next
    case False
    with Cons.IH [of "acc @ [c]"] show ?thesis by simp
  qed
qed

lemma trim_chars: "list_all P s \<Longrightarrow> list_all P (trim s)"
  using set_trim [of s] by (auto simp: list_all_iff)

text \<open>Stage 2: a name made from a capture of the company characters is not generic,
  whatever its letter case.\<close>

lemma companyFromCapture_not_generic:
  assumes chars: "list_all companyChar m1" and some: "companyFromCapture m1 = Some c"
  shows "\<not> isGeneric genericTerms c"
proof -
  let ?name = "trim m1"
  have kept: "trim (replaceAll False companyJunk [] ?name) = ?name"
    by (simp add: companyJunk_none trim_chars chars trim_idem)
  from some have ng: "\<not> isGeneric genericTerms ?name"
    and c: "c = joinWith '' '' (map titleCaseWord (splitOn (\<lambda>c. c = CHR '' '') [] ?name))"
    unfolding companyFromCapture_def Let_def kept isGeneric_def
    by (auto split: if_splits)
  have "toLowerCase c = toLowerCase ?name" unfolding c toLowerCase_titleCase by simp
  with ng show ?thesis by (simp add: isGeneric_def)
qed

lemma companyFromPatterns_not_generic:
  assumes "companyFromPatterns body subject = Some c"
  shows "\<not> isGeneric genericTerms c"
proof -
  from assms obtain p m1 where p: "p \<in> set companyPatterns"
    and m: "js_match True p (subject @ '' '' @ body) = Some (Some m1)"
    and c: "companyFromCapture m1 = Some c"
    unfolding companyFromPatterns_def by (blast dest: companyLoop_some)
  from p companyPatterns_capture have "captureOnly True companyChar p"
    by (simp add: list_all_iff)
  from js_match_capture [OF this m] c show ?thesis by (rule companyFromCapture_not_generic)
qed

text \<open>Stage 3: a display name that is returned contains no term of the stage's own
  table.\<close>

lemma companyFromDisplayName_not_generic:
  assumes "companyFromDisplayName from = Some c"
  shows "\<not> isGeneric genericSenderTerms c"
proof -
  from assms have "\<not> list_ex (\<lambda>term. js_includes (toLowerCase c) term) genericSenderTerms"
    unfolding companyFromDisplayName_def Let_def
    by (auto split: option.splits if_splits)
  then show ?thesis
    unfolding isGeneric_def list_ex_iff using js_includes_self by metis
qed

lemma stage_examples:
  "extractCompany ''jobs@team.io'' [] [] = Some ''Team''"
  "extractCompany ''careers@hr.acme.com'' [] [] = Some ''Hr''"
  "extractCompany ''Team <x@gmail.com>'' [] [] = Some ''Team''"
  by code_simp+

lemma generic_examples:
  "toLowerCase ''Team'' = ''team''" "toLowerCase ''Hr'' = ''hr''"
  "isGeneric genericTerms ''Team''" "isGeneric genericTerms ''Hr''"
  "isGeneric genericSenderTerms ''Hr''" "\<not> isGeneric genericSenderTerms ''Team''"
  by code_simp+

text \<open>
  C6 as stated fails. Stage 1 applies no generic-term test: for the sender
  \<open>jobs@team.io\<close> it returns \<open>Team\<close> and for \<open>careers@hr.acme.com\<close> it returns \<open>Hr\<close>, both
  terms of the generic-term table (and \<open>hr\<close> also of the table of stage 3). The table of
  stage 3 has no \<open>team\<close>, so the display name \<open>Team\<close> is returned as well.
\<close>

theorem extractCompany_returns_generic_term:
  "extractCompany ''jobs@team.io'' [] [] = Some ''Team''
   \<and> toLowerCase ''Team'' = ''team'' \<and> ''team'' \<in> set genericTerms
   \<and> extractCompany ''careers@hr.acme.com'' [] [] = Some ''Hr''
   \<and> toLowerCase ''Hr'' = ''hr'' \<and> ''hr'' \<in> set genericTerms
   \<and> ''hr'' \<in> set genericSenderTerms
   \<and> extractCompany ''Team <x@gmail.com>'' [] [] = Some ''Team''"
  by (simp add: stage_examples generic_examples genericTerms_def genericSenderTerms_def)

text \<open>Stage 1: a name is returned only for a domain label outside the stage's table
  of excluded domains; the stage has no test for generic terms.\<close>

definition domainAccepted :: "string \<Rightarrow> bool" where
  "domainAccepted from =
     (case js_match False domainPattern from of
        Some (Some m1) \<Rightarrow> toLowerCase m1 \<notin> set excludedDomains
      | _ \<Rightarrow> False)"

lemma companyFromDomain_accepted:
  "companyFromDomain from = Some c \<Longrightarrow> domainAccepted from"
  unfolding companyFromDomain_def domainAccepted_def Let_def
  by (auto split: option.splits if_splits)

lemma stage_demo:
  "extractCompany ''jobs@acme.io'' [] [] = Some ''Acme''"
  "companyFromDomain ''jobs@acme.io'' = Some ''Acme''"
  "extractCompany ''jo@gmail.com'' ''thanks for applying to Acme.'' [] = Some ''Acme''"
  "companyFromDomain ''jo@gmail.com'' = None"
  "companyFromPatterns ''thanks for applying to Acme.'' [] = Some ''Acme''"
  "extractCompany ''Acme <jo@gmail.com>'' [] [] = Some ''Acme''"
  "companyFromDomain ''Acme <jo@gmail.com>'' = None"
  "companyFromPatterns [] [] = None"
  "companyFromDisplayName ''Acme <jo@gmail.com>'' = Some ''Acme''"
  by code_simp+

text \<open>
  C6, amended. A value \<open>extractCompany\<close> returns passed the exclusion test of the stage
  that produced it: from stage 1 (sender domain) it comes from a domain label that is
  not in the table of excluded domains; from stage 2 (body and subject patterns) it
  neither equals nor contains, whatever the letter case, a term of the generic-term
  table (\<open>team\<close>, \<open>hr\<close>, ...); from stage 3 (display name) it neither equals nor contains
  a term of that stage's own table (which has \<open>hr\<close> but not \<open>team\<close>).
\<close>

theorem extractCompany_stage_exclusion:
  assumes "extractCompany from body subject = Some c"
  shows "(companyFromDomain from = Some c \<and> domainAccepted from) \<or>
         (companyFromDomain from = None \<and> companyFromPatterns body subject = Some c \<and>
          \<not> isGeneric genericTerms c) \<or>
         (companyFromDomain from = None \<and> companyFromPatterns body subject = None \<and>
          companyFromDisplayName from = Some c \<and> \<not> isGeneric genericSenderTerms c)"
proof (cases "companyFromDomain from")
  case (Some c')
  with assms have "c' = c" by (simp add: extractCompany_def)
  with Some show ?thesis by (simp add: companyFromDomain_accepted)
next
  case None
  show ?thesis
  proof (cases "companyFromPatterns body subject")
    case (Some c')
    with assms None have "c' = c" by (simp add: extractCompany_def)
    with Some None show ?thesis by (simp add: companyFromPatterns_not_generic)
  next
    case n: None
    with assms None have "companyFromDisplayName from = Some c" by (simp add: extractCompany_def)
    with None n show ?thesis by (simp add: companyFromDisplayName_not_generic)
  qed
qed

theorem extractCompany_stage_exclusion_witness:
  "extractCompany ''jobs@acme.io'' [] [] = Some ''Acme'' \<and> domainAccepted ''jobs@acme.io''
   \<and> extractCompany ''jo@gmail.com'' ''thanks for applying to Acme.'' [] = Some ''Acme''
   \<and> \<not> isGeneric genericTerms ''Acme''
   \<and> extractCompany ''Acme <jo@gmail.com>'' [] [] = Some ''Acme''
   \<and> \<not> isGeneric genericSenderTerms ''Acme''"
proof -
  from extractCompany_stage_exclusion [OF stage_demo(1)]
  have a: "domainAccepted ''jobs@acme.io''" by (simp add: stage_demo)
  from extractCompany_stage_exclusion [OF stage_demo(3)]
  have b: "\<not> isGeneric genericTerms ''Acme''" by (simp add: stage_demo)
  from extractCompany_stage_exclusion [OF stage_demo(6)]
  have c: "\<not> isGeneric genericSenderTerms ''Acme''" by (simp add: stage_demo)
  from a b c show ?thesis by (simp add: stage_demo)
qed

end
